(* ===== verification/Broker_Prelude.thy ===== *)
theory Broker_Prelude
  imports Complex_Main "HOL-Library.AList" "HOL-Library.Code_Target_Nat"
begin

text \<open>
  What every component shares: the collections of lemmas the proofs draw on, Go's results, bytes,
  strings and 64-bit durations, and the interface of a Go map.

  Go's \<open>string\<close> and \<open>[]byte\<close> are sequences of bytes, and so is HOL's \<open>string\<close>: a \<open>char\<close> is
  a byte. The functions of Go's \<open>strings\<close> package that the broker calls work on the UTF-8 runes of
  a string; they are modelled here over a UTF-8 decoder. The two Unicode tables they consult for
  runes beyond ASCII (\<open>unicode.ToLower\<close>, \<open>unicode.SimpleFold\<close>) are data, carried by the record
  \<open>unicode_tables\<close>, so that every theorem holds for every edition of Unicode.

  A Go map is an association list with distinct keys (\<open>gm_ok\<close>). The order of the list is no
  part of the model: where the source iterates over a map, the model takes the order of the
  iteration as an argument. The locale \<open>go_map\<close> is the interface of a map; the tables of the
  broker (one-time codes, replay cache, rate limiter) use it through its interpretation \<open>gm\<close>.
\<close>

section \<open>Collections of lemmas\<close>

named_theorems gostr \<open>evaluation of the string functions on ASCII input\<close>
named_theorems go_map_simps \<open>laws of the finite map interface\<close>
named_theorems broker_split \<open>case splits on the results of the model's operations\<close>

declare sum.splits [broker_split] option.splits [broker_split] prod.splits [broker_split]
declare if_splits [broker_split] list.splits [broker_split]

section \<open>Results\<close>

text \<open>A Go call returning \<open>(value, error)\<close>: \<open>Inl\<close> is the error, \<open>Inr\<close> the value.\<close>

type_synonym ('e, 'a) result = "'e + 'a"

abbreviation Err :: "'e \<Rightarrow> ('e, 'a) result" where "Err \<equiv> Inl"
abbreviation Ok :: "'a \<Rightarrow> ('e, 'a) result" where "Ok \<equiv> Inr"

definition is_ok :: "('e, 'a) result \<Rightarrow> bool" where
  "is_ok r = (case r of Inl _ \<Rightarrow> False | Inr _ \<Rightarrow> True)"

section \<open>64-bit integers and durations\<close>

text \<open>
  \<open>time.Duration\<close> is an \<open>int64\<close> of nanoseconds: sums and products wrap around. A
  \<open>time.Time\<close> is the number of nanoseconds since an epoch, as an unbounded integer;
  \<open>Time.Sub\<close> saturates at the range of \<open>int64\<close> where the difference does not fit.
\<close>

type_synonym duration = int
type_synonym time = int

definition maxInt64 :: int where "maxInt64 = 9223372036854775807"
definition minInt64 :: int where "minInt64 = - 9223372036854775808"

definition wrap64 :: "int \<Rightarrow> int" where
  "wrap64 x = (x + 9223372036854775808) mod 18446744073709551616 - 9223372036854775808"

definition int64 :: "int \<Rightarrow> bool" where
  "int64 x = (minInt64 \<le> x \<and> x \<le> maxInt64)"

definition time_Sub :: "time \<Rightarrow> time \<Rightarrow> duration" where
  "time_Sub a b = max minInt64 (min maxInt64 (a - b))"

definition second :: duration where "second = 1000000000"
definition minute :: duration where "minute = 60000000000"
definition hour :: duration where "hour = 3600000000000"

section \<open>Bytes, runes and the string functions\<close>

record unicode_tables =
  ucToLower :: "nat \<Rightarrow> nat"
  ucFold :: "nat \<Rightarrow> nat \<Rightarrow> bool"

definition byteOf :: "char \<Rightarrow> nat" where "byteOf c = of_char c"

definition ascii_lower :: "char \<Rightarrow> char" where
  "ascii_lower c = (if 65 \<le> byteOf c \<and> byteOf c \<le> 90 then char_of (byteOf c + 32) else c)"

definition runeError :: nat where "runeError = 65533"

text \<open>A byte in the continuation range of UTF-8, between the given bounds.\<close>

definition in_range :: "nat \<Rightarrow> nat \<Rightarrow> nat \<Rightarrow> bool" where
  "in_range lo hi b = (lo \<le> b \<and> b \<le> hi)"

abbreviation cont_byte :: "nat \<Rightarrow> bool" where "cont_byte \<equiv> in_range 128 191"

text \<open>
  The rune that starts a non-empty string and the number of bytes after its first one,
  \<open>utf8.DecodeRune\<close>: an invalid sequence is one byte wide and reads as \<open>runeError\<close>.
\<close>

definition decode2 :: "nat \<Rightarrow> string \<Rightarrow> nat \<times> nat" where
  "decode2 b0 s = (case s of
     c1 # _ \<Rightarrow> (if cont_byte (byteOf c1) then ((b0 mod 32) * 64 + byteOf c1 mod 64, 1)
               else (runeError, 0))
   | _ \<Rightarrow> (runeError, 0))"

definition decode3 :: "nat \<Rightarrow> string \<Rightarrow> nat \<times> nat" where
  "decode3 b0 s = (case s of
     c1 # c2 # _ \<Rightarrow>
       (if in_range (if b0 = 224 then 160 else 128) (if b0 = 237 then 159 else 191) (byteOf c1)
           \<and> cont_byte (byteOf c2)
        then (((b0 mod 16) * 64 + byteOf c1 mod 64) * 64 + byteOf c2 mod 64, 2)
        else (runeError, 0))
   | _ \<Rightarrow> (runeError, 0))"

definition decode4 :: "nat \<Rightarrow> string \<Rightarrow> nat \<times> nat" where
  "decode4 b0 s = (case s of
     c1 # c2 # c3 # _ \<Rightarrow>
       (if in_range (if b0 = 240 then 144 else 128) (if b0 = 244 then 143 else 191) (byteOf c1)
           \<and> cont_byte (byteOf c2) \<and> cont_byte (byteOf c3)
        then ((((b0 mod 8) * 64 + byteOf c1 mod 64) * 64 + byteOf c2 mod 64) * 64
               + byteOf c3 mod 64, 3)
        else (runeError, 0))
   | _ \<Rightarrow> (runeError, 0))"

definition decodeRune :: "char \<Rightarrow> string \<Rightarrow> nat \<times> nat" where
  "decodeRune c0 s =
    (let b0 = byteOf c0 in
     if b0 < 128 then (b0, 0)
     else if in_range 194 223 b0 then decode2 b0 s
     else if in_range 224 239 b0 then decode3 b0 s
     else if in_range 240 244 b0 then decode4 b0 s
     else (runeError, 0))"

text \<open>A string cut into its runes, each with the bytes it was read from.\<close>

function chunks :: "string \<Rightarrow> (nat \<times> string) list" where
  "chunks [] = []"
| "chunks (c # s) =
    (let d = decodeRune c s in (fst d, c # take (snd d) s) # chunks (drop (snd d) s))"
  by pat_completeness auto
termination
  by (relation "measure length") auto

definition runes :: "string \<Rightarrow> nat list" where
  "runes s = map fst (chunks s)"

definition encodeRune :: "nat \<Rightarrow> string" where
  "encodeRune r0 =
    (let r = (if r0 > 1114111 \<or> in_range 55296 57343 r0 then runeError else r0) in
     if r < 128 then [char_of r]
     else if r < 2048 then [char_of (192 + r div 64), char_of (128 + r mod 64)]
     else if r < 65536 then
       [char_of (224 + r div 4096), char_of (128 + (r div 64) mod 64), char_of (128 + r mod 64)]
     else [char_of (240 + r div 262144), char_of (128 + (r div 4096) mod 64),
           char_of (128 + (r div 64) mod 64), char_of (128 + r mod 64)])"

definition runeLower :: "unicode_tables \<Rightarrow> nat \<Rightarrow> nat" where
  "runeLower u r = (if r < 128 then (if in_range 65 90 r then r + 32 else r) else ucToLower u r)"

text \<open>\<open>strings.ToLower\<close>, \<open>strings.TrimSpace\<close> and \<open>strings.EqualFold\<close>.\<close>

definition toLower :: "unicode_tables \<Rightarrow> string \<Rightarrow> string" where
  "toLower u s = concat (map (\<lambda>r. encodeRune (runeLower u r)) (runes s))"

definition isSpace :: "nat \<Rightarrow> bool" where
  "isSpace r = (in_range 9 13 r \<or> r = 32 \<or> r = 133 \<or> r = 160 \<or> r = 5760 \<or> in_range 8192 8202 r
     \<or> r = 8232 \<or> r = 8233 \<or> r = 8239 \<or> r = 8287 \<or> r = 12288)"

definition trim_both :: "('a \<Rightarrow> bool) \<Rightarrow> 'a list \<Rightarrow> 'a list" where
  "trim_both P xs = rev (dropWhile P (rev (dropWhile P xs)))"

definition trimSpace :: "string \<Rightarrow> string" where
  "trimSpace s = concat (map snd (trim_both (\<lambda>(r, _). isSpace r) (chunks s)))"

definition runeFold :: "unicode_tables \<Rightarrow> nat \<Rightarrow> nat \<Rightarrow> bool" where
  "runeFold u a b =
    (a = b \<or>
     (let lo = min a b; hi = max a b in
      if hi < 128 then in_range 65 90 lo \<and> hi = lo + 32 else ucFold u lo hi))"

definition equalFold :: "unicode_tables \<Rightarrow> string \<Rightarrow> string \<Rightarrow> bool" where
  "equalFold u s t = list_all2 (runeFold u) (runes s) (runes t)"

text \<open>\<open>strings.HasPrefix\<close>, \<open>HasSuffix\<close>, \<open>Cut\<close>, \<open>Trim\<close>, \<open>LastIndex\<close> on one byte.\<close>

definition hasPrefix :: "string \<Rightarrow> string \<Rightarrow> bool" where
  "hasPrefix s p = (take (length p) s = p)"

definition hasSuffix :: "string \<Rightarrow> string \<Rightarrow> bool" where
  "hasSuffix s p = (length p \<le> length s \<and> drop (length s - length p) s = p)"

definition cutByte :: "char \<Rightarrow> string \<Rightarrow> (string \<times> string) option" where
  "cutByte c s = (if c \<in> set s
     then Some (takeWhile (\<lambda>x. x \<noteq> c) s, tl (dropWhile (\<lambda>x. x \<noteq> c) s)) else None)"

definition cutLastByte :: "char \<Rightarrow> string \<Rightarrow> (string \<times> string) option" where
  "cutLastByte c s = (if c \<in> set s
     then Some (rev (tl (dropWhile (\<lambda>x. x \<noteq> c) (rev s))), rev (takeWhile (\<lambda>x. x \<noteq> c) (rev s)))
     else None)"

definition ascii :: "string \<Rightarrow> bool" where
  "ascii s = list_all (\<lambda>c. byteOf c < 128) s"

section \<open>Go maps\<close>

type_synonym ('k, 'v) gomap = "('k \<times> 'v) list"

definition gm_empty :: "('k, 'v) gomap" where "gm_empty = []"
definition gm_get :: "('k, 'v) gomap \<Rightarrow> 'k \<Rightarrow> 'v option" where "gm_get m k = map_of m k"
definition gm_put :: "'k \<Rightarrow> 'v \<Rightarrow> ('k, 'v) gomap \<Rightarrow> ('k, 'v) gomap" where
  "gm_put k v m = AList.update k v m"
definition gm_del :: "'k \<Rightarrow> ('k, 'v) gomap \<Rightarrow> ('k, 'v) gomap" where
  "gm_del k m = filter (\<lambda>(k', _). k' \<noteq> k) m"
definition gm_len :: "('k, 'v) gomap \<Rightarrow> nat" where "gm_len m = length m"
definition gm_keys :: "('k, 'v) gomap \<Rightarrow> 'k list" where "gm_keys m = map fst m"
definition gm_ok :: "('k, 'v) gomap \<Rightarrow> bool" where "gm_ok m = distinct (map fst m)"

text \<open>An order in which an iteration over the map may visit its keys.\<close>

definition gm_order :: "('k, 'v) gomap \<Rightarrow> 'k list \<Rightarrow> bool" where
  "gm_order m ks = (distinct ks \<and> set ks = set (gm_keys m))"

locale go_map =
  fixes emp :: 'm
    and get :: "'m \<Rightarrow> 'k \<Rightarrow> 'v option"
    and put :: "'k \<Rightarrow> 'v \<Rightarrow> 'm \<Rightarrow> 'm"
    and del :: "'k \<Rightarrow> 'm \<Rightarrow> 'm"
    and len :: "'m \<Rightarrow> nat"
    and ok :: "'m \<Rightarrow> bool"
  assumes ok_emp: "ok emp"
    and ok_put: "ok m \<Longrightarrow> ok (put k v m)"
    and ok_del: "ok m \<Longrightarrow> ok (del k m)"
    and get_emp: "get emp k = None"
    and get_put: "ok m \<Longrightarrow> get (put k v m) j = (if j = k then Some v else get m j)"
    and get_del: "ok m \<Longrightarrow> get (del k m) j = (if j = k then None else get m j)"
    and dom_finite: "ok m \<Longrightarrow> finite (dom (get m))"
    and len_card: "ok m \<Longrightarrow> len m = card (dom (get m))"
begin

lemma dom_put: "ok m \<Longrightarrow> dom (get (put k v m)) = insert k (dom (get m))"
  by (auto simp: get_put dom_def)

lemma dom_del: "ok m \<Longrightarrow> dom (get (del k m)) = dom (get m) - {k}"
  by (auto simp: get_del dom_def split: if_splits)

lemma len_emp: "len emp = 0"
proof -
  have "dom (get emp) = {}" by (auto simp: get_emp)
  then show ?thesis by (simp add: len_card ok_emp)
qed

lemma len_put:
  assumes "ok m"
  shows "len (put k v m) = (if get m k = None then Suc (len m) else len m)"
  using assms by (auto simp: len_card ok_put dom_put dom_finite insert_absorb domIff)

lemma len_put_le: "ok m \<Longrightarrow> len (put k v m) \<le> Suc (len m)"
  by (simp add: len_put)

lemma len_del:
  assumes "ok m"
  shows "len (del k m) = (if get m k = None then len m else len m - 1)"
  using assms by (auto simp: len_card ok_del dom_del dom_finite domIff)

lemma len_del_le: "ok m \<Longrightarrow> len (del k m) \<le> len m"
  by (simp add: len_del)

lemma len_pos: "ok m \<Longrightarrow> get m k = Some v \<Longrightarrow> 0 < len m"
  by (auto simp: len_card card_gt_0_iff dom_finite)

lemma ok_del_all: "ok m \<Longrightarrow> ok (fold del ks m)"
  by (induction ks arbitrary: m) (auto simp: ok_del)

lemma get_del_all:
  "ok m \<Longrightarrow> get (fold del ks m) j = (if j \<in> set ks then None else get m j)"
  by (induction ks arbitrary: m) (auto simp: ok_del get_del)

lemma len_del_all_le: "ok m \<Longrightarrow> len (fold del ks m) \<le> len m"
proof (induction ks arbitrary: m)
  case (Cons k ks)
  then show ?case using ok_del [of m k] len_del_le [of m k] le_trans by fastforce
qed simp

lemma len_del_all_less:
  assumes "ok m" and "k \<in> set ks" and "get m k = Some v"
  shows "len (fold del ks m) < len m"
proof -
  have "dom (get (fold del ks m)) \<subset> dom (get m)"
    using assms by (auto simp: get_del_all split: if_splits)
  then show ?thesis
    using assms by (simp add: len_card ok_del_all dom_finite psubset_card_mono)
qed

lemmas table_rules = ok_emp ok_put ok_del get_emp get_put get_del len_emp len_put len_del

end

lemma gm_get_del: "gm_get (gm_del k m) j = (if j = k then None else gm_get m j)"
  by (induction m) (auto simp: gm_get_def gm_del_def)

lemma gm_ok_del: "gm_ok m \<Longrightarrow> gm_ok (gm_del k m)"
  by (induction m) (auto simp: gm_ok_def gm_del_def)

interpretation gm: go_map gm_empty gm_get gm_put gm_del gm_len gm_ok
proof
  fix m :: "('k, 'v) gomap" and k j v
  show "gm_ok gm_empty" by (simp add: gm_ok_def gm_empty_def)
  show "gm_ok m \<Longrightarrow> gm_ok (gm_put k v m)"
    by (simp add: gm_ok_def gm_put_def distinct_update)
  show "gm_ok m \<Longrightarrow> gm_ok (gm_del k m)" by (rule gm_ok_del)
  show "gm_get gm_empty k = None" by (simp add: gm_get_def gm_empty_def)
  show "gm_get (gm_put k v m) j = (if j = k then Some v else gm_get m j)"
    by (simp add: gm_get_def gm_put_def update_conv')
  show "gm_get (gm_del k m) j = (if j = k then None else gm_get m j)" by (rule gm_get_del)
  show "finite (dom (gm_get m))" unfolding gm_get_def by (rule finite_dom_map_of)
  show "gm_ok m \<Longrightarrow> gm_len m = card (dom (gm_get m))"
    unfolding gm_ok_def gm_len_def gm_get_def dom_map_of_conv_image_fst
    by (metis distinct_card length_map list.set_map)
qed

declare gm.table_rules [go_map_simps]

lemma gm_get_keys: "gm_get m k = None \<longleftrightarrow> k \<notin> set (gm_keys m)"
  by (simp add: gm_get_def gm_keys_def map_of_eq_None_iff)

lemma gm_order_iff: "gm_order m ks \<Longrightarrow> k \<in> set ks \<longleftrightarrow> (\<exists>v. gm_get m k = Some v)"
  unfolding gm_order_def by (metis gm_get_keys not_None_eq)

lemma gm_order_length: "gm_ok m \<Longrightarrow> gm_order m ks \<Longrightarrow> length ks = gm_len m"
  unfolding gm_order_def gm_ok_def gm_len_def gm_keys_def
  by (metis distinct_card length_map)

section \<open>Lemmas on integers and strings\<close>

lemma wrap64_id: "int64 x \<Longrightarrow> wrap64 x = x"
  by (simp add: wrap64_def int64_def minInt64_def maxInt64_def)

lemma wrap64_shift: "wrap64 (x + 18446744073709551616) = wrap64 x"
proof -
  have "x + 18446744073709551616 + 9223372036854775808 = (x + 9223372036854775808) + 18446744073709551616"
    by simp
  then show ?thesis unfolding wrap64_def by (simp only: mod_add_self2)
qed

text \<open>One turn past the end of the range.\<close>

lemma wrap64_overflow:
  assumes "maxInt64 < x" and "x \<le> maxInt64 + 18446744073709551616"
  shows "wrap64 x = x - 18446744073709551616"
proof -
  have "wrap64 x = wrap64 (x - 18446744073709551616)"
    using wrap64_shift [of "x - 18446744073709551616"] by simp
  also have "\<dots> = x - 18446744073709551616"
    using assms by (intro wrap64_id) (auto simp: int64_def minInt64_def maxInt64_def)
  finally show ?thesis .
qed

lemma wrap64_int64: "int64 (wrap64 x)"
proof -
  let ?m = "(x + 9223372036854775808) mod 18446744073709551616"
  have "0 \<le> ?m" "?m < 18446744073709551616" by (rule pos_mod_sign, simp) (rule pos_mod_bound, simp)
  then show ?thesis unfolding wrap64_def int64_def minInt64_def maxInt64_def by linarith
qed

lemma time_Sub_int64: "int64 (time_Sub a b)"
  by (simp add: time_Sub_def int64_def minInt64_def maxInt64_def)

lemma time_Sub_exact: "int64 (a - b) \<Longrightarrow> time_Sub a b = a - b"
  by (simp add: time_Sub_def int64_def)

lemma chunks_ascii [gostr]: "ascii s \<Longrightarrow> chunks s = map (\<lambda>c. (byteOf c, [c])) s"
  by (induction s) (auto simp: ascii_def decodeRune_def)

lemma runes_ascii [gostr]: "ascii s \<Longrightarrow> runes s = map byteOf s"
  by (simp add: runes_def chunks_ascii)

lemma concat_chunks: "concat (map snd (chunks s)) = s"
  by (induction s rule: chunks.induct) (auto simp: Let_def)

lemma encodeRune_lower_ascii:
  "byteOf c < 128 \<Longrightarrow> encodeRune (runeLower u (byteOf c)) = [ascii_lower c]"
  by (auto simp: encodeRune_def runeLower_def ascii_lower_def in_range_def byteOf_def)

lemma toLower_ascii [gostr]: "ascii s \<Longrightarrow> toLower u s = map ascii_lower s"
proof -
  assume s: "ascii s"
  have "concat (map (\<lambda>c. encodeRune (runeLower u (byteOf c))) s) = map ascii_lower s"
    using s by (induction s) (auto simp: ascii_def encodeRune_lower_ascii)
  then show ?thesis using s by (simp add: toLower_def runes_ascii comp_def)
qed

lemma dropWhile_map: "dropWhile P (map f xs) = map f (dropWhile (P \<circ> f) xs)"
  by (induction xs) auto

lemma trim_both_map: "trim_both P (map f xs) = map f (trim_both (P \<circ> f) xs)"
  by (simp add: trim_both_def dropWhile_map rev_map)

lemma trimSpace_ascii [gostr]:
  assumes "ascii s"
  shows "trimSpace s = trim_both (\<lambda>c. isSpace (byteOf c)) s"
proof -
  have "concat (map snd (map (\<lambda>c. (byteOf c, [c])) xs)) = xs" for xs
    by (induction xs) auto
  then show ?thesis
    using assms by (simp add: trimSpace_def chunks_ascii trim_both_map comp_def)
qed

lemma hasSuffix_iff: "hasSuffix s p \<longleftrightarrow> (\<exists>q. s = q @ p)"
proof
  assume "hasSuffix s p"
  then have "s = take (length s - length p) s @ p"
    unfolding hasSuffix_def by (metis append_take_drop_id)
  then show "\<exists>q. s = q @ p" by blast
qed (auto simp: hasSuffix_def)

lemma hasPrefix_iff: "hasPrefix s p \<longleftrightarrow> (\<exists>q. s = p @ q)"
  unfolding hasPrefix_def by (metis append_eq_conv_conj append_take_drop_id)

end
