(* ===== verification/Go_X509.thy ===== *)
theory Go_X509
  imports Broker_Prelude
begin

text \<open>
  The data of Go's \<open>crypto/x509\<close>, \<open>net\<close> and \<open>math/big\<close> that the broker reads, and the record
  \<open>golib\<close> of the library functions it calls and that are not modelled: hashing, ASN.1 and
  certificate parsing, signature and chain verification, textual IP addresses. Each is a
  parameter of the definitions that call it.

  A certificate or a certificate request carries the fields the broker reads. A URL carries
  the text that \<open>URL.String\<close> returns (the only method the broker calls), an IP address is the bytes
  of \<open>net.IP\<close>, a serial number the integer of \<open>big.Int\<close>.
\<close>

datatype goURL = GoURL (urlString: string)

record pkixName =
  nm_CommonName :: string
  nm_OrganizationalUnit :: "string list"
  nm_Organization :: "string list"

record certificate =
  crt_Raw :: string
  crt_Subject :: pkixName
  crt_DNSNames :: "string list"
  crt_IPAddresses :: "string list"
  crt_URIs :: "goURL list"
  crt_SerialNumber :: int
  crt_NotBefore :: time
  crt_NotAfter :: time

datatype ecCurve = P224 | P256 | P384 | P521 | OtherCurve string

datatype publicKey = RSAPub nat | ECDSAPub ecCurve | Ed25519Pub | OtherPub string

record certRequest =
  csr_Raw :: string
  csr_RawTBS :: string
  csr_Subject :: pkixName
  csr_DNSNames :: "string list"
  csr_IPAddresses :: "string list"
  csr_URIs :: "goURL list"
  csr_PublicKey :: publicKey

record golib =
  lib_unicode :: unicode_tables
  lib_sha256 :: "string \<Rightarrow> string"
  lib_ipString :: "string \<Rightarrow> string"
  lib_parseIP :: "string \<Rightarrow> string option"

section \<open>Hexadecimal text\<close>

definition hexDigit :: "nat \<Rightarrow> char" where
  "hexDigit n = (if n < 10 then char_of (48 + n) else char_of (87 + n))"

text \<open>\<open>hex.EncodeToString\<close>: two lower-case digits for each byte.\<close>

definition hexEncode :: "string \<Rightarrow> string" where
  "hexEncode s = concat (map (\<lambda>c. [hexDigit (byteOf c div 16), hexDigit (byteOf c mod 16)]) s)"

text \<open>\<open>Int.Text(16)\<close>: lower-case digits without leading zeros, after a sign if negative.\<close>

fun hexNat :: "nat \<Rightarrow> string" where
  "hexNat n = (if n < 16 then [hexDigit n] else hexNat (n div 16) @ [hexDigit (n mod 16)])"

declare hexNat.simps [simp del]

definition bigText16 :: "int \<Rightarrow> string" where
  "bigText16 i = (if i < 0 then CHR ''-'' # hexNat (nat (- i)) else hexNat (nat i))"

section \<open>IP addresses\<close>

text \<open>\<open>IP.Equal\<close>: equal bytes, or a 4-byte address and its IPv4-in-IPv6 form.\<close>

definition v4InV6Prefix :: string where
  "v4InV6Prefix = replicate 10 (char_of (0::nat)) @ [char_of (255::nat), char_of (255::nat)]"

definition ipEqual :: "string \<Rightarrow> string \<Rightarrow> bool" where
  "ipEqual a b =
    (if length a = length b then a = b
     else if length a = 4 \<and> length b = 16 then take 12 b = v4InV6Prefix \<and> a = drop 12 b
     else if length a = 16 \<and> length b = 4 then take 12 a = v4InV6Prefix \<and> drop 12 a = b
     else False)"

section \<open>A concrete library\<close>

text \<open>
  An instance of the parameters for evaluating the model on concrete inputs: no case mapping
  beyond ASCII, a checksum in place of the hash, addresses written as their bytes.
\<close>

definition exampleLib :: golib where
  "exampleLib = \<lparr>lib_unicode = \<lparr>ucToLower = (\<lambda>r. r), ucFold = (\<lambda>a b. False)\<rparr>,
     lib_sha256 = (\<lambda>s. [char_of (sum_list (map byteOf s) mod 256), char_of (length s mod 256)]),
     lib_ipString = (\<lambda>b. b), lib_parseIP = (\<lambda>s. if s = [] then None else Some s)\<rparr>"

section \<open>Lemmas\<close>

lemma byteOf_char_of: "n < 256 \<Longrightarrow> byteOf (char_of (n::nat)) = n"
  by (simp add: byteOf_def)

lemma byteOf_less: "byteOf c < 256"
  by (simp add: byteOf_def)

lemma byteOf_inject: "byteOf c = byteOf d \<longleftrightarrow> c = d"
  by (simp add: byteOf_def)

lemma hexDigit_range:
  "n < 16 \<Longrightarrow> byteOf (hexDigit n) \<in> {48..57} \<union> {97..102}"
  by (auto simp: hexDigit_def byteOf_char_of)

lemma hexDigit_inj: "m < 16 \<Longrightarrow> n < 16 \<Longrightarrow> hexDigit m = hexDigit n \<longleftrightarrow> m = n"
  by (auto simp: hexDigit_def simp flip: byteOf_inject simp: byteOf_char_of)

lemma hexEncode_inj: "hexEncode s = hexEncode t \<longleftrightarrow> s = t"
proof
  have dm: "byteOf c div 16 < 16" "byteOf c mod 16 < 16" for c
    using byteOf_less [of c] by auto
  show "hexEncode s = hexEncode t \<Longrightarrow> s = t"
  proof (induction s arbitrary: t)
    case Nil
    then show ?case by (cases t) (auto simp: hexEncode_def)
  next
    case (Cons c s)
    then obtain d t' where t: "t = d # t'" by (cases t) (auto simp: hexEncode_def)
    have eq: "byteOf c div 16 = byteOf d div 16" "byteOf c mod 16 = byteOf d mod 16"
      and rest: "hexEncode s = hexEncode t'"
      using Cons.prems t by (auto simp: hexEncode_def hexDigit_inj dm)
    have "byteOf c = byteOf d" using eq by (metis div_mult_mod_eq)
    with Cons.IH [OF rest] t show ?case by (simp add: byteOf_inject)
  qed
qed simp

lemma length_hexEncode: "length (hexEncode s) = 2 * length s"
  by (induction s) (auto simp: hexEncode_def)

lemma hexNat_nonempty: "hexNat n \<noteq> []"
  by (subst hexNat.simps) simp

lemma bigText16_nonempty: "bigText16 i \<noteq> []"
  by (simp add: bigText16_def hexNat_nonempty)

end
