(* ===== verification/Go_Encoding.thy ===== *)
theory Go_Encoding
  imports Go_X509
begin

text \<open>
  Text encodings: decimal numbers, \<open>base64.StdEncoding\<close>, \<open>Duration.String\<close>, PEM blocks
  without headers, and the helpers \<open>base64Lines\<close> and \<open>stripASCIIWhitespace\<close> of
  \<open>src/internal/est/handler.go\<close>. What \<open>base64Lines\<close> writes is read back by stripping the white
  space and decoding, which is how the handler reads a request body.
\<close>

section \<open>Decimal numbers\<close>

fun natString :: "nat \<Rightarrow> string" where
  "natString n = (if n < 10 then [hexDigit n] else natString (n div 10) @ [hexDigit (n mod 10)])"

declare natString.simps [simp del]

definition intString :: "int \<Rightarrow> string" where
  "intString i = (if i < 0 then CHR ''-'' # natString (nat (- i)) else natString (nat i))"

section \<open>Base64\<close>

definition b64char :: "nat \<Rightarrow> char" where
  "b64char n = (if n < 26 then char_of (65 + n) else if n < 52 then char_of (71 + n)
     else if n < 62 then char_of (n - 4) else if n = 62 then CHR ''+'' else CHR ''/'')"

definition b64val :: "char \<Rightarrow> nat option" where
  "b64val c = (let b = byteOf c in
     if 65 \<le> b \<and> b \<le> 90 then Some (b - 65) else if 97 \<le> b \<and> b \<le> 122 then Some (b - 71)
     else if 48 \<le> b \<and> b \<le> 57 then Some (b + 4) else if b = 43 then Some 62
     else if b = 47 then Some 63 else None)"

fun b64encode :: "string \<Rightarrow> string" where
  "b64encode [] = []"
| "b64encode [a] = [b64char (byteOf a div 4), b64char ((byteOf a mod 4) * 16), CHR ''='', CHR ''='']"
| "b64encode [a, b] = [b64char (byteOf a div 4), b64char ((byteOf a mod 4) * 16 + byteOf b div 16),
     b64char ((byteOf b mod 16) * 4), CHR ''='']"
| "b64encode (a # b # c # s) =
     b64char (byteOf a div 4) # b64char ((byteOf a mod 4) * 16 + byteOf b div 16)
     # b64char ((byteOf b mod 16) * 4 + byteOf c div 64) # b64char (byteOf c mod 64) # b64encode s"

text \<open>The bytes of a group of two, three or four digits; digits outside the alphabet are an error.\<close>

definition b64two :: "char \<Rightarrow> char \<Rightarrow> string option" where
  "b64two a b = (case (b64val a, b64val b) of
     (Some x, Some y) \<Rightarrow> Some [char_of (x * 4 + y div 16)] | _ \<Rightarrow> None)"

definition b64three :: "char \<Rightarrow> char \<Rightarrow> char \<Rightarrow> string option" where
  "b64three a b c = (case (b64val a, b64val b, b64val c) of
     (Some x, Some y, Some z) \<Rightarrow> Some [char_of (x * 4 + y div 16), char_of ((y mod 16) * 16 + z div 4)]
   | _ \<Rightarrow> None)"

definition b64four :: "char \<Rightarrow> char \<Rightarrow> char \<Rightarrow> char \<Rightarrow> string option" where
  "b64four a b c d = (case (b64val a, b64val b, b64val c, b64val d) of
     (Some x, Some y, Some z, Some u) \<Rightarrow>
       Some [char_of (x * 4 + y div 16), char_of ((y mod 16) * 16 + z div 4), char_of ((z mod 4) * 64 + u)]
   | _ \<Rightarrow> None)"

fun b64groups :: "string \<Rightarrow> string option" where
  "b64groups [] = Some []"
| "b64groups (a # b # c # d # s) =
    (if d = CHR ''='' then
       (if s \<noteq> [] then None else if c = CHR ''='' then b64two a b else b64three a b c)
     else
       (case b64four a b c d of
          None \<Rightarrow> None
        | Some x \<Rightarrow> (case b64groups s of None \<Rightarrow> None | Some y \<Rightarrow> Some (x @ y))))"
| "b64groups _ = None"

text \<open>\<open>StdEncoding.DecodeString\<close>: line breaks are skipped wherever they stand.\<close>

definition b64decode :: "string \<Rightarrow> string option" where
  "b64decode s = b64groups (filter (\<lambda>c. byteOf c \<noteq> 10 \<and> byteOf c \<noteq> 13) s)"

section \<open>Wrapped base64\<close>

definition lineFeed :: char where "lineFeed = char_of (10::nat)"

function wrap64cols :: "string \<Rightarrow> string" where
  "wrap64cols enc = (if length enc > 64 then take 64 enc @ lineFeed # wrap64cols (drop 64 enc)
     else enc @ [lineFeed])"
  by pat_completeness auto
termination by (relation "measure length") auto

declare wrap64cols.simps [simp del]

definition base64Lines :: "string \<Rightarrow> string" where
  "base64Lines der = wrap64cols (b64encode der)"

definition isASCIIWhitespace :: "char \<Rightarrow> bool" where
  "isASCIIWhitespace c = (c = CHR '' '' \<or> byteOf c = 9 \<or> byteOf c = 13 \<or> byteOf c = 10)"

definition stripASCIIWhitespace :: "string \<Rightarrow> string" where
  "stripASCIIWhitespace b = filter (\<lambda>c. \<not> isASCIIWhitespace c) b"

text \<open>
  \<open>pem.EncodeToMemory\<close> of a block without headers: the label, the bytes in base64 with at most
  64 columns, each line ended, and the closing line.
\<close>

definition pemLines :: "string \<Rightarrow> string" where
  "pemLines bytes = (if bytes = [] then [] else base64Lines bytes)"

definition pemEncode :: "string \<Rightarrow> string \<Rightarrow> string" where
  "pemEncode label bytes = ''-----BEGIN '' @ label @ ''-----'' @ [lineFeed] @ pemLines bytes
     @ ''-----END '' @ label @ ''-----'' @ [lineFeed]"

section \<open>Durations as text\<close>

text \<open>
  \<open>Duration.String\<close>: below a second in the largest unit that fits, else hours, minutes and
  seconds. A fraction drops its trailing zeros, and its point with them.
\<close>

fun fracDigits :: "nat \<Rightarrow> nat \<Rightarrow> string" where
  "fracDigits 0 v = []"
| "fracDigits (Suc prec) v =
    (let rest = fracDigits prec (v div 10); d = v mod 10 in rest @ [hexDigit d])"

definition dropTrailingZeros :: "string \<Rightarrow> string" where
  "dropTrailingZeros s = rev (dropWhile (\<lambda>c. c = CHR ''0'') (rev s))"

definition fmtFrac :: "nat \<Rightarrow> nat \<Rightarrow> string" where
  "fmtFrac prec v = (let f = dropTrailingZeros (fracDigits prec (v mod 10 ^ prec))
     in if f = [] then [] else CHR ''.'' # f)"

definition durUnits :: "nat \<Rightarrow> nat \<Rightarrow> string \<Rightarrow> string" where
  "durUnits prec u unit = natString (u div 10 ^ prec) @ fmtFrac prec u @ unit"

definition durString :: "duration \<Rightarrow> string" where
  "durString d =
    (let u = nat \<bar>d\<bar>;
         sign = (if d < 0 then ''-'' else [])
     in if u = 0 then ''0s''
        else if u < 1000 then sign @ durUnits 0 u ''ns''
        else if u < 1000000 then sign @ durUnits 3 u [char_of (194::nat), char_of (181::nat), CHR ''s'']
        else if u < 1000000000 then sign @ durUnits 6 u ''ms''
        else
          (let secs = u div 1000000000;
               s = natString (secs mod 60) @ fmtFrac 9 u @ ''s'';
               mins = secs div 60;
               m = (if mins > 0 then natString (mins mod 60) @ ''m'' else []);
               hours = mins div 60;
               h = (if hours > 0 then natString hours @ ''h'' else [])
           in sign @ h @ m @ s))"

section \<open>Lemmas\<close>

lemma b64val_char: "n < 64 \<Longrightarrow> b64val (b64char n) = Some n"
  by (auto simp: b64val_def b64char_def byteOf_def Let_def)

lemma b64char_byte: "n < 64 \<Longrightarrow> byteOf (b64char n) \<in> {43, 47} \<union> {48..57} \<union> {65..90} \<union> {97..122}"
  by (auto simp: b64char_def byteOf_def)

lemma b64char_not_pad: "n < 64 \<Longrightarrow> b64char n \<noteq> CHR ''=''"
  using b64char_byte [of n] by (auto simp: byteOf_def)

lemma sextet_less:
  "byteOf a div 4 < 64" "(byteOf a mod 4) * 16 < 64" "(byteOf a mod 4) * 16 + byteOf b div 16 < 64"
  "(byteOf b mod 16) * 4 < 64" "(byteOf b mod 16) * 4 + byteOf c div 64 < 64" "byteOf c mod 64 < 64"
  using byteOf_less [of a] byteOf_less [of b] byteOf_less [of c] by linarith+

lemma byte_split:
  "char_of (byteOf a div 4 * 4 + ((byteOf a mod 4) * 16 + byteOf b div 16) div 16) = a"
  "char_of (((byteOf a mod 4) * 16 + byteOf b div 16) mod 16 * 16 + ((byteOf b mod 16) * 4 + byteOf c div 64) div 4) = b"
  "char_of (((byteOf b mod 16) * 4 + byteOf c div 64) mod 4 * 64 + byteOf c mod 64) = c"
  "char_of (byteOf a div 4 * 4 + ((byteOf a mod 4) * 16) div 16) = a"
  "char_of (((byteOf a mod 4) * 16 + byteOf b div 16) mod 16 * 16 + ((byteOf b mod 16) * 4) div 4) = b"
proof -
  have less: "byteOf x div 16 < 16" "byteOf x div 64 < 4" for x
    using byteOf_less [of x] by linarith+
  have char: "char_of (byteOf x) = x" for x by (simp add: byteOf_def)
  have "byteOf a div 4 * 4 + ((byteOf a mod 4) * 16 + byteOf b div 16) div 16 = byteOf a"
    "((byteOf a mod 4) * 16 + byteOf b div 16) mod 16 * 16 + ((byteOf b mod 16) * 4 + byteOf c div 64) div 4 = byteOf b"
    "((byteOf b mod 16) * 4 + byteOf c div 64) mod 4 * 64 + byteOf c mod 64 = byteOf c"
    "byteOf a div 4 * 4 + ((byteOf a mod 4) * 16) div 16 = byteOf a"
    "((byteOf a mod 4) * 16 + byteOf b div 16) mod 16 * 16 + ((byteOf b mod 16) * 4) div 4 = byteOf b"
    using less [of b] less [of c] by (simp_all add: mod_mult_self3 div_mult_self3)
  then show
    "char_of (byteOf a div 4 * 4 + ((byteOf a mod 4) * 16 + byteOf b div 16) div 16) = a"
    "char_of (((byteOf a mod 4) * 16 + byteOf b div 16) mod 16 * 16 + ((byteOf b mod 16) * 4 + byteOf c div 64) div 4) = b"
    "char_of (((byteOf b mod 16) * 4 + byteOf c div 64) mod 4 * 64 + byteOf c mod 64) = c"
    "char_of (byteOf a div 4 * 4 + ((byteOf a mod 4) * 16) div 16) = a"
    "char_of (((byteOf a mod 4) * 16 + byteOf b div 16) mod 16 * 16 + ((byteOf b mod 16) * 4) div 4) = b"
    by (simp_all only: char)
qed

lemma b64_groups:
  "b64two (b64char (byteOf a div 4)) (b64char ((byteOf a mod 4) * 16)) = Some [a]"
  "b64three (b64char (byteOf a div 4)) (b64char ((byteOf a mod 4) * 16 + byteOf b div 16))
     (b64char ((byteOf b mod 16) * 4)) = Some [a, b]"
  "b64four (b64char (byteOf a div 4)) (b64char ((byteOf a mod 4) * 16 + byteOf b div 16))
     (b64char ((byteOf b mod 16) * 4 + byteOf c div 64)) (b64char (byteOf c mod 64)) = Some [a, b, c]"
  unfolding b64two_def b64three_def b64four_def b64val_char [OF sextet_less(1)] b64val_char [OF sextet_less(2)]
    b64val_char [OF sextet_less(3)] b64val_char [OF sextet_less(4)] b64val_char [OF sextet_less(5)]
    b64val_char [OF sextet_less(6)] prod.case option.case byte_split
  by (rule refl)+

lemma b64groups_encode: "b64groups (b64encode s) = Some s"
proof (induction s rule: b64encode.induct)
  case (4 a b c s)
  then show ?case
    by (simp only: b64encode.simps b64groups.simps b64_groups b64char_not_pad [OF sextet_less(6)] if_False
        option.case append.simps)
qed (simp_all only: b64encode.simps b64groups.simps b64_groups b64char_not_pad [OF sextet_less(4)]
    if_True if_False not_True_eq_False simp_thms)

lemma b64encode_digits: "set (b64encode s) \<subseteq> insert (CHR ''='') (b64char ` {..<64})"
  by (induction s rule: b64encode.induct)
    (simp_all only: b64encode.simps list.set insert_subset subset_insertI2 empty_subsetI
      insert_iff image_eqI [OF refl] sextet_less lessThan_iff simp_thms)

lemma b64encode_byte:
  assumes "c \<in> set (b64encode s)"
  shows "byteOf c \<in> {43, 47, 61} \<union> {48..57} \<union> {65..90} \<union> {97..122}"
proof -
  consider "c = CHR ''=''" | n where "n < 64" "c = b64char n"
    using assms b64encode_digits [of s] by auto
  then show ?thesis
  proof cases
    case 1
    then show ?thesis by (simp add: byteOf_def)
  next
    case (2 n)
    then show ?thesis using b64char_byte [of n] by auto
  qed
qed

lemma strip_wrap: "stripASCIIWhitespace (wrap64cols s) = stripASCIIWhitespace s"
proof (induction s rule: wrap64cols.induct)
  case (1 enc)
  have lf: "isASCIIWhitespace lineFeed" by (simp add: isASCIIWhitespace_def lineFeed_def byteOf_def)
  have "stripASCIIWhitespace (take 64 enc) @ stripASCIIWhitespace (drop 64 enc) = stripASCIIWhitespace enc"
    unfolding stripASCIIWhitespace_def filter_append [symmetric] by simp
  with 1 lf show ?case by (subst wrap64cols.simps) (simp add: stripASCIIWhitespace_def)
qed

lemma strip_encode: "stripASCIIWhitespace (b64encode s) = b64encode s"
proof -
  have "\<not> isASCIIWhitespace c" if "c \<in> set (b64encode s)" for c
    using b64encode_byte [OF that] by (auto simp: isASCIIWhitespace_def byteOf_def)
  then show ?thesis by (simp add: stripASCIIWhitespace_def)
qed

lemma base64Lines_strip: "stripASCIIWhitespace (base64Lines der) = b64encode der"
  by (simp add: base64Lines_def strip_wrap strip_encode)

lemma b64decode_encode: "b64decode (b64encode s) = Some s"
proof -
  have "byteOf c \<noteq> 10 \<and> byteOf c \<noteq> 13" if "c \<in> set (b64encode s)" for c
    using b64encode_byte [OF that] by auto
  then have "filter (\<lambda>c. byteOf c \<noteq> 10 \<and> byteOf c \<noteq> 13) (b64encode s) = b64encode s" by simp
  then show ?thesis by (simp add: b64decode_def b64groups_encode)
qed

end
