(* ===== verification/Go_Http.thy ===== *)
theory Go_Http
  imports Go_Encoding
begin

text \<open>
  HTTP as the handlers see it, and the functions of \<open>crypto/x509\<close>, \<open>encoding/asn1\<close> and
  \<open>encoding/pem\<close> they call, as the record \<open>x509lib\<close>. Its fields are parameters of the model:
  nothing is assumed of them but what a theorem names.

  A body is the bytes the peer delivers and, where the connection fails after them, the error of
  the read. A query and a header are functions from names to values, as \<open>Query().Get\<close> and
  \<open>Header.Get\<close> read them.
\<close>

section \<open>Requests and responses\<close>

record http_request =
  hq_Method :: string
  hq_Path :: string
  hq_Query :: "string \<Rightarrow> string"
  hq_Header :: "string \<Rightarrow> string"
  hq_Body :: string
  hq_BodyErr :: "string option"
  hq_RemoteAddr :: string
  hq_PeerCertificates :: "certificate list option"

record http_response =
  hr_Status :: nat
  hr_Header :: "(string \<times> string) list"
  hr_Body :: string

definition StatusOK :: nat where "StatusOK = 200"
definition StatusNoContent :: nat where "StatusNoContent = 204"
definition StatusBadRequest :: nat where "StatusBadRequest = 400"
definition StatusForbidden :: nat where "StatusForbidden = 403"
definition StatusNotFound :: nat where "StatusNotFound = 404"
definition StatusMethodNotAllowed :: nat where "StatusMethodNotAllowed = 405"
definition StatusRequestEntityTooLarge :: nat where "StatusRequestEntityTooLarge = 413"
definition StatusInternalServerError :: nat where "StatusInternalServerError = 500"
definition StatusBadGateway :: nat where "StatusBadGateway = 502"
definition StatusServiceUnavailable :: nat where "StatusServiceUnavailable = 503"

lemmas status_defs = StatusOK_def StatusNoContent_def StatusBadRequest_def StatusForbidden_def
  StatusNotFound_def StatusMethodNotAllowed_def StatusRequestEntityTooLarge_def
  StatusInternalServerError_def StatusBadGateway_def StatusServiceUnavailable_def

text \<open>\<open>http.Error\<close>: a plain-text message, one line.\<close>

definition httpError :: "string \<Rightarrow> nat \<Rightarrow> http_response" where
  "httpError msg status = \<lparr>hr_Status = status,
     hr_Header = [(''Content-Type'', ''text/plain; charset=utf-8''), (''X-Content-Type-Options'', ''nosniff'')],
     hr_Body = msg @ [lineFeed]\<rparr>"

definition httpNotFound :: http_response where
  "httpNotFound = httpError ''404 page not found'' StatusNotFound"

text \<open>
  \<open>io.ReadAll (io.LimitReader (r.Body, n))\<close>: at most \<open>n\<close> bytes; an error of the connection
  shows only when the limit was not reached before it.
\<close>

definition readLimited :: "http_request \<Rightarrow> nat \<Rightarrow> (string, string) result" where
  "readLimited r n =
    (if length (hq_Body r) \<ge> n then Ok (take n (hq_Body r))
     else (case hq_BodyErr r of Some e \<Rightarrow> Err e | None \<Rightarrow> Ok (hq_Body r)))"

section \<open>Parsing and verification\<close>

type_synonym certPool = "certificate list"

record pemBlock =
  pb_Type :: string
  pb_Bytes :: string

text \<open>
  \<open>xl_parseCSR\<close>, \<open>xl_parseCert\<close>: \<open>x509.ParseCertificateRequest\<close>, \<open>x509.ParseCertificate\<close>.
  \<open>xl_checkSig\<close>: \<open>CertificateRequest.CheckSignature\<close>, an error or none.
  \<open>xl_verify\<close>: \<open>Certificate.Verify\<close> of a leaf with the given roots and intermediates, for client
  authentication; it is one function, so that the passing of time between two requests does not
  change its answer. \<open>xl_tbsAttributes\<close>: \<open>asn1.Unmarshal\<close> of a CertificationRequestInfo, as the
  pairs of attribute type and value bytes. \<open>xl_rawValue\<close>: \<open>asn1.Unmarshal\<close> into a raw value, as
  its content. \<open>xl_pemDecode\<close>: \<open>pem.Decode\<close>.
\<close>

record x509lib =
  xl_parseCSR :: "string \<Rightarrow> (string, certRequest) result"
  xl_checkSig :: "certRequest \<Rightarrow> string option"
  xl_parseCert :: "string \<Rightarrow> (string, certificate) result"
  xl_verify :: "certificate \<Rightarrow> certPool \<Rightarrow> certificate list \<Rightarrow> string option"
  xl_tbsAttributes :: "string \<Rightarrow> (string, (nat list \<times> string) list) result"
  xl_rawValue :: "string \<Rightarrow> (string, string) result"
  xl_pemDecode :: "string \<Rightarrow> (pemBlock \<times> string) option"

section \<open>Lemmas\<close>

lemma readLimited_length: "readLimited r n = Ok body \<Longrightarrow> length body \<le> n"
  by (auto simp: readLimited_def split: if_splits option.splits)

text \<open>A body within the limit, of a connection that does not fail, is read whole.\<close>

lemma readLimited_whole:
  "length (hq_Body r) < n \<Longrightarrow> hq_BodyErr r = None \<Longrightarrow> readLimited r n = Ok (hq_Body r)"
  by (simp add: readLimited_def)

lemma httpError_status [simp]: "hr_Status (httpError msg status) = status"
  by (simp add: httpError_def)

end
