(* ===== verification/Broker_Config.thy ===== *)
theory Broker_Config
  imports Go_Http
begin

text \<open>
  \<open>src/internal/config/config.go\<close>: the configuration, its defaults, the validation at startup,
  and the resolution of what it refers to. YAML decoding, the file system, the environment and the
  loading of key pairs are the record \<open>osEnv\<close>, a parameter. A \<open>Duration\<close> is a number of
  nanoseconds; a floating-point rate is a real number.
\<close>

section \<open>The configuration\<close>

record cServer =
  sv_ListenAddr :: string
  sv_TLSCertFile :: string
  sv_TLSKeyFile :: string
  sv_ReadTimeout :: duration
  sv_WriteTimeout :: duration
  sv_ReadHeaderTimeout :: duration
  sv_IdleTimeout :: duration
  sv_MaxRequestBytes :: int
  sv_MaxHeaderBytes :: int
  sv_ShutdownTimeout :: duration
  sv_HealthAddr :: string

record cLimits =
  li_PerClientRate :: real
  li_PerClientBurst :: real
  li_GlobalRate :: real
  li_GlobalBurst :: real
  li_MaxConcurrent :: int
  li_AcquireTimeout :: duration
  li_MaxTrackedClients :: int
  li_UpstreamTimeout :: duration

record cAppRole =
  ar_MountPath :: string
  ar_RoleID :: string
  ar_SecretIDFile :: string
  ar_SecretIDEnv :: string
  ar_RenewThreshold :: duration

record cOpenBao =
  ob_Address :: string
  ob_Mount :: string
  ob_CACertFile :: string
  ob_MaxRetries :: int
  ob_AppRole :: cAppRole

record cTrust =
  tr_BootstrapCAFile :: string
  tr_DeviceCAFile :: string

record cRoleMap =
  rm_Default :: string
  rm_Rules :: "(string \<times> string) list"

record cPolicy =
  po_AllowedKeyTypes :: "string list"
  po_MaxValidity :: duration
  po_RequireCPP :: bool
  po_MinRSABits :: int
  po_MaxRSABits :: int
  po_ServerKeyGenKeyType :: string
  po_ServerKeyGenKeyBits :: int
  po_SANConstraint :: string
  po_AllowUnauthenticated :: bool

record cInventory =
  iv_Backend :: string
  iv_Path :: string

record cChallenge =
  ch_Backend :: string
  ch_StaticSecretEnv :: string

record cSCEP =
  sc_Enabled :: bool
  sc_ListenAddr :: string
  sc_RACertFile :: string
  sc_RAKeyFile :: string
  sc_AllowSHA1 :: bool
  sc_MaxRequestBytes :: int
  sc_ReplayTTL :: duration
  sc_ReplayMaxEntries :: int

record Config =
  cf_Server :: cServer
  cf_OpenBao :: cOpenBao
  cf_Trust :: cTrust
  cf_RoleMap :: cRoleMap
  cf_Policy :: cPolicy
  cf_Inventory :: cInventory
  cf_Challenge :: cChallenge
  cf_Limits :: cLimits
  cf_SCEP :: cSCEP
  cf_AuditPath :: string

definition Default :: Config where
  "Default = \<lparr>
     cf_Server = \<lparr>sv_ListenAddr = '':8443'', sv_TLSCertFile = '''', sv_TLSKeyFile = '''',
       sv_ReadTimeout = 15 * second, sv_WriteTimeout = 30 * second, sv_ReadHeaderTimeout = 10 * second,
       sv_IdleTimeout = 60 * second, sv_MaxRequestBytes = 0, sv_MaxHeaderBytes = 16 * 1024,
       sv_ShutdownTimeout = 10 * second, sv_HealthAddr = '':9090''\<rparr>,
     cf_OpenBao = \<lparr>ob_Address = '''', ob_Mount = ''pki_int'', ob_CACertFile = '''', ob_MaxRetries = 3,
       ob_AppRole = \<lparr>ar_MountPath = ''approle'', ar_RoleID = '''', ar_SecretIDFile = '''',
         ar_SecretIDEnv = ''OPENBAO_APPROLE_SECRET_ID'', ar_RenewThreshold = 5 * minute\<rparr>\<rparr>,
     cf_Trust = \<lparr>tr_BootstrapCAFile = '''', tr_DeviceCAFile = ''''\<rparr>,
     cf_RoleMap = \<lparr>rm_Default = '''', rm_Rules = []\<rparr>,
     cf_Policy = \<lparr>po_AllowedKeyTypes = [''rsa-2048'', ''rsa-3072'', ''rsa-4096'', ''ec-p256'', ''ec-p384''],
       po_MaxValidity = 90 * 24 * hour, po_RequireCPP = False, po_MinRSABits = 2048, po_MaxRSABits = 8192,
       po_ServerKeyGenKeyType = ''rsa'', po_ServerKeyGenKeyBits = 2048, po_SANConstraint = ''identity'',
       po_AllowUnauthenticated = False\<rparr>,
     cf_Inventory = \<lparr>iv_Backend = ''none'', iv_Path = ''''\<rparr>,
     cf_Challenge = \<lparr>ch_Backend = ''none'', ch_StaticSecretEnv = ''''\<rparr>,
     cf_Limits = \<lparr>li_PerClientRate = 1, li_PerClientBurst = 5, li_GlobalRate = 50, li_GlobalBurst = 100,
       li_MaxConcurrent = 32, li_AcquireTimeout = 5 * second, li_MaxTrackedClients = 65536,
       li_UpstreamTimeout = 20 * second\<rparr>,
     cf_SCEP = \<lparr>sc_Enabled = False, sc_ListenAddr = '':8080'', sc_RACertFile = '''', sc_RAKeyFile = '''',
       sc_AllowSHA1 = False, sc_MaxRequestBytes = 0, sc_ReplayTTL = 15 * minute, sc_ReplayMaxEntries = 100000\<rparr>,
     cf_AuditPath = ''''\<rparr>"

section \<open>Durations in YAML\<close>

text \<open>
  A scalar node decodes as a string, an \<open>int64\<close>, both or neither; \<open>parse\<close> is
  \<open>time.ParseDuration\<close>. Seconds become nanoseconds in 64 bits.
\<close>

record yamlNode =
  yn_string :: "string option"
  yn_int :: "int option"

definition Duration_Unmarshal :: "(string \<Rightarrow> duration option) \<Rightarrow> yamlNode \<Rightarrow> (string, duration) result" where
  "Duration_Unmarshal parse n =
    (case yn_string n of
       Some s \<Rightarrow>
         (case parse s of
            Some d \<Rightarrow> Ok d
          | None \<Rightarrow> (case yn_int n of Some secs \<Rightarrow> Ok (wrap64 (secs * second)) | None \<Rightarrow> Err (''invalid duration '' @ s)))
     | None \<Rightarrow>
         (case yn_int n of
            None \<Rightarrow> Err ''duration must be a string or integer seconds''
          | Some secs \<Rightarrow> Ok (wrap64 (secs * second))))"

section \<open>Validation\<close>

record osEnv =
  os_LookupEnv :: "string \<Rightarrow> string option"
  os_ReadFile :: "string \<Rightarrow> (string, string) result"
  os_AppendCerts :: "string \<Rightarrow> certPool option"
  os_LoadKeyPair :: "string \<Rightarrow> string \<Rightarrow> (string, string list \<times> string) result"
  os_IsRSAKey :: "string \<Rightarrow> bool"
  os_YamlDecode :: "string \<Rightarrow> Config \<Rightarrow> (string, Config) result"

datatype config_error =
    AddressRequired | MountRequired | RoleIDRequired | SecretIDSourceRequired | SecretIDEnvUnset string
  | TLSFilesRequired | TrustAnchorRequired | RoleMapEmpty | ChallengeBackendMissing string
  | RAFilesRequired | SCEPNeedsChallenge | RSABoundsCrossed int int | PerClientRateZero | GlobalRateZero
  | ReadConfig string | ParseConfig string string
  | SecretFileRead string | SecretFileEmpty string | SecretEnvEmpty string | CACertRead string
  | BootstrapCA config_error | DeviceCA config_error | PoolRead string | PoolNoCerts string
  | ServerKeyPair string | RAIdentity string | RACertificate string | RAKeyNotRSA

definition noBackend :: "string \<Rightarrow> bool" where
  "noBackend b = (b = '''' \<or> b = ''none'')"

definition validateSecretSource :: "osEnv \<Rightarrow> cAppRole \<Rightarrow> config_error option" where
  "validateSecretSource O' ar =
    (if ar_SecretIDFile ar \<noteq> '''' then None
     else if ar_SecretIDEnv ar = '''' then Some SecretIDSourceRequired
     else (case os_LookupEnv O' (ar_SecretIDEnv ar) of None \<Rightarrow> Some (SecretIDEnvUnset (ar_SecretIDEnv ar)) | Some _ \<Rightarrow> None))"

definition validateSCEP :: "Config \<Rightarrow> config_error option" where
  "validateSCEP c =
    (if \<not> sc_Enabled (cf_SCEP c) then None
     else if sc_RACertFile (cf_SCEP c) = '''' \<or> sc_RAKeyFile (cf_SCEP c) = '''' then Some RAFilesRequired
     else if noBackend (ch_Backend (cf_Challenge c)) \<and> \<not> po_AllowUnauthenticated (cf_Policy c) then Some SCEPNeedsChallenge
     else None)"

definition Validate :: "osEnv \<Rightarrow> Config \<Rightarrow> (config_error, unit) result" where
  "Validate O' c =
    (if ob_Address (cf_OpenBao c) = '''' then Err AddressRequired
     else if ob_Mount (cf_OpenBao c) = '''' then Err MountRequired
     else if ar_RoleID (ob_AppRole (cf_OpenBao c)) = '''' then Err RoleIDRequired
     else (case validateSecretSource O' (ob_AppRole (cf_OpenBao c)) of
        Some e \<Rightarrow> Err e
      | None \<Rightarrow>
         if sv_TLSCertFile (cf_Server c) = '''' \<or> sv_TLSKeyFile (cf_Server c) = '''' then Err TLSFilesRequired
         else if tr_BootstrapCAFile (cf_Trust c) = '''' \<and> tr_DeviceCAFile (cf_Trust c) = '''' then Err TrustAnchorRequired
         else if rm_Default (cf_RoleMap c) = '''' \<and> rm_Rules (cf_RoleMap c) = [] then Err RoleMapEmpty
         else if po_RequireCPP (cf_Policy c) \<and> noBackend (ch_Backend (cf_Challenge c))
           then Err (ChallengeBackendMissing (ch_Backend (cf_Challenge c)))
         else (case validateSCEP c of
            Some e \<Rightarrow> Err e
          | None \<Rightarrow>
             if po_MinRSABits (cf_Policy c) > 0 \<and> po_MaxRSABits (cf_Policy c) > 0
                \<and> po_MinRSABits (cf_Policy c) > po_MaxRSABits (cf_Policy c)
             then Err (RSABoundsCrossed (po_MinRSABits (cf_Policy c)) (po_MaxRSABits (cf_Policy c)))
             else if li_PerClientRate (cf_Limits c) = 0 then Err PerClientRateZero
             else if li_GlobalRate (cf_Limits c) = 0 then Err GlobalRateZero
             else Ok ())))"

definition Load :: "osEnv \<Rightarrow> string \<Rightarrow> (config_error, Config) result" where
  "Load O' path =
    (case os_ReadFile O' path of
       Inl err \<Rightarrow> Err (ReadConfig err)
     | Inr raw \<Rightarrow>
        (case os_YamlDecode O' raw Default of
           Inl err \<Rightarrow> Err (ParseConfig path err)
         | Inr c \<Rightarrow> (case Validate O' c of Inl e \<Rightarrow> Err e | Inr _ \<Rightarrow> Ok c)))"

section \<open>Resolution\<close>

definition ResolveSecretID :: "osEnv \<Rightarrow> Config \<Rightarrow> (config_error, string) result" where
  "ResolveSecretID O' c =
    (let path = ar_SecretIDFile (ob_AppRole (cf_OpenBao c)); env = ar_SecretIDEnv (ob_AppRole (cf_OpenBao c)) in
     if path \<noteq> '''' then
       (case os_ReadFile O' path of
          Inl err \<Rightarrow> Err (SecretFileRead err)
        | Inr raw \<Rightarrow> (let v = trimSpace raw in if v = '''' then Err (SecretFileEmpty path) else Ok v))
     else
       (case os_LookupEnv O' env of
          None \<Rightarrow> Err (SecretEnvEmpty env)
        | Some v \<Rightarrow> if v = '''' then Err (SecretEnvEmpty env) else Ok v))"

text \<open>A key pair is the DER certificates of its chain and the key.\<close>

definition ServerTLSCertificate :: "osEnv \<Rightarrow> Config \<Rightarrow> (config_error, string list \<times> string) result" where
  "ServerTLSCertificate O' c =
    (case os_LoadKeyPair O' (sv_TLSCertFile (cf_Server c)) (sv_TLSKeyFile (cf_Server c)) of
       Inl err \<Rightarrow> Err (ServerKeyPair err) | Inr pair \<Rightarrow> Ok pair)"

text \<open>No CA file is the empty bundle, for which the client uses the roots of the system.\<close>

definition OpenBaoCACert :: "osEnv \<Rightarrow> Config \<Rightarrow> (config_error, string) result" where
  "OpenBaoCACert O' c =
    (if ob_CACertFile (cf_OpenBao c) = '''' then Ok []
     else (case os_ReadFile O' (ob_CACertFile (cf_OpenBao c)) of Inl err \<Rightarrow> Err (CACertRead err) | Inr pem \<Rightarrow> Ok pem))"

definition poolFromFile :: "osEnv \<Rightarrow> string \<Rightarrow> (config_error, certPool) result" where
  "poolFromFile O' path =
    (case os_ReadFile O' path of
       Inl err \<Rightarrow> Err (PoolRead err)
     | Inr pem \<Rightarrow> (case os_AppendCerts O' pem of None \<Rightarrow> Err (PoolNoCerts path) | Some pool \<Rightarrow> Ok pool))"

definition optionalPool :: "osEnv \<Rightarrow> (config_error \<Rightarrow> config_error) \<Rightarrow> string \<Rightarrow> (config_error, certPool option) result" where
  "optionalPool O' wrap path =
    (if path = '''' then Ok None
     else (case poolFromFile O' path of Inl err \<Rightarrow> Err (wrap err) | Inr pool \<Rightarrow> Ok (Some pool)))"

definition TrustPools :: "osEnv \<Rightarrow> Config \<Rightarrow> (config_error, certPool option \<times> certPool option) result" where
  "TrustPools O' c =
    (case optionalPool O' BootstrapCA (tr_BootstrapCAFile (cf_Trust c)) of
       Inl err \<Rightarrow> Err err
     | Inr bootstrap \<Rightarrow>
        (case optionalPool O' DeviceCA (tr_DeviceCAFile (cf_Trust c)) of
           Inl err \<Rightarrow> Err err
         | Inr device \<Rightarrow> Ok (bootstrap, device)))"

text \<open>\<open>tls.LoadX509KeyPair\<close> never returns an empty chain, so the first certificate is there.\<close>

definition SCEPRAIdentity :: "osEnv \<Rightarrow> x509lib \<Rightarrow> Config \<Rightarrow> (config_error, certificate \<times> string) result" where
  "SCEPRAIdentity O' X c =
    (case os_LoadKeyPair O' (sc_RACertFile (cf_SCEP c)) (sc_RAKeyFile (cf_SCEP c)) of
       Inl err \<Rightarrow> Err (RAIdentity err)
     | Inr (ders, key) \<Rightarrow>
        (case xl_parseCert X (hd ders) of
           Inl err \<Rightarrow> Err (RACertificate err)
         | Inr leaf \<Rightarrow> if os_IsRSAKey O' key then Ok (leaf, key) else Err RAKeyNotRSA))"

section \<open>Lemmas\<close>

lemma Validate_Ok:
  assumes "Validate O' c = Ok ()"
  shows "po_RequireCPP (cf_Policy c) \<Longrightarrow> \<not> noBackend (ch_Backend (cf_Challenge c))"
    and "sc_Enabled (cf_SCEP c) \<Longrightarrow> \<not> noBackend (ch_Backend (cf_Challenge c)) \<or> po_AllowUnauthenticated (cf_Policy c)"
    and "tr_BootstrapCAFile (cf_Trust c) \<noteq> '''' \<or> tr_DeviceCAFile (cf_Trust c) \<noteq> ''''"
    and "li_PerClientRate (cf_Limits c) \<noteq> 0" "li_GlobalRate (cf_Limits c) \<noteq> 0"
  using assms by (auto simp: Validate_def validateSCEP_def split: option.splits if_splits)

lemma Load_Ok:
  assumes "Load O' path = Ok c"
  shows "Validate O' c = Ok ()"
  using assms by (auto simp: Load_def split: sum.splits)

end
