(* ===== verification/Cms.thy ===== *)
theory Cms
  imports Go_Http
begin

text \<open>
  \<open>src/internal/cms/cms.go\<close>: the wrapper around the third-party CMS library that enforces a
  digest allowlist, a single signer, and the difference between an intact signature and a trusted
  signer. The library is the record \<open>pkcs7lib\<close>, a parameter; a parsed message is a \<open>p7msg\<close> with
  the fields the wrapper reads. A private key is opaque bytes.
\<close>

type_synonym objectID = "nat list"

definition SHA1 :: objectID where "SHA1 = [1, 3, 14, 3, 2, 26]"
definition SHA256 :: objectID where "SHA256 = [2, 16, 840, 1, 101, 3, 4, 2, 1]"
definition SHA384 :: objectID where "SHA384 = [2, 16, 840, 1, 101, 3, 4, 2, 2]"
definition SHA512 :: objectID where "SHA512 = [2, 16, 840, 1, 101, 3, 4, 2, 3]"

definition DefaultDigests :: "objectID list" where "DefaultDigests = [SHA256, SHA384, SHA512]"

record p7msg =
  p7_Raw :: string
  p7_Content :: string
  p7_Signers :: "objectID list"

datatype attrValue = AttrString string | AttrBytes string

record pkcs7lib =
  pl_Parse :: "string \<Rightarrow> (string, p7msg) result"
  pl_Verify :: "p7msg \<Rightarrow> string option"
  pl_VerifyWithChain :: "p7msg \<Rightarrow> certPool \<Rightarrow> string option"
  pl_GetOnlySigner :: "p7msg \<Rightarrow> certificate option"
  pl_AttrString :: "p7msg \<Rightarrow> objectID \<Rightarrow> (string, string) result"
  pl_AttrBytes :: "p7msg \<Rightarrow> objectID \<Rightarrow> (string, string) result"
  pl_Decrypt :: "p7msg \<Rightarrow> certificate \<Rightarrow> string \<Rightarrow> (string, string) result"
  pl_Encrypt :: "string \<Rightarrow> certificate list \<Rightarrow> (string, string) result"
  pl_NewSignedData :: "string \<Rightarrow> (string, string) result"
  pl_SetDigest :: "objectID \<Rightarrow> string \<Rightarrow> string"
  pl_AddSigner :: "certificate \<Rightarrow> string \<Rightarrow> (objectID \<times> attrValue) list \<Rightarrow> string \<Rightarrow> (string, string) result"
  pl_Finish :: "string \<Rightarrow> (string, string) result"
  pl_Degenerate :: "string \<Rightarrow> (string, string) result"

datatype cms_error =
    EmptyMessage | ParseFailed string | NoSigners | SignerCount nat | DigestNotPermitted objectID
  | SignatureFailed string | ChainFailed string | NoTrustAnchor | NoSignerCertificate
  | EmptyEnvelope | ParseEnvelope string | DecryptionFailed | NoRecipient | EncryptFailed string
  | NoSigningCertificate | NewSignedDataFailed string | AddSignerFailed string | FinishFailed string
  | NoCertsToEncode | DegenerateFailed string

record Verifier =
  vf_Digests :: "objectID list"

record Signed =
  sg_Content :: string
  sg_Signer :: certificate
  sg_Chained :: bool
  sg_p7 :: p7msg

section \<open>Verification\<close>

definition checkDigest :: "Verifier \<Rightarrow> objectID \<Rightarrow> (cms_error, unit) result" where
  "checkDigest v alg =
    (let allowed = (if vf_Digests v = [] then DefaultDigests else vf_Digests v)
     in if alg \<in> set allowed then Ok () else Err (DigestNotPermitted alg))"

definition cms_parse :: "pkcs7lib \<Rightarrow> Verifier \<Rightarrow> string \<Rightarrow> (cms_error, p7msg) result" where
  "cms_parse L v der =
    (if der = [] then Err EmptyMessage
     else (case pl_Parse L der of
             Inl err \<Rightarrow> Err (ParseFailed err)
           | Inr p7 \<Rightarrow>
              (case p7_Signers p7 of
                 [] \<Rightarrow> Err NoSigners
               | [alg] \<Rightarrow> (case checkDigest v alg of Inl e \<Rightarrow> Err e | Inr _ \<Rightarrow> Ok p7)
               | _ \<Rightarrow> Err (SignerCount (length (p7_Signers p7))))))"

definition cms_signed :: "pkcs7lib \<Rightarrow> p7msg \<Rightarrow> bool \<Rightarrow> (cms_error, Signed) result" where
  "cms_signed L p7 chained =
    (case pl_GetOnlySigner L p7 of
       None \<Rightarrow> Err NoSignerCertificate
     | Some signer \<Rightarrow> Ok \<lparr>sg_Content = p7_Content p7, sg_Signer = signer, sg_Chained = chained, sg_p7 = p7\<rparr>)"

definition VerifySignature :: "pkcs7lib \<Rightarrow> Verifier \<Rightarrow> string \<Rightarrow> (cms_error, Signed) result" where
  "VerifySignature L v der =
    (case cms_parse L v der of
       Inl e \<Rightarrow> Err e
     | Inr p7 \<Rightarrow> (case pl_Verify L p7 of Some err \<Rightarrow> Err (SignatureFailed err) | None \<Rightarrow> cms_signed L p7 False))"

definition VerifyChain :: "pkcs7lib \<Rightarrow> Verifier \<Rightarrow> string \<Rightarrow> certPool option \<Rightarrow> (cms_error, Signed) result" where
  "VerifyChain L v der roots =
    (case roots of
       None \<Rightarrow> Err NoTrustAnchor
     | Some pool \<Rightarrow>
        (case cms_parse L v der of
           Inl e \<Rightarrow> Err e
         | Inr p7 \<Rightarrow> (case pl_VerifyWithChain L p7 pool of Some err \<Rightarrow> Err (ChainFailed err) | None \<Rightarrow> cms_signed L p7 True)))"

section \<open>Envelopes and signatures\<close>

definition cms_Decrypt :: "pkcs7lib \<Rightarrow> string \<Rightarrow> certificate \<Rightarrow> string \<Rightarrow> (cms_error, string) result" where
  "cms_Decrypt L der cert key =
    (if der = [] then Err EmptyEnvelope
     else (case pl_Parse L der of
             Inl err \<Rightarrow> Err (ParseEnvelope err)
           | Inr p7 \<Rightarrow> (case pl_Decrypt L p7 cert key of Inl _ \<Rightarrow> Err DecryptionFailed | Inr content \<Rightarrow> Ok content)))"

definition cms_Encrypt :: "pkcs7lib \<Rightarrow> string \<Rightarrow> certificate option \<Rightarrow> (cms_error, string) result" where
  "cms_Encrypt L content recipient =
    (case recipient of
       None \<Rightarrow> Err NoRecipient
     | Some c \<Rightarrow> (case pl_Encrypt L content [c] of Inl err \<Rightarrow> Err (EncryptFailed err) | Inr der \<Rightarrow> Ok der))"

record cms_SignOptions =
  cs_Attributes :: "(objectID \<times> attrValue) list"
  cs_Digest :: "objectID option"

definition cms_Sign :: "pkcs7lib \<Rightarrow> string \<Rightarrow> certificate option \<Rightarrow> string \<Rightarrow> cms_SignOptions \<Rightarrow> (cms_error, string) result" where
  "cms_Sign L content cert key opts =
    (case cert of
       None \<Rightarrow> Err NoSigningCertificate
     | Some c \<Rightarrow>
        (case pl_NewSignedData L content of
           Inl err \<Rightarrow> Err (NewSignedDataFailed err)
         | Inr sd \<Rightarrow>
            (let digest = (case cs_Digest opts of None \<Rightarrow> SHA256 | Some d \<Rightarrow> d)
             in case pl_AddSigner L c key (cs_Attributes opts) (pl_SetDigest L digest sd) of
                  Inl err \<Rightarrow> Err (AddSignerFailed err)
                | Inr sd' \<Rightarrow> (case pl_Finish L sd' of Inl err \<Rightarrow> Err (FinishFailed err) | Inr der \<Rightarrow> Ok der))))"

definition cms_DegenerateCertsOnly :: "pkcs7lib \<Rightarrow> certificate list \<Rightarrow> (cms_error, string) result" where
  "cms_DegenerateCertsOnly L certs =
    (if certs = [] then Err NoCertsToEncode
     else (case pl_Degenerate L (concat (map crt_Raw certs)) of Inl err \<Rightarrow> Err (DegenerateFailed err) | Inr out \<Rightarrow> Ok out))"

section \<open>Lemmas\<close>

lemma cms_parse_Ok:
  "cms_parse L v der = Ok p7 \<longleftrightarrow>
     der \<noteq> [] \<and> pl_Parse L der = Ok p7 \<and>
     (\<exists>alg. p7_Signers p7 = [alg] \<and> alg \<in> set (if vf_Digests v = [] then DefaultDigests else vf_Digests v))"
  by (auto simp: cms_parse_def checkDigest_def Let_def split: sum.splits list.splits if_splits)

lemma VerifySignature_Ok:
  assumes "VerifySignature L v der = Ok sg"
  shows "\<not> sg_Chained sg \<and> cms_parse L v der = Ok (sg_p7 sg) \<and> pl_Verify L (sg_p7 sg) = None \<and>
    pl_GetOnlySigner L (sg_p7 sg) = Some (sg_Signer sg) \<and> sg_Content sg = p7_Content (sg_p7 sg)"
  using assms by (auto simp: VerifySignature_def cms_signed_def split: sum.splits option.splits)

lemma VerifyChain_Ok:
  assumes "VerifyChain L v der roots = Ok sg"
  shows "sg_Chained sg \<and> cms_parse L v der = Ok (sg_p7 sg) \<and>
    (\<exists>pool. roots = Some pool \<and> pl_VerifyWithChain L (sg_p7 sg) pool = None) \<and>
    pl_GetOnlySigner L (sg_p7 sg) = Some (sg_Signer sg) \<and> sg_Content sg = p7_Content (sg_p7 sg)"
  using assms by (auto simp: VerifyChain_def cms_signed_def split: sum.splits option.splits)

end
