(* ===== verification/Scep_Replay.thy ===== *)
theory Scep_Replay
  imports Go_X509
begin

text \<open>
  The replay cache of SCEP, \<open>src/internal/scep/replay.go\<close>: the table of message keys with their
  expiry times, \<open>Check\<close> and the eviction. \<open>Check\<close> runs under the mutex, so a history of the
  cache is a sequence of calls; the clock is an argument of each. The hash is the library's SHA-256.
\<close>

definition DefaultReplayTTL :: duration where "DefaultReplayTTL = 15 * minute"
definition DefaultReplayMaxEntries :: int where "DefaultReplayMaxEntries = 100000"

record ReplayCache =
  rc_seen :: "(string, time) gomap"
  rc_ttl :: duration
  rc_maxSize :: int

definition NewReplayCache :: "duration \<Rightarrow> int \<Rightarrow> ReplayCache" where
  "NewReplayCache ttl maxSize =
    \<lparr>rc_seen = gm_empty,
     rc_ttl = (if ttl \<le> 0 then DefaultReplayTTL else ttl),
     rc_maxSize = (if maxSize \<le> 0 then DefaultReplayMaxEntries else maxSize)\<rparr>"

text \<open>The input of the hash: the identifier, a zero byte, the nonce.\<close>

definition replayPreimage :: "string \<Rightarrow> string \<Rightarrow> string" where
  "replayPreimage txID nonce = txID @ [char_of (0::nat)] @ nonce"

definition replayKey :: "golib \<Rightarrow> string \<Rightarrow> string \<Rightarrow> string" where
  "replayKey G txID nonce = hexEncode (lib_sha256 G (replayPreimage txID nonce))"

text \<open>
  \<open>evictLocked\<close>: the loop deletes the keys whose entry has expired (each deletion concerns the key
  just visited, so the order of the iteration does not matter); a table that is still full is
  cleared.
\<close>

definition expiredKeys :: "time \<Rightarrow> (string, time) gomap \<Rightarrow> string list" where
  "expiredKeys now m = filter (\<lambda>k. case gm_get m k of None \<Rightarrow> False | Some expiry \<Rightarrow> \<not> now < expiry) (gm_keys m)"

definition replayEvict :: "time \<Rightarrow> ReplayCache \<Rightarrow> ReplayCache" where
  "replayEvict now c =
    (let m = fold gm_del (expiredKeys now (rc_seen c)) (rc_seen c)
     in c\<lparr>rc_seen := (if int (gm_len m) \<ge> rc_maxSize c then gm_empty else m)\<rparr>)"

definition unexpired :: "time \<Rightarrow> string \<Rightarrow> ReplayCache \<Rightarrow> bool" where
  "unexpired now key c = (case gm_get (rc_seen c) key of None \<Rightarrow> False | Some expiry \<Rightarrow> now < expiry)"

definition replayCheckKey :: "time \<Rightarrow> string \<Rightarrow> ReplayCache \<Rightarrow> bool \<times> ReplayCache" where
  "replayCheckKey now key c =
    (if unexpired now key c then (False, c)
     else
       (let c1 = (if int (gm_len (rc_seen c)) \<ge> rc_maxSize c then replayEvict now c else c)
        in (True, c1\<lparr>rc_seen := gm_put key (now + rc_ttl c1) (rc_seen c1)\<rparr>)))"

definition ReplayCache_Check :: "golib \<Rightarrow> time \<Rightarrow> string \<Rightarrow> string \<Rightarrow> ReplayCache \<Rightarrow> bool \<times> ReplayCache" where
  "ReplayCache_Check G now txID nonce c = replayCheckKey now (replayKey G txID nonce) c"

definition ReplayCache_Size :: "ReplayCache \<Rightarrow> nat" where
  "ReplayCache_Size c = gm_len (rc_seen c)"

section \<open>Lemmas\<close>

definition replay_ok :: "ReplayCache \<Rightarrow> bool" where
  "replay_ok c = (gm_ok (rc_seen c) \<and> 1 \<le> rc_maxSize c \<and> 0 < rc_ttl c)"

lemma NewReplayCache_ok: "replay_ok (NewReplayCache ttl maxSize)"
  by (simp add: replay_ok_def NewReplayCache_def DefaultReplayTTL_def DefaultReplayMaxEntries_def
      minute_def go_map_simps)

lemma replayEvict_get:
  assumes "gm_ok (rc_seen c)"
  shows "gm_ok (rc_seen (replayEvict now c))"
    and "gm_get (rc_seen (replayEvict now c)) k = Some e \<Longrightarrow> gm_get (rc_seen c) k = Some e \<and> now < e"
  using assms
  by (auto simp: replayEvict_def Let_def gm.ok_emp gm.get_emp gm.ok_del_all gm.get_del_all expiredKeys_def
      gm_get_keys [symmetric] split: if_splits option.splits)

lemma replayEvict_room:
  assumes "1 \<le> rc_maxSize c"
  shows "int (gm_len (rc_seen (replayEvict now c))) < rc_maxSize c"
  using assms by (simp add: replayEvict_def Let_def gm.len_emp)

lemma replayEvict_fields [simp]:
  "rc_ttl (replayEvict now c) = rc_ttl c" "rc_maxSize (replayEvict now c) = rc_maxSize c"
  by (simp_all add: replayEvict_def Let_def)

lemma replayCheck_fields [simp]:
  "rc_ttl (snd (replayCheckKey now key c)) = rc_ttl c"
  "rc_maxSize (snd (replayCheckKey now key c)) = rc_maxSize c"
  by (simp_all add: replayCheckKey_def Let_def)

lemma replayCheck_ok: "replay_ok c \<Longrightarrow> replay_ok (snd (replayCheckKey now key c))"
  by (auto simp: replay_ok_def replayCheckKey_def Let_def gm.ok_put replayEvict_get)

lemma replayCheck_bounded:
  assumes "replay_ok c" "int (gm_len (rc_seen c)) \<le> rc_maxSize c"
  shows "int (gm_len (rc_seen (snd (replayCheckKey now key c)))) \<le> rc_maxSize c"
proof -
  define c1 where "c1 = (if int (gm_len (rc_seen c)) \<ge> rc_maxSize c then replayEvict now c else c)"
  have "int (gm_len (rc_seen c1)) < rc_maxSize c" "gm_ok (rc_seen c1)"
    using assms replayEvict_room [of c now] replayEvict_get(1) [of c now] by (auto simp: c1_def replay_ok_def)
  then have "int (gm_len (gm_put key (now + rc_ttl c) (rc_seen c1))) \<le> rc_maxSize c"
    by (simp add: gm.len_put)
  moreover have "rc_ttl c1 = rc_ttl c" by (simp add: c1_def)
  ultimately show ?thesis
    using assms(2) unfolding replayCheckKey_def c1_def [symmetric] Let_def by simp
qed

text \<open>While the table has room, an entry survives every call, and the table grows by one at most.\<close>

lemma replayCheck_keeps:
  assumes "replay_ok c" "int (gm_len (rc_seen c)) < rc_maxSize c" "unexpired t key c" "now \<le> t"
  shows "unexpired t key (snd (replayCheckKey now j c))"
    and "gm_len (rc_seen (snd (replayCheckKey now j c))) \<le> Suc (gm_len (rc_seen c))"
  using assms gm.len_put_le [of "rc_seen c" j "now + rc_ttl c"]
  by (auto simp: replayCheckKey_def unexpired_def replay_ok_def gm.get_put split: option.splits if_splits)

fun replayRun :: "golib \<Rightarrow> (time \<times> string \<times> string) list \<Rightarrow> ReplayCache \<Rightarrow> ReplayCache" where
  "replayRun G [] c = c"
| "replayRun G ((now, txID, nonce) # cs) c = replayRun G cs (snd (ReplayCache_Check G now txID nonce c))"

lemma replayRun_ok:
  "replay_ok c \<Longrightarrow> int (gm_len (rc_seen c)) \<le> rc_maxSize c \<Longrightarrow>
     replay_ok (replayRun G cs c) \<and> int (gm_len (rc_seen (replayRun G cs c))) \<le> rc_maxSize c
     \<and> rc_maxSize (replayRun G cs c) = rc_maxSize c \<and> rc_ttl (replayRun G cs c) = rc_ttl c"
proof (induction cs arbitrary: c)
  case (Cons x cs)
  obtain now tx nonce where x: "x = (now, tx, nonce)" by (cases x)
  with Cons.IH [of "snd (ReplayCache_Check G now tx nonce c)"] Cons.prems show ?case
    by (simp add: ReplayCache_Check_def replayCheck_ok replayCheck_bounded)
qed simp

lemma replayRun_keeps:
  "replay_ok c \<Longrightarrow> int (gm_len (rc_seen c) + length cs) \<le> rc_maxSize c \<Longrightarrow> unexpired t key c \<Longrightarrow>
   \<forall>x\<in>set cs. fst x \<le> t \<Longrightarrow> unexpired t key (replayRun G cs c)"
proof (induction cs arbitrary: c)
  case (Cons x cs)
  obtain now tx nonce where x: "x = (now, tx, nonce)" by (cases x)
  define c1 where "c1 = snd (replayCheckKey now (replayKey G tx nonce) c)"
  have room: "int (gm_len (rc_seen c)) < rc_maxSize c" and now: "now \<le> t"
    using Cons.prems(2,4) x by auto
  have c1: "replay_ok c1" "unexpired t key c1" "gm_len (rc_seen c1) \<le> Suc (gm_len (rc_seen c))"
    "rc_maxSize c1 = rc_maxSize c"
    using replayCheck_keeps [OF Cons.prems(1) room Cons.prems(3) now, of "replayKey G tx nonce"] Cons.prems(1)
    by (simp_all add: c1_def replayCheck_ok)
  have "int (gm_len (rc_seen c1) + length cs) \<le> rc_maxSize c1" using c1(3,4) Cons.prems(2) by simp
  from Cons.IH [OF c1(1) this c1(2)] Cons.prems(4) x show ?case
    by (simp add: ReplayCache_Check_def c1_def)
qed simp

text \<open>The first sight of a message records it until the end of its life.\<close>

lemma replayCheck_records:
  assumes "replay_ok c" "replayCheckKey t0 key c = (True, c')" "t < t0 + rc_ttl c"
  shows "unexpired t key c'"
proof -
  define c1 where "c1 = (if int (gm_len (rc_seen c)) \<ge> rc_maxSize c then replayEvict t0 c else c)"
  have "gm_ok (rc_seen c1)" using assms(1) replayEvict_get(1) [of c t0] by (simp add: c1_def replay_ok_def)
  moreover have "c' = c1\<lparr>rc_seen := gm_put key (t0 + rc_ttl c) (rc_seen c1)\<rparr>"
    using assms(2) by (auto simp: replayCheckKey_def c1_def Let_def split: if_splits)
  ultimately show ?thesis using assms(3) by (simp add: unexpired_def gm.get_put)
qed

text \<open>A full table of live entries is cleared by the next new message.\<close>

lemma replayCheck_clears:
  assumes ok: "gm_ok (rc_seen c)" and full: "int (gm_len (rc_seen c)) \<ge> rc_maxSize c"
    and live: "\<And>k. gm_get (rc_seen c) k \<noteq> None \<Longrightarrow> unexpired now k c" and new: "\<not> unexpired now key c"
  shows "replayCheckKey now key c = (True, c\<lparr>rc_seen := gm_put key (now + rc_ttl c) gm_empty\<rparr>)"
proof -
  have "expiredKeys now (rc_seen c) = []"
    unfolding expiredKeys_def filter_empty_conv
    using live by (auto simp: unexpired_def split: option.splits) (metis option.distinct(1) option.simps(5))
  then show ?thesis using full new by (simp add: replayCheckKey_def replayEvict_def)
qed

lemma replayPreimage_inj:
  assumes "length n1 = length n2" "replayPreimage t1 n1 = replayPreimage t2 n2"
  shows "t1 = t2 \<and> n1 = n2"
  using assms by (simp add: replayPreimage_def)

end
