(* ===== verification/Scep_Message.thy ===== *)
theory Scep_Message
  imports Cms Scep_Replay
begin

text \<open>
  \<open>src/internal/scep/message.go\<close> and \<open>request.go\<close>: message types, the attributes of a request
  with their checks, the parser of a PKIOperation, and the signed responses. The private key of the
  registration authority is opaque bytes, and the nonce of a response an argument (it comes from
  \<open>crypto/rand\<close>, which may fail).
\<close>

section \<open>Attributes\<close>

definition scepArc :: "nat \<Rightarrow> objectID" where "scepArc n = [2, 16, 840, 1, 113733, 1, 9, n]"
definition oidMessageType :: objectID where "oidMessageType = scepArc 2"
definition oidPKIStatus :: objectID where "oidPKIStatus = scepArc 3"
definition oidFailInfo :: objectID where "oidFailInfo = scepArc 4"
definition oidSenderNonce :: objectID where "oidSenderNonce = scepArc 5"
definition oidRecipientNonce :: objectID where "oidRecipientNonce = scepArc 6"
definition oidTransactionID :: objectID where "oidTransactionID = scepArc 7"

type_synonym MessageType = string

definition PKCSReq :: MessageType where "PKCSReq = ''19''"
definition RenewalReq :: MessageType where "RenewalReq = ''17''"
definition CertRep :: MessageType where "CertRep = ''3''"
definition GetCertInitial :: MessageType where "GetCertInitial = ''20''"
definition GetCert :: MessageType where "GetCert = ''21''"
definition GetCRL :: MessageType where "GetCRL = ''22''"

definition MessageType_Valid :: "MessageType \<Rightarrow> bool" where
  "MessageType_Valid m = (m = PKCSReq \<or> m = RenewalReq)"

definition MessageType_String :: "MessageType \<Rightarrow> string" where
  "MessageType_String m =
    (if m = PKCSReq then ''PKCSReq'' else if m = RenewalReq then ''RenewalReq'' else if m = CertRep then ''CertRep''
     else if m = GetCertInitial then ''GetCertInitial'' else if m = GetCert then ''GetCert''
     else if m = GetCRL then ''GetCRL'' else ''unknown('' @ m @ '')'')"

type_synonym PKIStatus = string
definition StatusSuccess :: PKIStatus where "StatusSuccess = ''0''"
definition StatusFailure :: PKIStatus where "StatusFailure = ''2''"
definition StatusPending :: PKIStatus where "StatusPending = ''3''"

type_synonym FailInfo = string
definition FailBadAlg :: FailInfo where "FailBadAlg = ''0''"
definition FailBadMessageCheck :: FailInfo where "FailBadMessageCheck = ''1''"
definition FailBadRequest :: FailInfo where "FailBadRequest = ''2''"
definition FailBadTime :: FailInfo where "FailBadTime = ''3''"
definition FailBadCertID :: FailInfo where "FailBadCertID = ''4''"

definition nonceLen :: nat where "nonceLen = 16"
definition maxTransactionIDLen :: nat where "maxTransactionIDLen = 128"

record Attributes =
  at_MessageType :: MessageType
  at_TransactionID :: string
  at_SenderNonce :: string
  at_RecipientNonce :: string
  at_PKIStatus :: PKIStatus
  at_FailInfo :: FailInfo

datatype scep_error =
    MissingMessageType | UnsupportedMessageType MessageType | MissingTransactionID | EmptyTransactionID
  | TransactionIDTooLong | MissingSenderNonce | NonceLength nat
  | NoCSRParser | NoRAIdentity | CmsError cms_error | RenewalNotTrusted cms_error | BadCSR string
  | NoCertificateToReturn | NonceError string

definition parseAttributes :: "pkcs7lib \<Rightarrow> Signed \<Rightarrow> (scep_error, Attributes) result" where
  "parseAttributes L s =
    (case pl_AttrString L (sg_p7 s) oidMessageType of
       Inl _ \<Rightarrow> Err MissingMessageType
     | Inr mt \<Rightarrow>
        if \<not> MessageType_Valid mt then Err (UnsupportedMessageType mt)
        else (case pl_AttrString L (sg_p7 s) oidTransactionID of
           Inl _ \<Rightarrow> Err MissingTransactionID
         | Inr txID \<Rightarrow>
            if txID = [] then Err EmptyTransactionID
            else if length txID > maxTransactionIDLen then Err TransactionIDTooLong
            else (case pl_AttrBytes L (sg_p7 s) oidSenderNonce of
               Inl _ \<Rightarrow> Err MissingSenderNonce
             | Inr nonce \<Rightarrow>
                if length nonce \<noteq> nonceLen then Err (NonceLength (length nonce))
                else Ok \<lparr>at_MessageType = mt, at_TransactionID = txID, at_SenderNonce = nonce,
                          at_RecipientNonce = [], at_PKIStatus = [], at_FailInfo = []\<rparr>)))"

section \<open>Requests\<close>

record scep_Request =
  sr_Attributes :: Attributes
  sr_CSR :: certRequest
  sr_Signer :: certificate
  sr_SignerAuthenticated :: bool

record Parser =
  pr_RACert :: "certificate option"
  pr_RAKey :: "string option"
  pr_DeviceRoots :: "certPool option"
  pr_Verifier :: Verifier
  pr_ParseCSR :: "(string \<Rightarrow> (string, certRequest) result) option"

text \<open>Steps 4 and 5 of \<open>Parse\<close>: the envelope and the certificate request in it.\<close>

definition openEnvelope :: "pkcs7lib \<Rightarrow> Signed \<Rightarrow> certificate \<Rightarrow> string \<Rightarrow> (string \<Rightarrow> (string, certRequest) result)
   \<Rightarrow> Attributes \<Rightarrow> bool \<Rightarrow> (scep_error, scep_Request) result" where
  "openEnvelope L signed raCert raKey parse attrs authenticated =
    (case cms_Decrypt L (sg_Content signed) raCert raKey of
       Inl e \<Rightarrow> Err (CmsError e)
     | Inr csrDER \<Rightarrow>
        (case parse csrDER of
           Inl err \<Rightarrow> Err (BadCSR err)
         | Inr csr \<Rightarrow> Ok \<lparr>sr_Attributes = attrs, sr_CSR = csr, sr_Signer = sg_Signer signed,
                          sr_SignerAuthenticated = authenticated\<rparr>))"

definition Parse :: "pkcs7lib \<Rightarrow> Parser \<Rightarrow> string \<Rightarrow> (scep_error, scep_Request) result" where
  "Parse L p der =
    (case pr_ParseCSR p of
       None \<Rightarrow> Err NoCSRParser
     | Some parse \<Rightarrow>
        (case (pr_RACert p, pr_RAKey p) of
           (Some raCert, Some raKey) \<Rightarrow>
             (case VerifySignature L (pr_Verifier p) der of
                Inl e \<Rightarrow> Err (CmsError e)
              | Inr signed \<Rightarrow>
                 (case parseAttributes L signed of
                    Inl e \<Rightarrow> Err e
                  | Inr attrs \<Rightarrow>
                     if at_MessageType attrs = RenewalReq then
                       (case VerifyChain L (pr_Verifier p) der (pr_DeviceRoots p) of
                          Inl e \<Rightarrow> Err (RenewalNotTrusted e)
                        | Inr chained \<Rightarrow> openEnvelope L chained raCert raKey parse attrs True)
                     else openEnvelope L signed raCert raKey parse attrs False))
         | _ \<Rightarrow> Err NoRAIdentity))"

section \<open>Responses\<close>

record Responder =
  rs_RACert :: "certificate option"
  rs_RAKey :: "string option"

text \<open>The attributes of a CertRep, in the order of the source.\<close>

definition repAttributes :: "scep_Request \<Rightarrow> string \<Rightarrow> PKIStatus \<Rightarrow> FailInfo \<Rightarrow> (objectID \<times> attrValue) list" where
  "repAttributes req sender status info =
    [(oidMessageType, AttrString CertRep), (oidPKIStatus, AttrString status),
     (oidTransactionID, AttrString (at_TransactionID (sr_Attributes req))),
     (oidSenderNonce, AttrBytes sender),
     (oidRecipientNonce, AttrBytes (at_SenderNonce (sr_Attributes req)))]
    @ (if status = StatusFailure then [(oidFailInfo, AttrString info)] else [])"

definition signRep :: "pkcs7lib \<Rightarrow> Responder \<Rightarrow> (string, string) result \<Rightarrow> scep_Request \<Rightarrow> string \<Rightarrow> PKIStatus \<Rightarrow> FailInfo
   \<Rightarrow> (scep_error, string) result" where
  "signRep L rs nonce req content status info =
    (case (rs_RACert rs, rs_RAKey rs) of
       (Some c, Some key) \<Rightarrow>
         (case nonce of
            Inl err \<Rightarrow> Err (NonceError err)
          | Inr sender \<Rightarrow>
             (case cms_Sign L content (Some c) key
                 \<lparr>cs_Attributes = repAttributes req sender status info, cs_Digest = None\<rparr> of
                Inl e \<Rightarrow> Err (CmsError e) | Inr der \<Rightarrow> Ok der))
     | _ \<Rightarrow> Err NoRAIdentity)"

definition Responder_Success :: "pkcs7lib \<Rightarrow> Responder \<Rightarrow> (string, string) result \<Rightarrow> scep_Request \<Rightarrow> certificate option
   \<Rightarrow> (scep_error, string) result" where
  "Responder_Success L rs nonce req issued =
    (case issued of
       None \<Rightarrow> Err NoCertificateToReturn
     | Some c \<Rightarrow>
        (case cms_DegenerateCertsOnly L [c] of
           Inl e \<Rightarrow> Err (CmsError e)
         | Inr certsOnly \<Rightarrow>
            (case cms_Encrypt L certsOnly (Some (sr_Signer req)) of
               Inl e \<Rightarrow> Err (CmsError e)
             | Inr enveloped \<Rightarrow> signRep L rs nonce req enveloped StatusSuccess '''')))"

definition Responder_Failure :: "pkcs7lib \<Rightarrow> Responder \<Rightarrow> (string, string) result \<Rightarrow> scep_Request \<Rightarrow> FailInfo
   \<Rightarrow> (scep_error, string) result" where
  "Responder_Failure L rs nonce req info = signRep L rs nonce req [] StatusFailure info"

section \<open>Lemmas\<close>

definition attrs_ok :: "Attributes \<Rightarrow> bool" where
  "attrs_ok a = (MessageType_Valid (at_MessageType a) \<and> at_TransactionID a \<noteq> [] \<and>
     length (at_TransactionID a) \<le> maxTransactionIDLen \<and> length (at_SenderNonce a) = nonceLen)"

lemma parseAttributes_Ok:
  assumes "parseAttributes L s = Ok a"
  shows "attrs_ok a" "pl_AttrString L (sg_p7 s) oidMessageType = Ok (at_MessageType a)"
    "pl_AttrString L (sg_p7 s) oidTransactionID = Ok (at_TransactionID a)"
    "pl_AttrBytes L (sg_p7 s) oidSenderNonce = Ok (at_SenderNonce a)"
  using assms by (auto simp: parseAttributes_def attrs_ok_def split: sum.splits if_splits)

lemma openEnvelope_Ok:
  assumes "openEnvelope L signed raCert raKey parse attrs auth = Ok req"
  shows "sr_Attributes req = attrs \<and> sr_Signer req = sg_Signer signed \<and> sr_SignerAuthenticated req = auth \<and>
    (\<exists>der. parse der = Ok (sr_CSR req))"
  using assms by (auto simp: openEnvelope_def split: sum.splits)

lemma Parse_Ok:
  assumes "Parse L p der = Ok req"
  obtains signed parse where "VerifySignature L (pr_Verifier p) der = Ok signed"
    "parseAttributes L signed = Ok (sr_Attributes req)" "pr_ParseCSR p = Some parse"
    "\<exists>der. parse der = Ok (sr_CSR req)"
    "if at_MessageType (sr_Attributes req) = RenewalReq
     then sr_SignerAuthenticated req \<and> (\<exists>chained. VerifyChain L (pr_Verifier p) der (pr_DeviceRoots p) = Ok chained
            \<and> sr_Signer req = sg_Signer chained)
     else \<not> sr_SignerAuthenticated req \<and> sr_Signer req = sg_Signer signed"
  using assms
  by (auto simp: Parse_def intro: that dest!: openEnvelope_Ok split: option.splits sum.splits if_splits)

end
