(* ===== verification/Authz_Types.thy ===== *)
theory Authz_Types
  imports Go_X509
begin

text \<open>
  The data of \<open>src/internal/authz\<close> (\<open>authz.go\<close>, \<open>identity.go\<close>, and the record of
  \<open>inventory.go\<close>): requests, constraints, decisions and identities, the two fixed authorizers
  \<open>DenyAll\<close> and \<open>AllowAllEcho\<close>, and the resolution of an identity from a request.

  An \<open>error\<close> is a constructor of a datatype in place of a formatted message; the reason of a
  decision is either one of the literal messages of the source or such an error.
\<close>

type_synonym Operation = string

definition OpSimpleEnroll :: Operation where "OpSimpleEnroll = ''simpleenroll''"
definition OpSimpleReenroll :: Operation where "OpSimpleReenroll = ''simplereenroll''"
definition OpServerKeyGen :: Operation where "OpServerKeyGen = ''serverkeygen''"

record Request =
  rq_Operation :: Operation
  rq_ClientCert :: "certificate option"
  rq_CSR :: "certRequest option"
  rq_ChallengePassword :: string
  rq_Label :: string
  rq_RemoteAddr :: string

record CertConstraints =
  cc_CommonName :: string
  cc_DNSNames :: "string list"
  cc_IPs :: "string list"
  cc_URIs :: "string list"
  cc_TTL :: duration
  cc_ExcludeCNFromSANs :: bool

definition noConstraints :: CertConstraints where
  "noConstraints = \<lparr>cc_CommonName = '''', cc_DNSNames = [], cc_IPs = [], cc_URIs = [],
     cc_TTL = 0, cc_ExcludeCNFromSANs = False\<rparr>"

datatype policy_error =
    NamesNoSubject
  | UnknownSANMode string
  | CNNotInIdentity string
  | SANsExceedIdentity
  | IPURISANsInIdentityMode
  | NoAllowedNames
  | CNNotAllowed string
  | SANsNotAllowed
  | IPURISANsInAllowlistMode

datatype reason = Reason string | ReasonErr policy_error

record Decision =
  dc_Allow :: bool
  dc_Role :: string
  dc_Constraints :: CertConstraints
  dc_Reason :: reason

definition Deny :: "reason \<Rightarrow> Decision" where
  "Deny r = \<lparr>dc_Allow = False, dc_Role = '''', dc_Constraints = noConstraints, dc_Reason = r\<rparr>"

text \<open>
  The interface \<open>Authorizer\<close>: an answer or an infrastructure error, and the new state (the
  one-time codes of a challenge store are consumed by an authorization).
\<close>

type_synonym 's authorizer = "Request \<Rightarrow> 's \<Rightarrow> (string, Decision) result \<times> 's"

definition DenyAll_Authorize :: "'s authorizer" where
  "DenyAll_Authorize req s = (Ok (Deny (Reason ''no authorizer configured'')), s)"

definition urisToStrings :: "goURL list \<Rightarrow> string list" where
  "urisToStrings us = map urlString us"

definition ipsToStrings :: "golib \<Rightarrow> certRequest \<Rightarrow> string list" where
  "ipsToStrings G csr = map (lib_ipString G) (csr_IPAddresses csr)"

definition AllowAllEcho_Authorize :: "golib \<Rightarrow> string \<Rightarrow> 's authorizer" where
  "AllowAllEcho_Authorize G role req s =
    (let c = (case rq_CSR req of
         None \<Rightarrow> noConstraints
       | Some csr \<Rightarrow> noConstraints
           \<lparr>cc_CommonName := nm_CommonName (csr_Subject csr),
            cc_DNSNames := csr_DNSNames csr,
            cc_URIs := urisToStrings (csr_URIs csr),
            cc_IPs := ipsToStrings G csr\<rparr>)
     in (Ok \<lparr>dc_Allow = True, dc_Role = role, dc_Constraints = c,
              dc_Reason = Reason ''allow-all-echo (dev only)''\<rparr>, s))"

section \<open>Identities\<close>

record Identity =
  id_Authenticated :: bool
  id_CommonName :: string
  id_OrgUnits :: "string list"
  id_Orgs :: "string list"
  id_DNSNames :: "string list"
  id_Serial :: string
  id_Fingerprint :: string
  id_Label :: string
  id_RequestedCN :: string
  id_RequestedDNS :: "string list"
  id_RequestedIPs :: "string list"
  id_RequestedURIs :: "string list"

definition emptyIdentity :: Identity where
  "emptyIdentity = \<lparr>id_Authenticated = False, id_CommonName = '''', id_OrgUnits = [],
     id_Orgs = [], id_DNSNames = [], id_Serial = '''', id_Fingerprint = '''', id_Label = '''',
     id_RequestedCN = '''', id_RequestedDNS = [], id_RequestedIPs = [], id_RequestedURIs = []\<rparr>"

definition resolveIdentity :: "golib \<Rightarrow> Request \<Rightarrow> Identity" where
  "resolveIdentity G req =
    (let i0 = emptyIdentity\<lparr>id_Label := rq_Label req\<rparr>;
         i1 = (case rq_ClientCert req of
             None \<Rightarrow> i0
           | Some c \<Rightarrow> i0
               \<lparr>id_Authenticated := True,
                id_CommonName := nm_CommonName (crt_Subject c),
                id_OrgUnits := nm_OrganizationalUnit (crt_Subject c),
                id_Orgs := nm_Organization (crt_Subject c),
                id_DNSNames := crt_DNSNames c,
                id_Serial := toLower (lib_unicode G) (bigText16 (crt_SerialNumber c)),
                id_Fingerprint := hexEncode (lib_sha256 G (crt_Raw c))\<rparr>)
     in (case rq_CSR req of
           None \<Rightarrow> i1
         | Some csr \<Rightarrow> i1
             \<lparr>id_RequestedCN := nm_CommonName (csr_Subject csr),
              id_RequestedDNS := csr_DNSNames csr,
              id_RequestedURIs := urisToStrings (csr_URIs csr),
              id_RequestedIPs := ipsToStrings G csr\<rparr>))"

record Record =
  rec_Found :: bool
  rec_AllowedDNSNames :: "string list"
  rec_RequireChallenge :: bool
  rec_Role :: string

section \<open>Lemmas\<close>

lemma Deny_simps [simp]:
  "dc_Allow (Deny r) = False" "dc_Role (Deny r) = ''''" "dc_Reason (Deny r) = r"
  "dc_Constraints (Deny r) = noConstraints"
  by (simp_all add: Deny_def)

lemma resolveIdentity_auth [simp]:
  "id_Authenticated (resolveIdentity G req) \<longleftrightarrow> rq_ClientCert req \<noteq> None"
  by (auto simp: resolveIdentity_def emptyIdentity_def Let_def split: option.split)

lemma resolveIdentity_cert:
  assumes "rq_ClientCert req = Some c"
  shows "id_CommonName (resolveIdentity G req) = nm_CommonName (crt_Subject c)"
    and "id_DNSNames (resolveIdentity G req) = crt_DNSNames c"
  using assms by (auto simp: resolveIdentity_def Let_def split: option.split)

lemma resolveIdentity_no_cert:
  assumes "rq_ClientCert req = None"
  shows "id_CommonName (resolveIdentity G req) = ''''"
    and "id_DNSNames (resolveIdentity G req) = []"
    and "id_OrgUnits (resolveIdentity G req) = []"
    and "id_Orgs (resolveIdentity G req) = []"
    and "id_Serial (resolveIdentity G req) = ''''"
    and "id_Fingerprint (resolveIdentity G req) = ''''"
  using assms by (auto simp: resolveIdentity_def emptyIdentity_def Let_def split: option.split)

lemma resolveIdentity_label [simp]: "id_Label (resolveIdentity G req) = rq_Label req"
  by (auto simp: resolveIdentity_def Let_def split: option.split)

lemma resolveIdentity_csr:
  assumes "rq_CSR req = Some csr"
  shows "id_RequestedCN (resolveIdentity G req) = nm_CommonName (csr_Subject csr)"
    and "id_RequestedDNS (resolveIdentity G req) = csr_DNSNames csr"
  using assms by (auto simp: resolveIdentity_def Let_def split: option.split)

end
