(* ===== verification/Authz_Match.thy ===== *)
theory Authz_Match
  imports Authz_Types
begin

text \<open>
  Name matching (\<open>src/internal/authz/match.go\<close>) and role selection (\<open>roles.go\<close>).

  \<open>canon\<close> is the normal form both sides of a match are brought to. The lemmas characterise a
  match by that normal form, so that the policies above need not look at the string functions.
\<close>

definition canon :: "golib \<Rightarrow> string \<Rightarrow> string" where
  "canon G s = toLower (lib_unicode G) (trimSpace s)"

definition globMatch :: "golib \<Rightarrow> string \<Rightarrow> string \<Rightarrow> bool" where
  "globMatch G pat val =
    (let pattern = toLower (lib_unicode G) (trimSpace pat);
         value = toLower (lib_unicode G) (trimSpace val)
     in if pattern = ''*'' then True
        else if hasPrefix pattern ''*.'' then
          (let suf = drop 1 pattern in hasSuffix value suf \<and> length value > length suf)
        else pattern = value)"

fun anyGlobMatch :: "golib \<Rightarrow> string \<Rightarrow> string list \<Rightarrow> bool" where
  "anyGlobMatch G pattern [] = False"
| "anyGlobMatch G pattern (v # vs) = (if globMatch G pattern v then True else anyGlobMatch G pattern vs)"

text \<open>The inner loop of \<open>allAllowed\<close>: it stops at the first pattern that matches.\<close>

fun someAllows :: "golib \<Rightarrow> string \<Rightarrow> string list \<Rightarrow> bool" where
  "someAllows G n [] = False"
| "someAllows G n (p # ps) = (if globMatch G p n then True else someAllows G n ps)"

fun allAllowed :: "golib \<Rightarrow> string list \<Rightarrow> string list \<Rightarrow> bool" where
  "allAllowed G [] patterns = True"
| "allAllowed G (n # ns) patterns =
    (if \<not> someAllows G n patterns then False else allAllowed G ns patterns)"

section \<open>Role selection\<close>

record Rule =
  rl_Match :: string
  rl_Role :: string

record RuleSelector =
  rs_Rules :: "Rule list"
  rs_Default :: string

definition NewRuleSelector :: "Rule list \<Rightarrow> string \<Rightarrow> RuleSelector" where
  "NewRuleSelector rules def = \<lparr>rs_Rules = rules, rs_Default = def\<rparr>"

definition matchSelector :: "golib \<Rightarrow> string \<Rightarrow> Identity \<Rightarrow> bool" where
  "matchSelector G sel i =
    (let selector = trimSpace sel in
     if selector = ''*'' then True
     else case cutByte (CHR '':'') selector of
       None \<Rightarrow> False
     | Some (k, p) \<Rightarrow>
        (let key = toLower (lib_unicode G) (trimSpace k); pattern = trimSpace p in
         if key = ''cn'' then
           (let cn = (if id_CommonName i = '''' then id_RequestedCN i else id_CommonName i)
            in globMatch G pattern cn)
         else if key = ''ou'' then anyGlobMatch G pattern (id_OrgUnits i)
         else if key = ''o'' then anyGlobMatch G pattern (id_Orgs i)
         else if key = ''san'' then anyGlobMatch G pattern (id_RequestedDNS i)
         else if key = ''label'' then globMatch G pattern (id_Label i)
         else if key = ''serial'' then globMatch G pattern (id_Serial i)
         else False))"

fun firstRole :: "golib \<Rightarrow> Rule list \<Rightarrow> string \<Rightarrow> Identity \<Rightarrow> string" where
  "firstRole G [] def i = def"
| "firstRole G (r # rs) def i =
    (if matchSelector G (rl_Match r) i then rl_Role r else firstRole G rs def i)"

definition RuleSelector_Role :: "golib \<Rightarrow> RuleSelector \<Rightarrow> Identity \<Rightarrow> string" where
  "RuleSelector_Role G s i = firstRole G (rs_Rules s) (rs_Default s) i"

section \<open>Lemmas\<close>

text \<open>A pattern is a wildcard when its normal form is \<open>*\<close> or starts with \<open>*.\<close>.\<close>

definition wildcard :: "golib \<Rightarrow> string \<Rightarrow> bool" where
  "wildcard G p = (canon G p = ''*'' \<or> hasPrefix (canon G p) ''*.'')"

lemma globMatch_canon:
  "globMatch G p v \<longleftrightarrow>
     canon G p = ''*''
     \<or> (\<exists>d q. canon G p = ''*.'' @ d \<and> q \<noteq> [] \<and> canon G v = q @ ''.'' @ d)
     \<or> (\<not> wildcard G p \<and> canon G p = canon G v)"
proof (cases "canon G p = ''*''")
  case True
  then show ?thesis by (simp add: globMatch_def canon_def Let_def)
next
  case star: False
  show ?thesis
  proof (cases "hasPrefix (canon G p) ''*.''")
    case True
    then obtain d where d: "canon G p = ''*.'' @ d" by (auto simp: hasPrefix_iff)
    have "globMatch G p v \<longleftrightarrow>
        hasSuffix (canon G v) (CHR ''.'' # d) \<and> length (canon G v) > Suc (length d)"
      using star True d by (simp add: globMatch_def Let_def flip: canon_def)
    also have "\<dots> \<longleftrightarrow> (\<exists>q. q \<noteq> [] \<and> canon G v = q @ ''.'' @ d)"
      by (auto simp: hasSuffix_iff)
    finally show ?thesis using star True d by (auto simp: wildcard_def)
  next
    case False
    then show ?thesis using star
      by (auto simp: globMatch_def Let_def wildcard_def hasPrefix_iff simp flip: canon_def)
  qed
qed

lemma globMatch_exact: "\<not> wildcard G p \<Longrightarrow> globMatch G p v \<longleftrightarrow> canon G v = canon G p"
  by (subst globMatch_canon) (auto simp: wildcard_def hasPrefix_iff)

lemma globMatch_refl: "globMatch G p p \<or> hasPrefix (canon G p) ''*.''"
  using globMatch_canon [of G p p] by (auto simp: wildcard_def)

lemma anyGlobMatch_iff: "anyGlobMatch G p vs \<longleftrightarrow> (\<exists>v\<in>set vs. globMatch G p v)"
  by (induction vs) auto

lemma someAllows_iff: "someAllows G n ps \<longleftrightarrow> (\<exists>p\<in>set ps. globMatch G p n)"
  by (induction ps) auto

lemma allAllowed_iff:
  "allAllowed G ns ps \<longleftrightarrow> (\<forall>n\<in>set ns. \<exists>p\<in>set ps. globMatch G p n)"
  by (induction ns) (auto simp: someAllows_iff)

lemma firstRole_find:
  "firstRole G rs def i =
     (case find (\<lambda>r. matchSelector G (rl_Match r) i) rs of Some r \<Rightarrow> rl_Role r | None \<Rightarrow> def)"
  by (induction rs) auto

text \<open>
  What a selector reads of an identity: two identities that agree on the fields taken from the
  authenticated certificate and the label, and on the requested names, select the same role.
\<close>

lemma matchSelector_cong:
  assumes "id_CommonName i = id_CommonName j" "id_RequestedCN i = id_RequestedCN j"
    "id_OrgUnits i = id_OrgUnits j" "id_Orgs i = id_Orgs j"
    "id_RequestedDNS i = id_RequestedDNS j" "id_Label i = id_Label j"
    "id_Serial i = id_Serial j"
  shows "matchSelector G s i = matchSelector G s j"
  using assms by (simp add: matchSelector_def Let_def split: option.split)

end
