(* ===== verification/Authz_Policy.thy ===== *)
theory Authz_Policy
  imports Authz_Match
begin

text \<open>
  The constraint policy, \<open>src/internal/authz/policy.go\<close>: what the broker asks OpenBao for,
  derived from the identity and the inventory record, in the three SAN modes.

  The locale \<open>constraint_builder\<close> is the contract of the interface \<open>ConstraintBuilder\<close> the
  pipeline relies on: constraints that are built name a subject. \<open>StandardConstraints\<close> meets it.
\<close>

definition SANModeIdentity :: string where "SANModeIdentity = ''identity''"
definition SANModeAllowlist :: string where "SANModeAllowlist = ''allowlist''"
definition SANModeCSR :: string where "SANModeCSR = ''csr''"

type_synonym constraint_builder = "Identity \<Rightarrow> Record \<Rightarrow> (policy_error, CertConstraints) result"

record StandardConstraints =
  sc_Mode :: string
  sc_MaxValidity :: duration

definition NewStandardConstraints :: "string \<Rightarrow> duration \<Rightarrow> StandardConstraints" where
  "NewStandardConstraints mode maxValidity =
    \<lparr>sc_Mode = (if mode = '''' then SANModeIdentity else mode), sc_MaxValidity = maxValidity\<rparr>"

definition fromAuthenticatedIdentity ::
  "golib \<Rightarrow> StandardConstraints \<Rightarrow> Identity \<Rightarrow> (policy_error, CertConstraints) result" where
  "fromAuthenticatedIdentity G b i =
    (let permitted = id_CommonName i # id_DNSNames i in
     if id_RequestedCN i \<noteq> '''' \<and> \<not> allAllowed G [id_RequestedCN i] permitted
     then Err (CNNotInIdentity (id_RequestedCN i))
     else if \<not> allAllowed G (id_RequestedDNS i) permitted then Err SANsExceedIdentity
     else if id_RequestedIPs i \<noteq> [] \<or> id_RequestedURIs i \<noteq> [] then Err IPURISANsInIdentityMode
     else
       (let c = noConstraints\<lparr>cc_TTL := sc_MaxValidity b, cc_CommonName := id_CommonName i\<rparr>
        in if id_RequestedDNS i \<noteq> []
           then Ok (c\<lparr>cc_DNSNames := id_RequestedDNS i\<rparr>)
           else Ok (c\<lparr>cc_DNSNames := id_DNSNames i\<rparr>)))"

definition allowlist ::
  "golib \<Rightarrow> StandardConstraints \<Rightarrow> Identity \<Rightarrow> Record \<Rightarrow> (policy_error, CertConstraints) result" where
  "allowlist G b i rec =
    (if rec_AllowedDNSNames rec = [] then Err NoAllowedNames
     else if id_RequestedCN i \<noteq> '''' \<and> \<not> allAllowed G [id_RequestedCN i] (rec_AllowedDNSNames rec)
     then Err (CNNotAllowed (id_RequestedCN i))
     else if \<not> allAllowed G (id_RequestedDNS i) (rec_AllowedDNSNames rec) then Err SANsNotAllowed
     else if id_RequestedIPs i \<noteq> [] \<or> id_RequestedURIs i \<noteq> [] then Err IPURISANsInAllowlistMode
     else Ok (noConstraints\<lparr>cc_TTL := sc_MaxValidity b, cc_CommonName := id_RequestedCN i,
                cc_DNSNames := id_RequestedDNS i\<rparr>))"

definition buildMode ::
  "golib \<Rightarrow> StandardConstraints \<Rightarrow> Identity \<Rightarrow> Record \<Rightarrow> (policy_error, CertConstraints) result" where
  "buildMode G b i rec =
    (let c = noConstraints\<lparr>cc_TTL := sc_MaxValidity b\<rparr> in
     if sc_Mode b = SANModeCSR then
       Ok (c\<lparr>cc_CommonName := id_RequestedCN i, cc_DNSNames := id_RequestedDNS i,
             cc_IPs := id_RequestedIPs i, cc_URIs := id_RequestedURIs i\<rparr>)
     else if sc_Mode b = SANModeAllowlist then allowlist G b i rec
     else if sc_Mode b = SANModeIdentity then
       (if id_Authenticated i then fromAuthenticatedIdentity G b i else allowlist G b i rec)
     else Err (UnknownSANMode (sc_Mode b)))"

definition StandardConstraints_Build :: "golib \<Rightarrow> StandardConstraints \<Rightarrow> constraint_builder" where
  "StandardConstraints_Build G b i rec =
    (case buildMode G b i rec of
       Inl e \<Rightarrow> Err e
     | Inr c \<Rightarrow>
        if cc_CommonName c = '''' \<and> cc_DNSNames c = [] \<and> cc_IPs c = [] \<and> cc_URIs c = []
        then Err NamesNoSubject else Ok c)"

section \<open>The contract of a constraint builder\<close>

text \<open>\<open>namesConstrained\<close> of \<open>src/internal/authz/verify.go\<close>: the decision bounds the subject.\<close>

definition namesConstrained :: "CertConstraints \<Rightarrow> bool" where
  "namesConstrained c =
    (cc_CommonName c \<noteq> '''' \<or> length (cc_DNSNames c) > 0 \<or> length (cc_IPs c) > 0
      \<or> length (cc_URIs c) > 0)"

locale constraint_builder =
  fixes build :: constraint_builder
  assumes names_subject: "build i rec = Ok c \<Longrightarrow> namesConstrained c"
begin

lemma never_unnamed: "build i rec \<noteq> Ok (noConstraints\<lparr>cc_TTL := t\<rparr>)"
  using names_subject [of i rec] by (auto simp: namesConstrained_def noConstraints_def)

end

interpretation std: constraint_builder "StandardConstraints_Build G b" for G b
  by unfold_locales
    (auto simp: StandardConstraints_Build_def namesConstrained_def split: sum.splits if_splits)

section \<open>Lemmas\<close>

lemma Build_buildMode: "StandardConstraints_Build G b i rec = Ok c \<Longrightarrow> buildMode G b i rec = Ok c"
  by (auto simp: StandardConstraints_Build_def split: sum.splits if_splits)

lemma Build_TTL: "StandardConstraints_Build G b i rec = Ok c \<Longrightarrow> cc_TTL c = sc_MaxValidity b"
  by (drule Build_buildMode)
    (auto simp: buildMode_def allowlist_def fromAuthenticatedIdentity_def Let_def split: if_splits)

lemma Build_keeps_CN_in_SANs:
  "StandardConstraints_Build G b i rec = Ok c \<Longrightarrow> \<not> cc_ExcludeCNFromSANs c"
  by (drule Build_buildMode)
    (auto simp: buildMode_def allowlist_def fromAuthenticatedIdentity_def noConstraints_def Let_def
      split: if_splits)

lemma Build_no_IP_URI:
  assumes "StandardConstraints_Build G b i rec = Ok c" "sc_Mode b \<noteq> SANModeCSR"
  shows "cc_IPs c = [] \<and> cc_URIs c = []"
  using Build_buildMode [OF assms(1)] assms(2)
  by (auto simp: buildMode_def allowlist_def fromAuthenticatedIdentity_def noConstraints_def Let_def
      split: if_splits)

lemma fromAuthenticatedIdentity_Ok:
  assumes "fromAuthenticatedIdentity G b i = Ok c"
  shows "cc_CommonName c = id_CommonName i"
    and "cc_DNSNames c = (if id_RequestedDNS i = [] then id_DNSNames i else id_RequestedDNS i)"
    and "\<forall>n\<in>set (id_RequestedDNS i). \<exists>p\<in>set (id_CommonName i # id_DNSNames i). globMatch G p n"
    and "id_RequestedCN i \<noteq> '''' \<Longrightarrow>
      \<exists>p\<in>set (id_CommonName i # id_DNSNames i). globMatch G p (id_RequestedCN i)"
    and "cc_IPs c = [] \<and> cc_URIs c = []"
  using assms unfolding fromAuthenticatedIdentity_def Let_def
  by (auto simp: allAllowed_iff noConstraints_def split: if_splits)

lemma allowlist_Ok:
  assumes "allowlist G b i rec = Ok c"
  shows "cc_CommonName c = id_RequestedCN i" and "cc_DNSNames c = id_RequestedDNS i"
    and "\<forall>n\<in>set (id_RequestedDNS i). \<exists>p\<in>set (rec_AllowedDNSNames rec). globMatch G p n"
    and "id_RequestedCN i \<noteq> '''' \<Longrightarrow> \<exists>p\<in>set (rec_AllowedDNSNames rec). globMatch G p (id_RequestedCN i)"
    and "cc_IPs c = [] \<and> cc_URIs c = []"
  using assms unfolding allowlist_def
  by (auto simp: allAllowed_iff noConstraints_def split: if_splits)

lemma Build_identity_auth:
  assumes "StandardConstraints_Build G b i rec = Ok c"
    and "sc_Mode b = SANModeIdentity" "id_Authenticated i"
  shows "fromAuthenticatedIdentity G b i = Ok c"
  using Build_buildMode [OF assms(1)] assms(2,3)
  by (auto simp: buildMode_def Let_def SANModeIdentity_def SANModeAllowlist_def SANModeCSR_def)

lemma Build_allowlist:
  assumes "StandardConstraints_Build G b i rec = Ok c"
    and "sc_Mode b = SANModeAllowlist \<or> sc_Mode b = SANModeIdentity \<and> \<not> id_Authenticated i"
  shows "allowlist G b i rec = Ok c"
  using Build_buildMode [OF assms(1)] assms(2)
  by (auto simp: buildMode_def Let_def SANModeIdentity_def SANModeAllowlist_def SANModeCSR_def)

end
