(* ===== verification/Authz_Verify.thy ===== *)
theory Authz_Verify
  imports Authz_Policy
begin

text \<open>
  The check of an issued certificate against what was approved,
  \<open>src/internal/authz/verify.go\<close>. The sum \<open>c.TTL + ttlSlack\<close> is 64-bit arithmetic and wraps
  around; the lifetime is \<open>Time.Sub\<close>, which saturates.
\<close>

definition ttlSlack :: duration where "ttlSlack = hour"

datatype verify_error =
    NoCertificate
  | CNMismatch string string
  | UnauthorizedDNS string
  | UnauthorizedIP string
  | UnauthorizedURI string
  | LifetimeExceeds duration duration

text \<open>
  \<open>equalFoldASCII\<close> compares byte by byte; the addition to a byte in \<open>'A'..'Z'\<close> does not
  overflow.
\<close>

definition foldByte :: "char \<Rightarrow> nat" where
  "foldByte c = (let b = byteOf c in if 65 \<le> b \<and> b \<le> 90 then b + 32 else b)"

fun foldLoop :: "string \<Rightarrow> string \<Rightarrow> bool" where
  "foldLoop (a # as) (b # bs) = (if foldByte a \<noteq> foldByte b then False else foldLoop as bs)"
| "foldLoop _ _ = True"

definition equalFoldASCII :: "string \<Rightarrow> string \<Rightarrow> bool" where
  "equalFoldASCII a b = (if length a \<noteq> length b then False else foldLoop a b)"

fun containsFold :: "string list \<Rightarrow> string \<Rightarrow> bool" where
  "containsFold [] want = False"
| "containsFold (v # vs) want = (if equalFoldASCII v want then True else containsFold vs want)"

fun containsIP :: "golib \<Rightarrow> string list \<Rightarrow> string \<Rightarrow> bool" where
  "containsIP G [] want = False"
| "containsIP G (v # vs) want =
    (if (case lib_parseIP G v of Some parsed \<Rightarrow> ipEqual parsed want | None \<Rightarrow> False)
     then True else containsIP G vs want)"

definition permittedDNS :: "CertConstraints \<Rightarrow> string list" where
  "permittedDNS c =
    (if cc_CommonName c \<noteq> '''' \<and> \<not> cc_ExcludeCNFromSANs c
     then cc_DNSNames c @ [cc_CommonName c] else cc_DNSNames c)"

definition verifyNames :: "golib \<Rightarrow> certificate \<Rightarrow> CertConstraints \<Rightarrow> (verify_error, unit) result" where
  "verifyNames G cert c =
    (if cc_CommonName c \<noteq> '''' \<and> \<not> equalFoldASCII (nm_CommonName (crt_Subject cert)) (cc_CommonName c)
     then Err (CNMismatch (nm_CommonName (crt_Subject cert)) (cc_CommonName c))
     else case find (\<lambda>name. \<not> containsFold (permittedDNS c) name) (crt_DNSNames cert) of
       Some name \<Rightarrow> Err (UnauthorizedDNS name)
     | None \<Rightarrow> (case find (\<lambda>ip. \<not> containsIP G (cc_IPs c) ip) (crt_IPAddresses cert) of
         Some ip \<Rightarrow> Err (UnauthorizedIP ip)
       | None \<Rightarrow> (case find (\<lambda>u. \<not> containsFold (cc_URIs c) (urlString u)) (crt_URIs cert) of
           Some u \<Rightarrow> Err (UnauthorizedURI (urlString u))
         | None \<Rightarrow> Ok ())))"

definition VerifyIssued ::
  "golib \<Rightarrow> certificate option \<Rightarrow> CertConstraints \<Rightarrow> (verify_error, unit) result" where
  "VerifyIssued G crt c =
    (case crt of
       None \<Rightarrow> Err NoCertificate
     | Some cert \<Rightarrow>
        (case (if namesConstrained c then verifyNames G cert c else Ok ()) of
           Inl e \<Rightarrow> Err e
         | Inr _ \<Rightarrow>
            if cc_TTL c > 0 then
              (let lifetime = time_Sub (crt_NotAfter cert) (crt_NotBefore cert)
               in if lifetime > wrap64 (cc_TTL c + ttlSlack)
                  then Err (LifetimeExceeds lifetime (cc_TTL c)) else Ok ())
            else Ok ()))"

section \<open>Lemmas\<close>

lemma foldLoop_map: "length a = length b \<Longrightarrow> foldLoop a b \<longleftrightarrow> map foldByte a = map foldByte b"
  by (induction a b rule: list_induct2) auto

lemma equalFoldASCII_map: "equalFoldASCII a b \<longleftrightarrow> map foldByte a = map foldByte b"
  using foldLoop_map [of a b] map_eq_imp_length_eq [of foldByte a foldByte b]
  by (auto simp: equalFoldASCII_def)

lemma equalFoldASCII_refl [simp]: "equalFoldASCII a a"
  by (simp add: equalFoldASCII_map)

lemma equalFoldASCII_sym: "equalFoldASCII a b \<longleftrightarrow> equalFoldASCII b a"
  by (auto simp: equalFoldASCII_map)

lemma equalFoldASCII_trans: "equalFoldASCII a b \<Longrightarrow> equalFoldASCII b c \<Longrightarrow> equalFoldASCII a c"
  by (simp add: equalFoldASCII_map)

lemma containsFold_iff: "containsFold vs w \<longleftrightarrow> (\<exists>v\<in>set vs. equalFoldASCII v w)"
  by (induction vs) auto

lemma containsIP_iff:
  "containsIP G vs w \<longleftrightarrow> (\<exists>v\<in>set vs. \<exists>p. lib_parseIP G v = Some p \<and> ipEqual p w)"
  by (induction vs) (auto split: option.splits)

lemma verifyNames_Ok_iff:
  "verifyNames G cert c = Ok () \<longleftrightarrow>
     (cc_CommonName c \<noteq> '''' \<longrightarrow> equalFoldASCII (nm_CommonName (crt_Subject cert)) (cc_CommonName c)) \<and>
     (\<forall>n\<in>set (crt_DNSNames cert). containsFold (permittedDNS c) n) \<and>
     (\<forall>ip\<in>set (crt_IPAddresses cert). containsIP G (cc_IPs c) ip) \<and>
     (\<forall>u\<in>set (crt_URIs cert). containsFold (cc_URIs c) (urlString u))"
  by (auto simp: verifyNames_def find_None_iff find_Some_iff split: option.splits)

lemma VerifyIssued_Ok_iff:
  "VerifyIssued G crt c = Ok () \<longleftrightarrow>
     (\<exists>cert. crt = Some cert \<and>
        (namesConstrained c \<longrightarrow> verifyNames G cert c = Ok ()) \<and>
        (cc_TTL c > 0 \<longrightarrow>
           time_Sub (crt_NotAfter cert) (crt_NotBefore cert) \<le> wrap64 (cc_TTL c + ttlSlack)))"
  by (cases crt; cases "verifyNames G (the crt) c") (auto simp: VerifyIssued_def Let_def)

end
