(* ===== verification/Bao_Types.thy ===== *)
theory Bao_Types
  imports Authz_Verify Go_Encoding Scep_Replay
begin

text \<open>
  What the protocol handlers and the OpenBao client share: the certificate bundle and the options
  of a signing request (\<open>src/internal/bao/pki.go\<close>), the interface \<open>Enroller\<close> that the handlers
  call, and the events by which the model records what a handler did, in order: an authorization
  with its outcome, a call to OpenBao, an audit record.

  An enroller is a record of functions over its own state; each call takes the upstream timeout
  and returns a bundle or an error.
\<close>

record CertBundle =
  cb_Certificate :: string
  cb_IssuingCA :: string
  cb_CAChain :: "string list"
  cb_PrivateKey :: string
  cb_SerialNumber :: string

datatype jsonVal = JStr string | JBool bool | JInt int

record SignOptions =
  so_CommonName :: string
  so_AltNames :: "string list"
  so_IPSANs :: "string list"
  so_URISANs :: "string list"
  so_TTL :: string
  so_ExcludeCNFromSANs :: bool
  so_KeyType :: string
  so_KeyBits :: int
  so_Extra :: "(string, jsonVal) gomap"

record 'b enroller =
  en_Sign :: "duration \<Rightarrow> string \<Rightarrow> string \<Rightarrow> SignOptions \<Rightarrow> 'b \<Rightarrow> (string, CertBundle) result \<times> 'b"
  en_Issue :: "duration \<Rightarrow> string \<Rightarrow> string \<Rightarrow> SignOptions \<Rightarrow> 'b \<Rightarrow> (string, CertBundle) result \<times> 'b"
  en_CAChain :: "duration \<Rightarrow> 'b \<Rightarrow> (string, string) result \<times> 'b"

definition toSignOptions :: "CertConstraints \<Rightarrow> SignOptions" where
  "toSignOptions c = \<lparr>so_CommonName = cc_CommonName c, so_AltNames = cc_DNSNames c, so_IPSANs = cc_IPs c,
     so_URISANs = cc_URIs c, so_TTL = (if cc_TTL c > 0 then durString (cc_TTL c) else ''''),
     so_ExcludeCNFromSANs = cc_ExcludeCNFromSANs c, so_KeyType = '''', so_KeyBits = 0, so_Extra = gm_empty\<rparr>"

section \<open>Events\<close>

datatype audit_val = AText string | AReason reason | ABool bool | AVerify verify_error

datatype event =
    AuthorizeEv Request "(string, Decision) result"
  | SignEv string string SignOptions
  | IssueEv string string SignOptions
  | AuditEv "(string \<times> audit_val) list"

text \<open>
  The state of the process that the handlers work on: the authorizer's, OpenBao's, the replay cache of
  SCEP, and the events so far.
\<close>

record ('s, 'b) broker_world =
  bw_authz :: 's
  bw_bao :: 'b
  bw_replay :: ReplayCache
  bw_trace :: "event list"

definition emit :: "event \<Rightarrow> ('s, 'b) broker_world \<Rightarrow> ('s, 'b) broker_world" where
  "emit e w = w\<lparr>bw_trace := bw_trace w @ [e]\<rparr>"

text \<open>The zero \<open>Decision\<close>, which accompanies an error of an authorizer.\<close>

definition zeroDecision :: Decision where
  "zeroDecision = \<lparr>dc_Allow = False, dc_Role = '''', dc_Constraints = noConstraints, dc_Reason = Reason ''''\<rparr>"

definition callAuthorize :: "'s authorizer \<Rightarrow> Request \<Rightarrow> ('s, 'b) broker_world
   \<Rightarrow> (string, Decision) result \<times> ('s, 'b) broker_world" where
  "callAuthorize az req w =
    (let (res, s') = az req (bw_authz w) in (res, emit (AuthorizeEv req res) (w\<lparr>bw_authz := s'\<rparr>)))"

definition callSign :: "'b enroller \<Rightarrow> duration \<Rightarrow> string \<Rightarrow> string \<Rightarrow> SignOptions \<Rightarrow> ('s, 'b) broker_world
   \<Rightarrow> (string, CertBundle) result \<times> ('s, 'b) broker_world" where
  "callSign e t role csrPEM opts w =
    (let (res, b') = en_Sign e t role csrPEM opts (bw_bao w)
     in (res, emit (SignEv role csrPEM opts) (w\<lparr>bw_bao := b'\<rparr>)))"

definition callIssue :: "'b enroller \<Rightarrow> duration \<Rightarrow> string \<Rightarrow> string \<Rightarrow> SignOptions \<Rightarrow> ('s, 'b) broker_world
   \<Rightarrow> (string, CertBundle) result \<times> ('s, 'b) broker_world" where
  "callIssue e t role cn opts w =
    (let (res, b') = en_Issue e t role cn opts (bw_bao w)
     in (res, emit (IssueEv role cn opts) (w\<lparr>bw_bao := b'\<rparr>)))"

definition callCAChain :: "'b enroller \<Rightarrow> duration \<Rightarrow> ('s, 'b) broker_world
   \<Rightarrow> (string, string) result \<times> ('s, 'b) broker_world" where
  "callCAChain e t w = (let (res, b') = en_CAChain e t (bw_bao w) in (res, w\<lparr>bw_bao := b'\<rparr>))"

section \<open>Lemmas\<close>

lemma emit_simps [simp]:
  "bw_trace (emit e w) = bw_trace w @ [e]" "bw_authz (emit e w) = bw_authz w" "bw_bao (emit e w) = bw_bao w"
  "bw_replay (emit e w) = bw_replay w"
  by (simp_all add: emit_def)

lemma callAuthorize_trace [simp]:
  "bw_trace (snd (callAuthorize az req w)) = bw_trace w @ [AuthorizeEv req (fst (callAuthorize az req w))]"
  "fst (callAuthorize az req w) = fst (az req (bw_authz w))"
  "bw_authz (snd (callAuthorize az req w)) = snd (az req (bw_authz w))"
  "bw_bao (snd (callAuthorize az req w)) = bw_bao w"
  by (simp_all add: callAuthorize_def split_def Let_def)

lemma callSign_trace [simp]:
  "bw_trace (snd (callSign e t role csrPEM opts w)) = bw_trace w @ [SignEv role csrPEM opts]"
  "fst (callSign e t role csrPEM opts w) = fst (en_Sign e t role csrPEM opts (bw_bao w))"
  "bw_authz (snd (callSign e t role csrPEM opts w)) = bw_authz w"
  by (simp_all add: callSign_def split_def Let_def)

lemma callIssue_trace [simp]:
  "bw_trace (snd (callIssue e t role cn opts w)) = bw_trace w @ [IssueEv role cn opts]"
  "fst (callIssue e t role cn opts w) = fst (en_Issue e t role cn opts (bw_bao w))"
  "bw_authz (snd (callIssue e t role cn opts w)) = bw_authz w"
  by (simp_all add: callIssue_def split_def Let_def)

lemma callCAChain_trace [simp]:
  "bw_trace (snd (callCAChain e t w)) = bw_trace w" "bw_authz (snd (callCAChain e t w)) = bw_authz w"
  by (simp_all add: callCAChain_def split_def Let_def)

section \<open>Issuance only on a grant\<close>

text \<open>
  The order of events that a handler must keep: a call to OpenBao for a certificate follows an
  authorization that allowed, with the role and the options of that decision, and uses it up.
  The first argument is the decision that is still to be used.
\<close>

definition grantOf :: "(string, Decision) result \<Rightarrow> Decision option" where
  "grantOf res = (case res of Inl _ \<Rightarrow> None | Inr d \<Rightarrow> if dc_Allow d then Some d else None)"

fun issuance_gated :: "Decision option \<Rightarrow> event list \<Rightarrow> bool" where
  "issuance_gated g [] = True"
| "issuance_gated g (AuthorizeEv req res # es) = issuance_gated (grantOf res) es"
| "issuance_gated g (SignEv role csr opts # es) =
    (case g of None \<Rightarrow> False
     | Some d \<Rightarrow> role = dc_Role d \<and> opts = toSignOptions (dc_Constraints d) \<and> issuance_gated None es)"
| "issuance_gated g (IssueEv role cn opts # es) =
    (case g of None \<Rightarrow> False
     | Some d \<Rightarrow> role = dc_Role d \<and> cn = cc_CommonName (dc_Constraints d)
         \<and> opts\<lparr>so_KeyType := '''', so_KeyBits := 0\<rparr> = toSignOptions (dc_Constraints d) \<and> issuance_gated None es)"
| "issuance_gated g (AuditEv a # es) = issuance_gated g es"

lemma issuance_gated_weaken: "issuance_gated None es \<Longrightarrow> issuance_gated g es"
  by (induction g es rule: issuance_gated.induct) auto

lemma issuance_gated_append: "issuance_gated g es \<Longrightarrow> issuance_gated None fs \<Longrightarrow> issuance_gated g (es @ fs)"
  by (induction g es rule: issuance_gated.induct) (auto simp: issuance_gated_weaken split: option.splits)

text \<open>
  The interface of a protocol handler: it only extends the trace, and by a gated one. The
  histories of its requests are then gated too.
\<close>

locale issuing_handler =
  fixes handle :: "'r \<Rightarrow> ('s, 'b) broker_world \<Rightarrow> 'a \<times> ('s, 'b) broker_world"
  assumes handle_gated: "\<exists>new. bw_trace (snd (handle r w)) = bw_trace w @ new \<and> issuance_gated None new"
begin

lemma fold_gated: "\<exists>new. bw_trace (fold (\<lambda>r w. snd (handle r w)) rs w) = bw_trace w @ new \<and> issuance_gated None new"
proof (induction rs arbitrary: w)
  case Nil
  show ?case by simp
next
  case (Cons r rs)
  obtain a where a: "bw_trace (snd (handle r w)) = bw_trace w @ a" "issuance_gated None a"
    using handle_gated by blast
  obtain b where "bw_trace (fold (\<lambda>r w. snd (handle r w)) rs (snd (handle r w))) = bw_trace (snd (handle r w)) @ b"
    "issuance_gated None b"
    using Cons.IH by blast
  with a show ?case by (auto intro: issuance_gated_append)
qed

end

end
