(* ===== verification/Authz_Inventory.thy ===== *)
theory Authz_Inventory
  imports Authz_Match
begin

text \<open>
  The device inventory, \<open>src/internal/authz/inventory.go\<close>: the permissive backend and the
  allowlist read from a YAML file. Reading the file and decoding YAML are arguments of the
  model; the check that every entry has a match key is the broker's own.
\<close>

type_synonym inventory = "Identity \<Rightarrow> (string, Record) result"

definition NoInventory_Lookup :: inventory where
  "NoInventory_Lookup i = Ok \<lparr>rec_Found = True, rec_AllowedDNSNames = [],
     rec_RequireChallenge = False, rec_Role = ''''\<rparr>"

record deviceEntry =
  de_CN :: string
  de_Serial :: string
  de_Fingerprint :: string
  de_AllowedDNSNames :: "string list"
  de_RequireChallenge :: bool
  de_Role :: string

record FileInventory =
  fi_path :: string
  fi_devices :: "deviceEntry list"

datatype inventory_error = InvRead string | InvParse string | InvNoMatchKey nat

definition hasMatchKey :: "deviceEntry \<Rightarrow> bool" where
  "hasMatchKey d = (\<not> (de_CN d = '''' \<and> de_Serial d = '''' \<and> de_Fingerprint d = ''''))"

fun firstWithoutKey :: "nat \<Rightarrow> deviceEntry list \<Rightarrow> nat option" where
  "firstWithoutKey i [] = None"
| "firstWithoutKey i (d # ds) = (if \<not> hasMatchKey d then Some i else firstWithoutKey (Suc i) ds)"

definition FileInventory_Reload ::
  "(string \<Rightarrow> (string, string) result) \<Rightarrow> (string \<Rightarrow> (string, deviceEntry list) result)
   \<Rightarrow> FileInventory \<Rightarrow> (inventory_error, unit) result \<times> FileInventory" where
  "FileInventory_Reload readFile yamlUnmarshal f =
    (case readFile (fi_path f) of
       Inl e \<Rightarrow> (Err (InvRead e), f)
     | Inr raw \<Rightarrow> (case yamlUnmarshal raw of
         Inl e \<Rightarrow> (Err (InvParse e), f)
       | Inr devices \<Rightarrow> (case firstWithoutKey 0 devices of
           Some i \<Rightarrow> (Err (InvNoMatchKey i), f)
         | None \<Rightarrow> (Ok (), f\<lparr>fi_devices := devices\<rparr>))))"

definition NewFileInventory ::
  "(string \<Rightarrow> (string, string) result) \<Rightarrow> (string \<Rightarrow> (string, deviceEntry list) result)
   \<Rightarrow> string \<Rightarrow> (inventory_error, FileInventory) result" where
  "NewFileInventory readFile yamlUnmarshal path =
    (case FileInventory_Reload readFile yamlUnmarshal \<lparr>fi_path = path, fi_devices = []\<rparr> of
       (Inl e, _) \<Rightarrow> Err e
     | (Inr _, f) \<Rightarrow> Ok f)"

definition entryMatches :: "golib \<Rightarrow> deviceEntry \<Rightarrow> Identity \<Rightarrow> string \<Rightarrow> bool" where
  "entryMatches G d i cn =
    (if de_CN d \<noteq> '''' \<and> \<not> globMatch G (de_CN d) cn then False
     else if de_Serial d \<noteq> '''' \<and> \<not> equalFold (lib_unicode G) (de_Serial d) (id_Serial i) then False
     else if de_Fingerprint d \<noteq> '''' \<and>
        \<not> equalFold (lib_unicode G) (de_Fingerprint d) (id_Fingerprint i) then False
     else True)"

fun lookupDevices :: "golib \<Rightarrow> deviceEntry list \<Rightarrow> Identity \<Rightarrow> string \<Rightarrow> Record" where
  "lookupDevices G [] i cn = \<lparr>rec_Found = False, rec_AllowedDNSNames = [],
     rec_RequireChallenge = False, rec_Role = ''''\<rparr>"
| "lookupDevices G (d # ds) i cn =
    (if \<not> entryMatches G d i cn then lookupDevices G ds i cn
     else \<lparr>rec_Found = True, rec_AllowedDNSNames = de_AllowedDNSNames d,
            rec_RequireChallenge = de_RequireChallenge d, rec_Role = de_Role d\<rparr>)"

definition FileInventory_Lookup :: "golib \<Rightarrow> FileInventory \<Rightarrow> inventory" where
  "FileInventory_Lookup G f i =
    (let cn = (if id_CommonName i = '''' then id_RequestedCN i else id_CommonName i)
     in Ok (lookupDevices G (fi_devices f) i cn))"

section \<open>Lemmas\<close>

text \<open>The invariant of a loaded inventory: every entry has at least one match key.\<close>

definition inventory_wf :: "FileInventory \<Rightarrow> bool" where
  "inventory_wf f = list_all hasMatchKey (fi_devices f)"

lemma firstWithoutKey_None: "firstWithoutKey n ds = None \<longleftrightarrow> list_all hasMatchKey ds"
  by (induction ds arbitrary: n) auto

lemma firstWithoutKey_Some:
  "firstWithoutKey n ds = Some i \<Longrightarrow>
     n \<le> i \<and> i < n + length ds \<and> \<not> hasMatchKey (ds ! (i - n)) \<and> list_all hasMatchKey (take (i - n) ds)"
proof (induction ds arbitrary: n)
  case (Cons d ds)
  show ?case
  proof (cases "hasMatchKey d")
    case True
    with Cons.IH [of "Suc n"] Cons.prems have "Suc n \<le> i \<and> i < Suc n + length ds \<and> \<not> hasMatchKey (ds ! (i - Suc n))
      \<and> list_all hasMatchKey (take (i - Suc n) ds)" by simp
    moreover from this obtain k where "i = Suc n + k" using le_Suc_ex by blast
    ultimately show ?thesis using True by simp
  next
    case False
    with Cons.prems show ?thesis by simp
  qed
qed simp

lemma runes_Nil_iff: "runes s = [] \<longleftrightarrow> s = []"
  by (cases s) (auto simp: runes_def Let_def)

lemma equalFold_Nil: "equalFold u s [] \<longleftrightarrow> s = []"
  by (cases s) (auto simp: equalFold_def runes_def Let_def)

lemma entryMatches_iff:
  "entryMatches G d i cn \<longleftrightarrow>
     (de_CN d = '''' \<or> globMatch G (de_CN d) cn) \<and>
     (de_Serial d = '''' \<or> equalFold (lib_unicode G) (de_Serial d) (id_Serial i)) \<and>
     (de_Fingerprint d = '''' \<or> equalFold (lib_unicode G) (de_Fingerprint d) (id_Fingerprint i))"
  by (auto simp: entryMatches_def)

text \<open>An entry that pins a serial number or a fingerprint never matches an anonymous request.\<close>

lemma entryMatches_anonymous:
  assumes "entryMatches G d i cn" "id_Serial i = ''''" "id_Fingerprint i = ''''"
  shows "de_Serial d = '''' \<and> de_Fingerprint d = ''''"
  using assms by (auto simp: entryMatches_iff equalFold_Nil)

lemma lookupDevices_find:
  "lookupDevices G ds i cn =
     (case find (\<lambda>d. entryMatches G d i cn) ds of
        None \<Rightarrow> \<lparr>rec_Found = False, rec_AllowedDNSNames = [], rec_RequireChallenge = False,
                 rec_Role = ''''\<rparr>
      | Some d \<Rightarrow> \<lparr>rec_Found = True, rec_AllowedDNSNames = de_AllowedDNSNames d,
                 rec_RequireChallenge = de_RequireChallenge d, rec_Role = de_Role d\<rparr>)"
  by (induction ds) auto

lemma lookupDevices_Found:
  "rec_Found (lookupDevices G ds i cn) \<Longrightarrow>
     \<exists>d\<in>set ds. entryMatches G d i cn \<and>
        rec_AllowedDNSNames (lookupDevices G ds i cn) = de_AllowedDNSNames d \<and>
        rec_RequireChallenge (lookupDevices G ds i cn) = de_RequireChallenge d \<and>
        rec_Role (lookupDevices G ds i cn) = de_Role d"
  by (induction ds) auto

lemma Reload_keeps_wf:
  assumes "inventory_wf f" "FileInventory_Reload rd ym f = (r, f')"
  shows "inventory_wf f'"
  using assms
  by (auto simp: FileInventory_Reload_def inventory_wf_def firstWithoutKey_None
      split: sum.splits option.splits)

end
