(* ===== verification/Authz_Challenge.thy ===== *)
theory Authz_Challenge
  imports Authz_Types
begin

text \<open>
  Challenge validation, \<open>src/internal/authz/challenge.go\<close>: the validator that accepts
  everything, the shared secret, and the store of one-time codes. The clock is an argument: a
  call reads it at most once.

  The locale \<open>challenge_validator\<close> is the contract the pipeline relies on: no validator that
  meets it accepts an empty secret, and it keeps its own state well formed. The shared secret and
  the store meet it; \<open>NoChallenge\<close> does not.
\<close>

datatype challenge_error = ErrChallenge | ChallengeOther string

type_synonym 's validator = "Identity \<Rightarrow> string \<Rightarrow> 's \<Rightarrow> (challenge_error, unit) result \<times> 's"

definition NoChallenge_Validate :: "'s validator" where
  "NoChallenge_Validate i provided s = (Ok (), s)"

section \<open>The shared secret\<close>

record StaticSecret =
  ss_secret :: string

datatype secret_error = EmptyStaticSecret

definition NewStaticSecret :: "string \<Rightarrow> (secret_error, StaticSecret) result" where
  "NewStaticSecret secret = (if secret = '''' then Err EmptyStaticSecret else Ok \<lparr>ss_secret = secret\<rparr>)"

text \<open>\<open>subtle.ConstantTimeCompare\<close> is 1 exactly when the contents are equal.\<close>

definition constantTimeCompare :: "string \<Rightarrow> string \<Rightarrow> nat" where
  "constantTimeCompare x y = (if x = y then 1 else 0)"

definition StaticSecret_Validate :: "StaticSecret validator" where
  "StaticSecret_Validate i provided s =
    (if constantTimeCompare provided (ss_secret s) \<noteq> 1 then (Err ErrChallenge, s) else (Ok (), s))"

section \<open>The store of one-time codes\<close>

record otp =
  otp_secret :: string
  otp_expires :: time

record MemoryStore =
  ms_codes :: "(string, otp) gomap"

definition NewMemoryStore :: MemoryStore where
  "NewMemoryStore = \<lparr>ms_codes = gm_empty\<rparr>"

definition MemoryStore_Add :: "time \<Rightarrow> string \<Rightarrow> string \<Rightarrow> duration \<Rightarrow> MemoryStore \<Rightarrow> MemoryStore" where
  "MemoryStore_Add now key code ttl m =
    m\<lparr>ms_codes := gm_put key \<lparr>otp_secret = code, otp_expires = now + ttl\<rparr> (ms_codes m)\<rparr>"

definition candidateKeys :: "Identity \<Rightarrow> string list" where
  "candidateKeys i =
    (let k1 = (if id_CommonName i \<noteq> '''' then [id_CommonName i] else []);
         k2 = (if id_RequestedCN i \<noteq> '''' \<and> id_RequestedCN i \<noteq> id_CommonName i
               then [id_RequestedCN i] else []);
         k3 = (if id_Serial i \<noteq> '''' then [id_Serial i] else [])
     in k1 @ k2 @ k3)"

fun tryKeys :: "time \<Rightarrow> string list \<Rightarrow> string \<Rightarrow> MemoryStore
   \<Rightarrow> (challenge_error, unit) result \<times> MemoryStore" where
  "tryKeys now [] provided m = (Err ErrChallenge, m)"
| "tryKeys now (key # keys) provided m =
    (case gm_get (ms_codes m) key of
       None \<Rightarrow> tryKeys now keys provided m
     | Some code \<Rightarrow>
        if otp_expires code < now
        then (Err ErrChallenge, m\<lparr>ms_codes := gm_del key (ms_codes m)\<rparr>)
        else if constantTimeCompare provided (otp_secret code) \<noteq> 1 then (Err ErrChallenge, m)
        else (Ok (), m\<lparr>ms_codes := gm_del key (ms_codes m)\<rparr>))"

definition MemoryStore_Validate :: "time \<Rightarrow> MemoryStore validator" where
  "MemoryStore_Validate now i provided m =
    (if provided = '''' then (Err ErrChallenge, m)
     else tryKeys now (candidateKeys i) provided m)"

section \<open>The contract of a validator\<close>

locale challenge_validator =
  fixes validate :: "'s validator"
    and ok :: "'s \<Rightarrow> bool"
  assumes keeps_ok: "ok s \<Longrightarrow> ok (snd (validate i p s))"
    and rejects_empty: "ok s \<Longrightarrow> fst (validate i p s) = Ok () \<Longrightarrow> p \<noteq> ''''"
begin

text \<open>A run of validations keeps the state well formed, and no empty secret is accepted in it.\<close>

fun validate_run :: "(Identity \<times> string) list \<Rightarrow> 's \<Rightarrow> (bool list) \<times> 's" where
  "validate_run [] s = ([], s)"
| "validate_run ((i, p) # xs) s =
    (let r = validate i p s; rest = validate_run xs (snd r)
     in (is_ok (fst r) # fst rest, snd rest))"

lemma run_ok: "ok s \<Longrightarrow> ok (snd (validate_run xs s))"
  by (induction xs s rule: validate_run.induct) (auto simp: Let_def keeps_ok)

lemma run_rejects_empty:
  "ok s \<Longrightarrow> j < length xs \<Longrightarrow> fst (validate_run xs s) ! j \<Longrightarrow> snd (xs ! j) \<noteq> ''''"
proof (induction xs s arbitrary: j rule: validate_run.induct)
  case (2 i p xs s)
  show ?case
  proof (cases j)
    case 0
    with 2 show ?thesis
      by (auto simp: Let_def is_ok_def dest: rejects_empty split: sum.splits)
  next
    case (Suc j')
    with 2 show ?thesis by (auto simp: Let_def keeps_ok)
  qed
qed simp

end

definition static_ok :: "StaticSecret \<Rightarrow> bool" where
  "static_ok s = (ss_secret s \<noteq> '''')"

definition store_ok :: "MemoryStore \<Rightarrow> bool" where
  "store_ok m = gm_ok (ms_codes m)"

interpretation static: challenge_validator StaticSecret_Validate static_ok
  by unfold_locales
    (auto simp: StaticSecret_Validate_def static_ok_def constantTimeCompare_def split: if_splits)

lemma tryKeys_store_ok: "store_ok m \<Longrightarrow> store_ok (snd (tryKeys now ks p m))"
  by (induction now ks p m rule: tryKeys.induct)
    (auto simp: store_ok_def gm.ok_del split: option.split)

interpretation store: challenge_validator "MemoryStore_Validate now" store_ok for now
  by unfold_locales
    (auto simp: MemoryStore_Validate_def tryKeys_store_ok split: if_splits)

section \<open>Lemmas\<close>

lemma NewStaticSecret_ok: "NewStaticSecret x = Ok s \<Longrightarrow> static_ok s"
  by (auto simp: NewStaticSecret_def static_ok_def split: if_splits)

text \<open>The key a validation decides on: the first candidate that has a code.\<close>

definition activeKey :: "MemoryStore \<Rightarrow> Identity \<Rightarrow> string option" where
  "activeKey m i = find (\<lambda>k. gm_get (ms_codes m) k \<noteq> None) (candidateKeys i)"

lemma tryKeys_find:
  "tryKeys now ks p m =
    (case find (\<lambda>k. gm_get (ms_codes m) k \<noteq> None) ks of
       None \<Rightarrow> (Err ErrChallenge, m)
     | Some k \<Rightarrow>
        (case gm_get (ms_codes m) k of
           None \<Rightarrow> (Err ErrChallenge, m)
         | Some code \<Rightarrow>
            if otp_expires code < now then (Err ErrChallenge, m\<lparr>ms_codes := gm_del k (ms_codes m)\<rparr>)
            else if p \<noteq> otp_secret code then (Err ErrChallenge, m)
            else (Ok (), m\<lparr>ms_codes := gm_del k (ms_codes m)\<rparr>)))"
  by (induction ks) (auto simp: constantTimeCompare_def split: option.split)

lemma Validate_Ok_iff:
  "fst (MemoryStore_Validate now i p m) = Ok () \<longleftrightarrow>
    p \<noteq> '''' \<and> (\<exists>k code. activeKey m i = Some k \<and> gm_get (ms_codes m) k = Some code
       \<and> now \<le> otp_expires code \<and> p = otp_secret code)"
  by (auto simp: MemoryStore_Validate_def activeKey_def tryKeys_find split: option.splits)

lemma Validate_Ok_consumes:
  assumes "fst (MemoryStore_Validate now i p m) = Ok ()" "activeKey m i = Some k"
  shows "snd (MemoryStore_Validate now i p m) = m\<lparr>ms_codes := gm_del k (ms_codes m)\<rparr>"
  using assms
  by (auto simp: MemoryStore_Validate_def activeKey_def tryKeys_find split: option.splits if_splits)

text \<open>No validation adds a code or changes one: the codes only shrink.\<close>

lemma Validate_codes_sub:
  "store_ok m \<Longrightarrow> gm_get (ms_codes (snd (MemoryStore_Validate now i p m))) k = Some c
     \<Longrightarrow> gm_get (ms_codes m) k = Some c"
  by (auto simp: MemoryStore_Validate_def tryKeys_find store_ok_def gm.get_del
      split: option.splits if_splits)

section \<open>Histories of the store\<close>

text \<open>
  The mutex makes every call one step, so the calls of concurrent requests are some sequence of
  steps. \<open>store_consumed\<close> is the list of keys whose codes the successful validations used.
\<close>

datatype store_op = StoreAdd time string string duration | StoreValidate time Identity string

fun store_step :: "store_op \<Rightarrow> MemoryStore \<Rightarrow> MemoryStore" where
  "store_step (StoreAdd now key code ttl) m = MemoryStore_Add now key code ttl m"
| "store_step (StoreValidate now i p) m = snd (MemoryStore_Validate now i p m)"

fun store_used :: "store_op \<Rightarrow> MemoryStore \<Rightarrow> string list" where
  "store_used (StoreAdd now key code ttl) m = []"
| "store_used (StoreValidate now i p) m =
    (if is_ok (fst (MemoryStore_Validate now i p m)) then [the (activeKey m i)] else [])"

fun store_consumed :: "store_op list \<Rightarrow> MemoryStore \<Rightarrow> string list" where
  "store_consumed [] m = []"
| "store_consumed (x # xs) m = store_used x m @ store_consumed xs (store_step x m)"

definition store_adds :: "string \<Rightarrow> store_op list \<Rightarrow> nat" where
  "store_adds k xs = length (filter (\<lambda>x. case x of StoreAdd _ key _ _ \<Rightarrow> key = k | _ \<Rightarrow> False) xs)"

definition has_code :: "string \<Rightarrow> MemoryStore \<Rightarrow> nat" where
  "has_code k m = (if gm_get (ms_codes m) k = None then 0 else 1)"

lemma store_step_ok: "store_ok m \<Longrightarrow> store_ok (store_step x m)"
proof (cases x)
  case (StoreAdd now key code ttl)
  then show "store_ok m \<Longrightarrow> store_ok (store_step x m)"
    by (simp add: MemoryStore_Add_def store_ok_def gm.ok_put)
qed (simp add: store.keeps_ok)

lemma store_step_codes:
  assumes "store_ok m"
  shows "count_list (store_used x m) k + has_code k (store_step x m) \<le> has_code k m + store_adds k [x]"
proof (cases x)
  case (StoreAdd now key code ttl)
  with assms show ?thesis
    by (auto simp: store_ok_def has_code_def store_adds_def MemoryStore_Add_def gm.get_put)
next
  case (StoreValidate now i p)
  show ?thesis
  proof (cases "fst (MemoryStore_Validate now i p m) = Ok ()")
    case True
    then obtain j c where j: "activeKey m i = Some j" "gm_get (ms_codes m) j = Some c"
      by (auto simp: Validate_Ok_iff)
    show ?thesis
      using StoreValidate True j Validate_Ok_consumes [OF True j(1)] assms
      by (auto simp: has_code_def store_adds_def is_ok_def store_ok_def gm.get_del)
  next
    case False
    then have "\<not> is_ok (fst (MemoryStore_Validate now i p m))"
      by (auto simp: is_ok_def split: sum.splits)
    moreover have "has_code k (snd (MemoryStore_Validate now i p m)) \<le> has_code k m"
      using Validate_codes_sub [OF assms, of now i p k] by (auto simp: has_code_def)
    ultimately show ?thesis using StoreValidate by simp
  qed
qed

lemma store_consumed_bound:
  "store_ok m \<Longrightarrow> count_list (store_consumed xs m) k \<le> store_adds k xs + has_code k m"
proof (induction xs arbitrary: m)
  case (Cons x xs)
  have "count_list (store_consumed xs (store_step x m)) k \<le> store_adds k xs + has_code k (store_step x m)"
    using Cons store_step_ok by blast
  moreover have "store_adds k (x # xs) = store_adds k [x] + store_adds k xs"
    by (simp add: store_adds_def)
  ultimately show ?case using store_step_codes [OF Cons.prems, of x k] by simp
qed simp

end
