(* ===== verification/Authz_Pipeline.thy ===== *)
theory Authz_Pipeline
  imports Authz_Inventory Authz_Challenge Authz_Verify
begin

text \<open>
  The production authorizer, \<open>src/internal/authz/pipeline.go\<close>: identity, re-enrollment gate,
  inventory, challenge, authentication gate, role, constraints. The four interfaces it is made of
  are functions; \<open>None\<close> is a nil interface. The state is the state of the challenge validator.

  The locale \<open>named_authorizer\<close> is what the protocol handlers rely on: a decision that allows
  carries a role and constraints that name a subject. The pipeline meets it over the standard
  constraint policy, and so does the authorizer that denies everything.
\<close>

record 's Pipeline =
  pl_Inventory :: "inventory option"
  pl_Challenge :: "'s validator option"
  pl_Roles :: "(Identity \<Rightarrow> string) option"
  pl_Constraints :: "constraint_builder option"
  pl_RequireChallenge :: bool
  pl_AllowUnauthenticated :: bool

text \<open>
  Stage 4. The outcome is a denial, or whether a non-empty secret was validated, and the new state
  of the validator.
\<close>

definition challengeStage ::
  "'s Pipeline \<Rightarrow> Identity \<Rightarrow> Record \<Rightarrow> string \<Rightarrow> 's \<Rightarrow> (Decision, bool) result \<times> 's" where
  "challengeStage p i rec secret s =
    (if pl_RequireChallenge p \<or> rec_RequireChallenge rec then
       (case pl_Challenge p of
          None \<Rightarrow> (Err (Deny (Reason ''challenge required but no validator configured'')), s)
        | Some validate \<Rightarrow>
           (case validate i secret s of
              (Inl _, s') \<Rightarrow> (Err (Deny (Reason ''challenge validation failed'')), s')
            | (Inr _, s') \<Rightarrow> (Ok (secret \<noteq> ''''), s')))
     else if secret \<noteq> '''' \<and> pl_Challenge p \<noteq> None then
       (case the (pl_Challenge p) i secret s of
          (Inl _, s') \<Rightarrow> (Err (Deny (Reason ''challenge validation failed'')), s')
        | (Inr _, s') \<Rightarrow> (Ok True, s'))
     else (Ok False, s))"

text \<open>Stages 5 to 7: the authentication gate, the role and the constraints.\<close>

definition grantStage :: "'s Pipeline \<Rightarrow> Identity \<Rightarrow> Record \<Rightarrow> bool \<Rightarrow> Decision" where
  "grantStage p i rec challengeValidated =
    (if \<not> id_Authenticated i \<and> \<not> challengeValidated \<and> \<not> pl_AllowUnauthenticated p
     then Deny (Reason ''unauthenticated: no client certificate and no validated challenge'')
     else
       (let role = (if rec_Role rec = '''' \<and> pl_Roles p \<noteq> None then the (pl_Roles p) i
                    else rec_Role rec)
        in if role = '''' then Deny (Reason ''no OpenBao role for identity'')
           else (case pl_Constraints p of
               None \<Rightarrow> Deny (Reason ''no constraint policy configured'')
             | Some build \<Rightarrow>
                (case build i rec of
                   Inl e \<Rightarrow> Deny (ReasonErr e)
                 | Inr cons \<Rightarrow> \<lparr>dc_Allow = True, dc_Role = role, dc_Constraints = cons,
                                dc_Reason = Reason ''authorized''\<rparr>))))"

definition Pipeline_Authorize :: "golib \<Rightarrow> 's Pipeline \<Rightarrow> 's authorizer" where
  "Pipeline_Authorize G p req s =
    (let i = resolveIdentity G req in
     if rq_Operation req = OpSimpleReenroll \<and> \<not> id_Authenticated i
     then (Ok (Deny (Reason ''re-enrollment requires a client certificate'')), s)
     else
       (let inventory = (case pl_Inventory p of None \<Rightarrow> NoInventory_Lookup | Some f \<Rightarrow> f)
        in case inventory i of
             Inl e \<Rightarrow> (Err e, s)
           | Inr rec \<Rightarrow>
              if \<not> rec_Found rec then (Ok (Deny (Reason ''device not permitted by inventory'')), s)
              else (case challengeStage p i rec (rq_ChallengePassword req) s of
                      (Inl d, s') \<Rightarrow> (Ok d, s')
                    | (Inr validated, s') \<Rightarrow> (Ok (grantStage p i rec validated), s'))))"

section \<open>Lemmas\<close>

lemma grantStage_Allow:
  assumes "dc_Allow (grantStage p i rec v)"
  shows "id_Authenticated i \<or> v \<or> pl_AllowUnauthenticated p"
    and "dc_Role (grantStage p i rec v) \<noteq> ''''"
    and "\<exists>build. pl_Constraints p = Some build
           \<and> build i rec = Ok (dc_Constraints (grantStage p i rec v))"
    and "dc_Role (grantStage p i rec v) =
           (if rec_Role rec = '''' \<and> pl_Roles p \<noteq> None then the (pl_Roles p) i else rec_Role rec)"
  using assms unfolding grantStage_def Let_def
  by (auto split: if_splits option.splits sum.splits)

lemma challengeStage_denies: "challengeStage p i rec x s = (Inl d, s') \<Longrightarrow> \<not> dc_Allow d"
  by (auto simp: challengeStage_def split: if_splits option.splits prod.splits sum.splits)

text \<open>A stage that reports a validated challenge has called the validator with a non-empty secret.\<close>

lemma challengeStage_validated:
  assumes "challengeStage p i rec x s = (Inr True, s')"
  shows "x \<noteq> '''' \<and> (\<exists>validate. pl_Challenge p = Some validate \<and> validate i x s = (Ok (), s'))"
  using assms
  by (auto simp: challengeStage_def split: if_splits option.splits prod.splits sum.splits)

lemma challengeStage_required:
  assumes "challengeStage p i rec x s = (Inr v, s')"
    and "pl_RequireChallenge p \<or> rec_RequireChallenge rec"
  shows "\<exists>validate. pl_Challenge p = Some validate \<and> validate i x s = (Ok (), s') \<and> v = (x \<noteq> '''')"
  using assms
  by (auto simp: challengeStage_def split: if_splits option.splits prod.splits sum.splits)

text \<open>The record the pipeline works with: what its inventory answers.\<close>

definition pipelineRecord :: "'s Pipeline \<Rightarrow> Identity \<Rightarrow> (string, Record) result" where
  "pipelineRecord p i = (case pl_Inventory p of None \<Rightarrow> NoInventory_Lookup i | Some f \<Rightarrow> f i)"

lemma Authorize_stages:
  "Pipeline_Authorize G p req s =
    (let i = resolveIdentity G req in
     if rq_Operation req = OpSimpleReenroll \<and> rq_ClientCert req = None
     then (Ok (Deny (Reason ''re-enrollment requires a client certificate'')), s)
     else case pipelineRecord p i of
       Inl e \<Rightarrow> (Err e, s)
     | Inr rec \<Rightarrow>
        if \<not> rec_Found rec then (Ok (Deny (Reason ''device not permitted by inventory'')), s)
        else (let r = challengeStage p i rec (rq_ChallengePassword req) s in
              (Ok (case fst r of Inl d \<Rightarrow> d | Inr v \<Rightarrow> grantStage p i rec v), snd r)))"
  by (auto simp: Pipeline_Authorize_def pipelineRecord_def Let_def
      split: option.split sum.split prod.split)

text \<open>Every allowing run of the pipeline, taken apart.\<close>

lemma Authorize_Allow:
  assumes "Pipeline_Authorize G p req s = (Ok d, s')" and "dc_Allow d"
  obtains rec v where
    "pipelineRecord p (resolveIdentity G req) = Ok rec" "rec_Found rec"
    "rq_Operation req = OpSimpleReenroll \<Longrightarrow> rq_ClientCert req \<noteq> None"
    "challengeStage p (resolveIdentity G req) rec (rq_ChallengePassword req) s = (Inr v, s')"
    "d = grantStage p (resolveIdentity G req) rec v"
proof -
  let ?i = "resolveIdentity G req"
  from assms have reauth: "rq_Operation req = OpSimpleReenroll \<Longrightarrow> rq_ClientCert req \<noteq> None"
    by (auto simp: Authorize_stages Let_def split: if_splits)
  with assms obtain rec where rec: "pipelineRecord p ?i = Ok rec" "rec_Found rec"
    by (auto simp: Authorize_stages Let_def split: if_splits sum.splits)
  obtain r s1 where r: "challengeStage p ?i rec (rq_ChallengePassword req) s = (r, s1)"
    by (cases "challengeStage p ?i rec (rq_ChallengePassword req) s")
  have d: "d = (case r of Inl d \<Rightarrow> d | Inr v \<Rightarrow> grantStage p ?i rec v)" "s1 = s'"
    using assms(1) reauth rec r by (auto simp: Authorize_stages Let_def split: if_splits)
  with assms(2) r obtain v where "r = Inr v"
    by (cases r) (auto dest: challengeStage_denies)
  with d r reauth rec show thesis by (intro that) auto
qed

lemma Authorize_error_iff:
  "fst (Pipeline_Authorize G p req s) = Err e \<longleftrightarrow>
     pipelineRecord p (resolveIdentity G req) = Err e
     \<and> (rq_Operation req = OpSimpleReenroll \<longrightarrow> rq_ClientCert req \<noteq> None)"
  by (auto simp: Authorize_stages Let_def split: sum.splits)

section \<open>The contract of an authorizer\<close>

locale named_authorizer =
  fixes authorize :: "'s authorizer"
  assumes allow_role: "authorize req s = (Ok d, s') \<Longrightarrow> dc_Allow d \<Longrightarrow> dc_Role d \<noteq> ''''"
    and allow_named: "authorize req s = (Ok d, s') \<Longrightarrow> dc_Allow d \<Longrightarrow> namesConstrained (dc_Constraints d)"
begin

text \<open>
  For a client that delivers only certificates \<open>VerifyIssued\<close> accepts, the check of names is
  never skipped.
\<close>

lemma delivered_names_checked:
  assumes "authorize req s = (Ok d, s')" "dc_Allow d"
    and "VerifyIssued G (Some cert) (dc_Constraints d) = Ok ()"
  shows "verifyNames G cert (dc_Constraints d) = Ok ()"
  using assms allow_named by (auto simp: VerifyIssued_Ok_iff)

end

definition standardPipeline ::
  "golib \<Rightarrow> inventory option \<Rightarrow> 's validator option \<Rightarrow> RuleSelector \<Rightarrow> StandardConstraints
   \<Rightarrow> bool \<Rightarrow> bool \<Rightarrow> 's Pipeline" where
  "standardPipeline G iv ch roles cons requireCh allowUnauth =
    \<lparr>pl_Inventory = iv, pl_Challenge = ch, pl_Roles = Some (RuleSelector_Role G roles),
     pl_Constraints = Some (StandardConstraints_Build G cons),
     pl_RequireChallenge = requireCh, pl_AllowUnauthenticated = allowUnauth\<rparr>"

lemma standardPipeline_simps [simp]:
  "pl_Inventory (standardPipeline G iv ch roles cons rc au) = iv"
  "pl_Challenge (standardPipeline G iv ch roles cons rc au) = ch"
  "pl_Roles (standardPipeline G iv ch roles cons rc au) = Some (RuleSelector_Role G roles)"
  "pl_Constraints (standardPipeline G iv ch roles cons rc au) = Some (StandardConstraints_Build G cons)"
  "pl_RequireChallenge (standardPipeline G iv ch roles cons rc au) = rc"
  "pl_AllowUnauthenticated (standardPipeline G iv ch roles cons rc au) = au"
  by (simp_all add: standardPipeline_def)

interpretation denyall: named_authorizer "DenyAll_Authorize"
  by unfold_locales (auto simp: DenyAll_Authorize_def)

lemma standard_allow_build:
  assumes "Pipeline_Authorize G (standardPipeline G iv ch roles cons rc au) req s = (Ok d, s')"
    and "dc_Allow d"
  obtains rec where
    "StandardConstraints_Build G cons (resolveIdentity G req) rec = Ok (dc_Constraints d)"
    "dc_Role d \<noteq> ''''"
    "pipelineRecord (standardPipeline G iv ch roles cons rc au) (resolveIdentity G req) = Ok rec"
proof -
  from assms obtain rec v where
    rec: "pipelineRecord (standardPipeline G iv ch roles cons rc au) (resolveIdentity G req) = Ok rec"
    and d: "d = grantStage (standardPipeline G iv ch roles cons rc au) (resolveIdentity G req) rec v"
    by (rule Authorize_Allow)
  from grantStage_Allow(2,3) [OF assms(2) [unfolded d]] rec d show thesis
    by (intro that) auto
qed

interpretation pipe: named_authorizer
  "Pipeline_Authorize G (standardPipeline G iv ch roles cons rc au)" for G iv ch roles cons rc au
proof
  fix req s d s'
  assume "Pipeline_Authorize G (standardPipeline G iv ch roles cons rc au) req s = (Ok d, s')"
    "dc_Allow d"
  then obtain rec where
    "StandardConstraints_Build G cons (resolveIdentity G req) rec = Ok (dc_Constraints d)"
    "dc_Role d \<noteq> ''''"
    by (rule standard_allow_build)
  then show "dc_Role d \<noteq> ''''" "namesConstrained (dc_Constraints d)"
    using std.names_subject by auto
qed

end
