(* ===== verification/Scep_Handler.thy ===== *)
theory Scep_Handler
  imports Scep_Message Bao_Types Authz_Pipeline
begin

text \<open>
  The SCEP endpoint, \<open>src/internal/scep/handler.go\<close>: construction, routing, GetCACert, GetCACaps
  and PKIOperation with the replay check, the authorization, the issuance and the signed response.

  A handler runs on the \<open>broker_world\<close> of the process. The time and the outcome of the random
  nonce are arguments. A call through a nil interface panics in the source; the server then closes
  the connection without a response, and the outcome is \<open>Panicked\<close>. Log messages that are not
  audit records are left out.
\<close>

section \<open>Options\<close>

definition scep_defaultMaxRequestBytes :: int where "scep_defaultMaxRequestBytes = 512 * 1024"
definition scep_defaultUpstreamTimeout :: duration where "scep_defaultUpstreamTimeout = 20 * second"
definition ctPKIOperation :: string where "ctPKIOperation = ''application/x-pki-message''"
definition ctCACertChain :: string where "ctCACertChain = ''application/x-x509-ca-ra-cert''"

record ('s, 'b) scep_Options =
  sp_RACert :: "certificate option"
  sp_RAKey :: "string option"
  sp_DeviceRoots :: "certPool option"
  sp_Enroller :: "'b enroller option"
  sp_Authorizer :: "'s authorizer option"
  sp_ParseCSR :: "(string \<Rightarrow> (string, certRequest) result) option"
  sp_ChallengePassword :: "(certRequest \<Rightarrow> (string, string) result) option"
  sp_VerifyIssued :: "(certificate option \<Rightarrow> CertConstraints \<Rightarrow> (verify_error, unit) result) option"
  sp_Digests :: "objectID list"
  sp_hasReplayCache :: bool
  sp_MaxRequestBytes :: int
  sp_UpstreamTimeout :: duration

record ('s, 'b) scep_handler =
  sh_opts :: "('s, 'b) scep_Options"
  sh_enroller :: "'b enroller"
  sh_raCert :: certificate
  sh_parser :: Parser
  sh_resp :: Responder
  sh_maxReq :: int
  sh_upstream :: duration

definition scep_NewHandler :: "('s, 'b) scep_Options \<Rightarrow> (string, ('s, 'b) scep_handler) result" where
  "scep_NewHandler opts =
    (case (sp_RACert opts, sp_RAKey opts) of
       (Some raCert, Some raKey) \<Rightarrow>
         (case sp_Enroller opts of
            None \<Rightarrow> Err ''scep: Enroller is required''
          | Some e \<Rightarrow>
             if sp_ParseCSR opts = None then Err ''scep: ParseCSR is required''
             else if \<not> sp_hasReplayCache opts then Err ''scep: ReplayCache is required''
             else Ok
               \<lparr>sh_opts = opts, sh_enroller = e, sh_raCert = raCert,
                sh_parser = \<lparr>pr_RACert = sp_RACert opts, pr_RAKey = sp_RAKey opts, pr_DeviceRoots = sp_DeviceRoots opts,
                  pr_Verifier = \<lparr>vf_Digests = sp_Digests opts\<rparr>, pr_ParseCSR = sp_ParseCSR opts\<rparr>,
                sh_resp = \<lparr>rs_RACert = sp_RACert opts, rs_RAKey = sp_RAKey opts\<rparr>,
                sh_maxReq = (if sp_MaxRequestBytes opts \<le> 0 then scep_defaultMaxRequestBytes else sp_MaxRequestBytes opts),
                sh_upstream = (if sp_UpstreamTimeout opts \<le> 0 then scep_defaultUpstreamTimeout else sp_UpstreamTimeout opts)\<rparr>)
     | _ \<Rightarrow> Err ''scep: RA certificate and key are required'')"

datatype scep_outcome = Responded http_response | Panicked

section \<open>Messages\<close>

definition readMessage :: "('s, 'b) scep_handler \<Rightarrow> http_request \<Rightarrow> (nat \<times> string, string) result" where
  "readMessage h r =
    (if hq_Method r = ''POST'' then
       (case readLimited r (nat (wrap64 (sh_maxReq h + 1))) of
          Inl _ \<Rightarrow> Err (StatusBadRequest, ''read body'')
        | Inr raw \<Rightarrow>
           if int (length raw) > sh_maxReq h then Err (StatusRequestEntityTooLarge, ''request too large'')
           else if raw = [] then Err (StatusBadRequest, ''empty request body'')
           else Ok raw)
     else if hq_Method r = ''GET'' then
       (let msg = hq_Query r ''message'' in
        if msg = [] then Err (StatusBadRequest, ''missing message parameter'')
        else if int (length msg) > sh_maxReq h then Err (StatusRequestEntityTooLarge, ''request too large'')
        else (case b64decode msg of None \<Rightarrow> Err (StatusBadRequest, ''invalid base64 message'') | Some der \<Rightarrow> Ok der))
     else Err (StatusMethodNotAllowed, ''method not allowed''))"

definition writePKIMessage :: "string \<Rightarrow> http_response" where
  "writePKIMessage der = \<lparr>hr_Status = StatusOK, hr_Header = [(''Content-Type'', ctPKIOperation)], hr_Body = der\<rparr>"

definition scep_fail :: "pkcs7lib \<Rightarrow> ('s, 'b) scep_handler \<Rightarrow> (string, string) result \<Rightarrow> scep_Request \<Rightarrow> FailInfo \<Rightarrow> http_response" where
  "scep_fail L h nonce req info =
    (case Responder_Failure L (sh_resp h) nonce req info of
       Inl _ \<Rightarrow> httpError ''internal error'' StatusInternalServerError
     | Inr out \<Rightarrow> writePKIMessage out)"

definition scep_challengePassword :: "('s, 'b) scep_handler \<Rightarrow> certRequest \<Rightarrow> string" where
  "scep_challengePassword h csr =
    (case sp_ChallengePassword (sh_opts h) of
       None \<Rightarrow> ''''
     | Some f \<Rightarrow> (case f csr of Inl _ \<Rightarrow> '''' | Inr cp \<Rightarrow> cp))"

definition authzRequest :: "('s, 'b) scep_handler \<Rightarrow> scep_Request \<Rightarrow> http_request \<Rightarrow> Request" where
  "authzRequest h req r =
    \<lparr>rq_Operation = (if at_MessageType (sr_Attributes req) = RenewalReq then OpSimpleReenroll else OpSimpleEnroll),
     rq_ClientCert = (if sr_SignerAuthenticated req then Some (sr_Signer req) else None),
     rq_CSR = Some (sr_CSR req),
     rq_ChallengePassword = scep_challengePassword h (sr_CSR req),
     rq_Label = '''', rq_RemoteAddr = hq_RemoteAddr r\<rparr>"

definition scep_attr :: "string \<Rightarrow> string \<Rightarrow> (string \<times> audit_val) list" where
  "scep_attr key v = (if v = '''' then [] else [(key, AText v)])"

definition scep_audit :: "scep_Request \<Rightarrow> Decision \<Rightarrow> string \<Rightarrow> string \<Rightarrow> audit_val option
   \<Rightarrow> ('s, 'b) broker_world \<Rightarrow> ('s, 'b) broker_world" where
  "scep_audit req d outcome remote err w = emit (AuditEv
     ([(''protocol'', AText ''scep''), (''op'', AText (MessageType_String (at_MessageType (sr_Attributes req)))),
       (''outcome'', AText outcome), (''remote'', AText remote),
       (''transaction_id'', AText (at_TransactionID (sr_Attributes req))),
       (''authenticated'', ABool (sr_SignerAuthenticated req))]
      @ scep_attr ''role'' (dc_Role d)
      @ (if dc_Reason d = Reason '''' then [] else [(''reason'', AReason (dc_Reason d))])
      @ [(''requested_cn'', AText (nm_CommonName (csr_Subject (sr_CSR req))))]
      @ scep_attr ''granted_cn'' (cc_CommonName (dc_Constraints d))
      @ (case err of None \<Rightarrow> [] | Some e \<Rightarrow> [(''err'', e)]))) w"

definition scep_toSignOptions :: "CertConstraints \<Rightarrow> SignOptions" where
  "scep_toSignOptions c = \<lparr>so_CommonName = cc_CommonName c, so_AltNames = cc_DNSNames c, so_IPSANs = cc_IPs c,
     so_URISANs = cc_URIs c, so_TTL = (if cc_TTL c > 0 then durString (cc_TTL c) else ''''),
     so_ExcludeCNFromSANs = cc_ExcludeCNFromSANs c, so_KeyType = '''', so_KeyBits = 0, so_Extra = gm_empty\<rparr>"

definition parseFirstCert :: "x509lib \<Rightarrow> string \<Rightarrow> (string, certificate) result" where
  "parseFirstCert X pemStr = (case xl_pemDecode X pemStr of
     None \<Rightarrow> Err ''expected a CERTIFICATE PEM block''
   | Some (blk, _) \<Rightarrow> if pb_Type blk \<noteq> ''CERTIFICATE'' then Err ''expected a CERTIFICATE PEM block''
                     else xl_parseCert X (pb_Bytes blk))"

section \<open>Operations\<close>

text \<open>The rest of \<open>pkiOperation\<close> after an allowing decision.\<close>

definition scep_issue :: "pkcs7lib \<Rightarrow> x509lib \<Rightarrow> ('s, 'b) scep_handler \<Rightarrow> (string, string) result \<Rightarrow> string
   \<Rightarrow> scep_Request \<Rightarrow> Decision \<Rightarrow> ('s, 'b) broker_world \<Rightarrow> http_response \<times> ('s, 'b) broker_world" where
  "scep_issue L X h nonce remote req d w =
    (let csrPEM = pemEncode ''CERTIFICATE REQUEST'' (csr_Raw (sr_CSR req));
         (res, w1) = callSign (sh_enroller h) (sh_upstream h) (dc_Role d) csrPEM (scep_toSignOptions (dc_Constraints d)) w
     in case res of
          Inl err \<Rightarrow> (scep_fail L h nonce req FailBadRequest, scep_audit req d ''issue-error'' remote (Some (AText err)) w1)
        | Inr bundle \<Rightarrow>
           (case parseFirstCert X (cb_Certificate bundle) of
              Inl _ \<Rightarrow> (scep_fail L h nonce req FailBadRequest, w1)
            | Inr issued \<Rightarrow>
               (case (case sp_VerifyIssued (sh_opts h) of None \<Rightarrow> Ok () | Some verify \<Rightarrow> verify (Some issued) (dc_Constraints d)) of
                  Inl e \<Rightarrow> (scep_fail L h nonce req FailBadRequest,
                           scep_audit req d ''constraint-violation'' remote (Some (AVerify e)) w1)
                | Inr _ \<Rightarrow>
                   (case Responder_Success L (sh_resp h) nonce req (Some issued) of
                      Inl _ \<Rightarrow> (httpError ''internal error'' StatusInternalServerError, w1)
                    | Inr out \<Rightarrow> (writePKIMessage out, scep_audit req d ''issued'' remote None w1)))))"

text \<open>From the parsed request on: the replay check, then the policy.\<close>

definition scep_process :: "golib \<Rightarrow> pkcs7lib \<Rightarrow> x509lib \<Rightarrow> ('s, 'b) scep_handler \<Rightarrow> time \<Rightarrow> (string, string) result
   \<Rightarrow> http_request \<Rightarrow> scep_Request \<Rightarrow> ('s, 'b) broker_world \<Rightarrow> scep_outcome \<times> ('s, 'b) broker_world" where
  "scep_process G L X h now nonce r req w =
    (let (fresh, cache) = ReplayCache_Check G now (at_TransactionID (sr_Attributes req)) (at_SenderNonce (sr_Attributes req)) (bw_replay w);
         w0 = w\<lparr>bw_replay := cache\<rparr>
     in if \<not> fresh then (Responded (scep_fail L h nonce req FailBadRequest), w0)
        else
          (case sp_Authorizer (sh_opts h) of
             None \<Rightarrow> (Panicked, w0)
           | Some az \<Rightarrow>
              (let (res, w1) = callAuthorize az (authzRequest h req r) w0
               in case res of
                    Inl err \<Rightarrow> (Responded (scep_fail L h nonce req FailBadRequest),
                               scep_audit req zeroDecision ''error'' (hq_RemoteAddr r) (Some (AText err)) w1)
                  | Inr d \<Rightarrow>
                     if \<not> dc_Allow d then (Responded (scep_fail L h nonce req FailBadRequest),
                                          scep_audit req d ''deny'' (hq_RemoteAddr r) None w1)
                     else (case scep_issue L X h nonce (hq_RemoteAddr r) req d w1 of (resp, w2) \<Rightarrow> (Responded resp, w2)))))"

definition pkiOperation :: "golib \<Rightarrow> pkcs7lib \<Rightarrow> x509lib \<Rightarrow> ('s, 'b) scep_handler \<Rightarrow> time \<Rightarrow> (string, string) result
   \<Rightarrow> http_request \<Rightarrow> ('s, 'b) broker_world \<Rightarrow> scep_outcome \<times> ('s, 'b) broker_world" where
  "pkiOperation G L X h now nonce r w =
    (case readMessage h r of
       Inl (status, msg) \<Rightarrow> (Responded (httpError msg status), w)
     | Inr body \<Rightarrow>
        (case Parse L (sh_parser h) body of
           Inl _ \<Rightarrow> (Responded (httpError ''bad request'' StatusBadRequest), w)
         | Inr req \<Rightarrow> scep_process G L X h now nonce r req w))"

text \<open>
  The loop of \<open>caChainCerts\<close>; as in EST, the length of the input bounds its rounds.
\<close>

fun chainLoop :: "x509lib \<Rightarrow> nat \<Rightarrow> string \<Rightarrow> (string, certificate list) result" where
  "chainLoop X 0 rest = Ok []"
| "chainLoop X (Suc fuel) rest =
    (case xl_pemDecode X rest of
       None \<Rightarrow> Ok []
     | Some (blk, r) \<Rightarrow>
        if pb_Type blk = ''CERTIFICATE'' then
          (case xl_parseCert X (pb_Bytes blk) of
             Inl err \<Rightarrow> Err (''parse CA chain: '' @ err)
           | Inr c \<Rightarrow> (case chainLoop X fuel r of Inl e \<Rightarrow> Err e | Inr cs \<Rightarrow> Ok (c # cs)))
        else chainLoop X fuel r)"

definition caChainCerts :: "x509lib \<Rightarrow> ('s, 'b) scep_handler \<Rightarrow> ('s, 'b) broker_world
   \<Rightarrow> (string, certificate list) result \<times> ('s, 'b) broker_world" where
  "caChainCerts X h w =
    (let (res, w1) = callCAChain (sh_enroller h) (sh_upstream h) w
     in (case res of
           Inl err \<Rightarrow> Err err
         | Inr pemBytes \<Rightarrow>
            (case chainLoop X (Suc (length pemBytes)) pemBytes of
               Inl err \<Rightarrow> Err err
             | Inr out \<Rightarrow> if out = [] then Err ''no certificates in CA chain'' else Ok out), w1))"

definition getCACert :: "pkcs7lib \<Rightarrow> x509lib \<Rightarrow> ('s, 'b) scep_handler \<Rightarrow> ('s, 'b) broker_world
   \<Rightarrow> http_response \<times> ('s, 'b) broker_world" where
  "getCACert L X h w =
    (let (res, w1) = caChainCerts X h w
     in (case res of
           Inl _ \<Rightarrow> httpError ''upstream error'' StatusBadGateway
         | Inr chain \<Rightarrow>
            (case cms_DegenerateCertsOnly L (sh_raCert h # chain) of
               Inl _ \<Rightarrow> httpError ''internal error'' StatusInternalServerError
             | Inr der \<Rightarrow> \<lparr>hr_Status = StatusOK, hr_Header = [(''Content-Type'', ctCACertChain)], hr_Body = der\<rparr>), w1))"

definition capabilities :: "string list" where
  "capabilities = [''POSTPKIOperation'', ''Renewal'', ''SHA-256'', ''SHA-512'', ''AES'', ''SCEPStandard'']"

definition getCACaps :: http_response where
  "getCACaps = \<lparr>hr_Status = StatusOK, hr_Header = [(''Content-Type'', ''text/plain'')],
     hr_Body = concat (map (\<lambda>c. c @ [lineFeed]) capabilities)\<rparr>"

definition scep_ServeHTTP :: "golib \<Rightarrow> pkcs7lib \<Rightarrow> x509lib \<Rightarrow> ('s, 'b) scep_handler \<Rightarrow> time \<Rightarrow> (string, string) result
   \<Rightarrow> http_request \<Rightarrow> ('s, 'b) broker_world \<Rightarrow> scep_outcome \<times> ('s, 'b) broker_world" where
  "scep_ServeHTTP G L X h now nonce r w =
    (let op = hq_Query r ''operation'' in
     if op = ''GetCACert'' then (case getCACert L X h w of (resp, w1) \<Rightarrow> (Responded resp, w1))
     else if op = ''GetCACaps'' then (Responded getCACaps, w)
     else if op = ''PKIOperation'' then pkiOperation G L X h now nonce r w
     else (Responded (httpError ''unsupported operation'' StatusBadRequest), w))"

section \<open>Lemmas\<close>

lemma scep_toSignOptions_eq [simp]: "scep_toSignOptions = toSignOptions"
  by (simp add: fun_eq_iff scep_toSignOptions_def toSignOptions_def)

lemma scep_NewHandler_Ok:
  assumes "scep_NewHandler opts = Ok h"
  shows "sh_opts h = opts" "sp_RACert opts = Some (sh_raCert h)" "sp_Enroller opts = Some (sh_enroller h)"
    "pr_DeviceRoots (sh_parser h) = sp_DeviceRoots opts" "pr_ParseCSR (sh_parser h) = sp_ParseCSR opts"
    "pr_Verifier (sh_parser h) = \<lparr>vf_Digests = sp_Digests opts\<rparr>" "sp_hasReplayCache opts" "0 < sh_maxReq h"
  using assms
  by (auto simp: scep_NewHandler_def scep_defaultMaxRequestBytes_def split: option.splits if_splits)

end
