(* ===== verification/Est_Csr.thy ===== *)
theory Est_Csr
  imports Go_Http
begin

text \<open>
  \<open>src/internal/est/csr.go\<close> and \<open>server.go\<close>: parsing a certificate request with its
  proof of possession, the bounds on RSA keys, the key types, the challengePassword attribute, and
  the verification of a peer certificate. Errors are the texts of the source.
\<close>

definition oidChallengePassword :: "nat list" where
  "oidChallengePassword = [1, 2, 840, 113549, 1, 9, 7]"

definition DefaultMinRSABits :: int where "DefaultMinRSABits = 2048"
definition DefaultMaxRSABits :: int where "DefaultMaxRSABits = 8192"

definition checkRSABounds :: "publicKey \<Rightarrow> int \<Rightarrow> int \<Rightarrow> (string, unit) result" where
  "checkRSABounds pub minBits0 maxBits0 =
    (case pub of
       RSAPub bits \<Rightarrow>
         (let minBits = (if minBits0 \<le> 0 then DefaultMinRSABits else minBits0);
              maxBits = (if maxBits0 \<le> 0 then DefaultMaxRSABits else maxBits0)
          in if int bits < minBits
             then Err (''RSA key too small: '' @ natString bits @ '' bits, minimum '' @ intString minBits)
             else if int bits > maxBits
             then Err (''RSA key too large: '' @ natString bits @ '' bits, maximum '' @ intString maxBits)
             else Ok ())
     | _ \<Rightarrow> Ok ())"

definition ParseCSRLimited :: "x509lib \<Rightarrow> string \<Rightarrow> int \<Rightarrow> int \<Rightarrow> (string, certRequest) result" where
  "ParseCSRLimited X der minRSABits maxRSABits =
    (case xl_parseCSR X der of
       Inl err \<Rightarrow> Err (''parse CSR: '' @ err)
     | Inr csr \<Rightarrow>
        (case checkRSABounds (csr_PublicKey csr) minRSABits maxRSABits of
           Inl err \<Rightarrow> Err err
         | Inr _ \<Rightarrow>
            (case xl_checkSig X csr of
               Some err \<Rightarrow> Err (''CSR proof-of-possession failed: '' @ err)
             | None \<Rightarrow> Ok csr)))"

definition ParseCSR :: "x509lib \<Rightarrow> string \<Rightarrow> (string, certRequest) result" where
  "ParseCSR X der = ParseCSRLimited X der DefaultMinRSABits DefaultMaxRSABits"

definition quoted :: "string \<Rightarrow> string" where
  "quoted s = CHR 0x22 # s @ [CHR 0x22]"

fun KeyType :: "publicKey \<Rightarrow> (string, string) result" where
  "KeyType (RSAPub bits) = Ok (''rsa-'' @ natString bits)"
| "KeyType (ECDSAPub P256) = Ok ''ec-p256''"
| "KeyType (ECDSAPub P384) = Ok ''ec-p384''"
| "KeyType (ECDSAPub P521) = Ok ''ec-p521''"
| "KeyType (ECDSAPub P224) = Err (''unsupported EC curve '' @ quoted ''P-224'')"
| "KeyType (ECDSAPub (OtherCurve name)) = Err (''unsupported EC curve '' @ quoted name)"
| "KeyType Ed25519Pub = Ok ''ed25519''"
| "KeyType (OtherPub t) = Err (''unsupported public key type '' @ t)"

definition ValidateKeyType :: "certRequest \<Rightarrow> string list \<Rightarrow> (string, unit) result" where
  "ValidateKeyType csr allowed =
    (case KeyType (csr_PublicKey csr) of
       Inl err \<Rightarrow> Err err
     | Inr kt \<Rightarrow>
        if allowed = [] then Ok ()
        else if kt \<in> set allowed then Ok ()
        else Err (''key type '' @ quoted kt @ '' is not permitted''))"

text \<open>The loop over the attributes stops at the first challengePassword.\<close>

fun challengeAttr :: "x509lib \<Rightarrow> (nat list \<times> string) list \<Rightarrow> (string, string) result" where
  "challengeAttr X [] = Ok ''''"
| "challengeAttr X ((t, values) # attrs) =
    (if t \<noteq> oidChallengePassword then challengeAttr X attrs
     else (case xl_rawValue X values of
             Inl err \<Rightarrow> Err (''parse challengePassword value: '' @ err)
           | Inr v \<Rightarrow> if v = [] then Err ''empty challengePassword'' else Ok v))"

definition ChallengePassword :: "x509lib \<Rightarrow> certRequest \<Rightarrow> (string, string) result" where
  "ChallengePassword X csr =
    (if csr_RawTBS csr = [] then Ok ''''
     else (case xl_tbsAttributes X (csr_RawTBS csr) of
             Inl err \<Rightarrow> Err (''parse CSR attributes: '' @ err)
           | Inr attrs \<Rightarrow> challengeAttr X attrs))"

section \<open>Peer certificates\<close>

definition VerifyPeer :: "x509lib \<Rightarrow> certificate list option \<Rightarrow> certPool option \<Rightarrow> (string, certificate) result" where
  "VerifyPeer X state roots =
    (case state of
       None \<Rightarrow> Err ''no client certificate presented''
     | Some [] \<Rightarrow> Err ''no client certificate presented''
     | Some (leaf # intermediates) \<Rightarrow>
        (case roots of
           None \<Rightarrow> Err ''no trust anchor configured for this operation''
         | Some pool \<Rightarrow>
            (case xl_verify X leaf pool intermediates of
               Some err \<Rightarrow> Err (''client certificate verification failed: '' @ err)
             | None \<Rightarrow> Ok leaf)))"

section \<open>Lemmas\<close>

definition rsa_within :: "int \<Rightarrow> int \<Rightarrow> publicKey \<Rightarrow> bool" where
  "rsa_within lo hi pub = (case pub of
     RSAPub bits \<Rightarrow> (if lo \<le> 0 then DefaultMinRSABits else lo) \<le> int bits
       \<and> int bits \<le> (if hi \<le> 0 then DefaultMaxRSABits else hi)
   | _ \<Rightarrow> True)"

lemma checkRSABounds_Ok: "checkRSABounds pub lo hi = Ok () \<longleftrightarrow> rsa_within lo hi pub"
  by (auto simp: checkRSABounds_def rsa_within_def Let_def split: publicKey.split)

lemma ParseCSRLimited_Ok:
  "ParseCSRLimited X der lo hi = Ok csr \<longleftrightarrow>
     xl_parseCSR X der = Ok csr \<and> rsa_within lo hi (csr_PublicKey csr) \<and> xl_checkSig X csr = None"
  using checkRSABounds_Ok
  by (auto simp: ParseCSRLimited_def split: sum.splits option.splits) (metis sum.distinct(1) sum.inject(2) old.unit.exhaust)+

lemma ValidateKeyType_Ok:
  "ValidateKeyType csr allowed = Ok () \<longleftrightarrow>
     (\<exists>kt. KeyType (csr_PublicKey csr) = Ok kt \<and> (allowed = [] \<or> kt \<in> set allowed))"
  by (auto simp: ValidateKeyType_def split: sum.split)

lemma VerifyPeer_Ok:
  "VerifyPeer X state roots = Ok leaf \<longleftrightarrow>
     (\<exists>rest pool. state = Some (leaf # rest) \<and> roots = Some pool \<and> xl_verify X leaf pool rest = None)"
  by (auto simp: VerifyPeer_def split: option.splits list.splits)

end
