(* ===== verification/Pkcs7_Der.thy ===== *)
theory Pkcs7_Der
  imports Go_X509
begin

text \<open>
  \<open>src/internal/pkcs7/pkcs7.go\<close>: the certs-only SignedData that EST returns, with the part of
  Go's \<open>asn1.Marshal\<close> it uses (DER tags, lengths, object identifiers, a small integer). A reader
  of DER, written independently of the encoder, checks the content types and gets the list of certificates back.
\<close>

section \<open>DER\<close>

type_synonym oid = "nat list"

fun beBytes :: "nat \<Rightarrow> nat list" where
  "beBytes n = (if n < 256 then [n] else beBytes (n div 256) @ [n mod 256])"

declare beBytes.simps [simp del]

definition derLen :: "nat \<Rightarrow> string" where
  "derLen n = (if n < 128 then [char_of n]
     else char_of (128 + length (beBytes n)) # map char_of (beBytes n))"

definition derTLV :: "nat \<Rightarrow> string \<Rightarrow> string" where
  "derTLV tag content = char_of tag # derLen (length content) @ content"

fun base128 :: "nat \<Rightarrow> nat list" where
  "base128 n = (if n < 128 then [n] else map (\<lambda>b. if b < 128 then b + 128 else b) (base128 (n div 128)) @ [n mod 128])"

declare base128.simps [simp del]

fun oidBytes :: "oid \<Rightarrow> nat list" where
  "oidBytes (a # b # arcs) = concat (map base128 ((40 * a + b) # arcs))"
| "oidBytes _ = []"

definition derOID :: "oid \<Rightarrow> string" where
  "derOID o' = derTLV 6 (map char_of (oidBytes o'))"

definition oidSignedData :: oid where "oidSignedData = [1, 2, 840, 113549, 1, 7, 2]"
definition oidData :: oid where "oidData = [1, 2, 840, 113549, 1, 7, 1]"

definition emptySet :: string where "emptySet = derTLV 49 []"

datatype pkcs7_error = NoCertificates | EmptyCertificate nat

fun firstEmpty :: "nat \<Rightarrow> string list \<Rightarrow> nat option" where
  "firstEmpty i [] = None"
| "firstEmpty i (d # ds) = (if d = [] then Some i else firstEmpty (Suc i) ds)"

definition signedDataDER :: "string \<Rightarrow> string" where
  "signedDataDER certBytes = derTLV 48 (derTLV 2 [CHR 0x01] @ emptySet @ derTLV 48 (derOID oidData)
     @ derTLV 160 certBytes @ emptySet)"

definition DegenerateCertsOnly :: "string list \<Rightarrow> (pkcs7_error, string) result" where
  "DegenerateCertsOnly certDER =
    (if certDER = [] then Err NoCertificates
     else (case firstEmpty 0 certDER of
             Some i \<Rightarrow> Err (EmptyCertificate i)
           | None \<Rightarrow> Ok (derTLV 48 (derOID oidSignedData @ derTLV 160 (signedDataDER (concat certDER))))))"

section \<open>A reader\<close>

text \<open>The first element of a DER string: its tag, its content and what follows.\<close>

definition derValue :: "nat list \<Rightarrow> nat" where
  "derValue bs = foldl (\<lambda>acc b. acc * 256 + b) 0 bs"

definition derSplit :: "nat \<Rightarrow> nat \<Rightarrow> string \<Rightarrow> (nat \<times> string \<times> string) option" where
  "derSplit tag n s = (if n \<le> length s then Some (tag, take n s, drop n s) else None)"

fun derRead :: "string \<Rightarrow> (nat \<times> string \<times> string) option" where
  "derRead (t # l # s) =
    (if byteOf l < 128 then derSplit (byteOf t) (byteOf l) s
     else (let k = byteOf l - 128 in
           if k \<le> length s then derSplit (byteOf t) (derValue (map byteOf (take k s))) (drop k s) else None))"
| "derRead _ = None"

definition derExpect :: "nat \<Rightarrow> string \<Rightarrow> (string \<times> string) option" where
  "derExpect tag s = (case derRead s of
     Some (t, content, rest) \<Rightarrow> if t = tag then Some (content, rest) else None | None \<Rightarrow> None)"

fun derFields :: "nat list \<Rightarrow> string \<Rightarrow> string list option" where
  "derFields [] s = (if s = [] then Some [] else None)"
| "derFields (t # ts) s = (case derExpect t s of
     None \<Rightarrow> None
   | Some (content, rest) \<Rightarrow> (case derFields ts rest of None \<Rightarrow> None | Some cs \<Rightarrow> Some (content # cs)))"

lemma derRead_shorter: "derRead s = Some (t, content, rest) \<Longrightarrow> length rest < length s"
  by (cases s rule: derRead.cases) (auto simp: derSplit_def Let_def split: if_splits)

text \<open>The elements that follow each other in a DER string, whole.\<close>

function derElements :: "string \<Rightarrow> string list option" where
  "derElements s =
    (if s = [] then Some []
     else (case derRead s of
        None \<Rightarrow> None
      | Some (t, content, rest) \<Rightarrow> map_option ((#) (take (length s - length rest) s)) (derElements rest)))"
  by auto
termination by (relation "measure length") (auto dest: derRead_shorter)

declare derElements.simps [simp del]

text \<open>
  The certificates of a certs-only SignedData, one element each, with the object identifiers of RFC 2315 as their
  bytes: signedData is 1.2.840.113549.1.7.2, data is 1.2.840.113549.1.7.1.
\<close>

definition pkcs7OID :: "nat \<Rightarrow> string" where
  "pkcs7OID n = map char_of [0x2a, 0x86, 0x48, 0x86, 0xf7, 0x0d, 0x01, 0x07, n]"

definition readCertsOnly :: "string \<Rightarrow> string list option" where
  "readCertsOnly s =
    (case derFields [48] s of
       Some [outer] \<Rightarrow>
         (case derFields [6, 160] outer of
            Some [contentType, wrapped] \<Rightarrow>
              if contentType \<noteq> pkcs7OID 2 then None
              else (case derFields [48] wrapped of
                 Some [sd] \<Rightarrow>
                   (case derFields [2, 49, 48, 160, 49] sd of
                      Some [version, digests, ci, certs, signers] \<Rightarrow>
                        if version = [CHR 0x01] \<and> digests = [] \<and> derFields [6] ci = Some [pkcs7OID 1] \<and> signers = []
                        then derElements certs else None
                    | _ \<Rightarrow> None)
               | _ \<Rightarrow> None)
          | _ \<Rightarrow> None)
     | _ \<Rightarrow> None)"

text \<open>One whole DER element, as a certificate is.\<close>

definition derElement :: "string \<Rightarrow> bool" where
  "derElement d = (case derRead d of Some (t, content, rest) \<Rightarrow> rest = [] | None \<Rightarrow> False)"

section \<open>Lemmas\<close>

lemma beBytes_less: "b \<in> set (beBytes n) \<Longrightarrow> b < 256"
proof (induction n rule: beBytes.induct)
  case (1 n)
  then show ?case by (subst (asm) (2) beBytes.simps) (auto split: if_splits)
qed

lemma derValue_snoc: "derValue (bs @ [b]) = derValue bs * 256 + b"
  by (simp add: derValue_def)

lemma derValue_beBytes: "derValue (beBytes n) = n"
proof (induction n rule: beBytes.induct)
  case (1 n)
  show ?case
  proof (cases "n < 256")
    case True
    then show ?thesis by (subst beBytes.simps) (simp add: derValue_def)
  next
    case False
    with 1 show ?thesis by (subst beBytes.simps) (simp add: derValue_snoc)
  qed
qed

lemma length_beBytes: "n < 256 ^ k \<Longrightarrow> 0 < k \<Longrightarrow> length (beBytes n) \<le> k"
proof (induction k arbitrary: n)
  case (Suc k)
  show ?case
  proof (cases "n < 256 \<or> k = 0")
    case True
    then show ?thesis using Suc.prems by (subst beBytes.simps) auto
  next
    case False
    then have "length (beBytes (n div 256)) \<le> k"
      using Suc.prems by (intro Suc.IH) (simp_all add: div_less_iff_less_mult mult.commute)
    with False show ?thesis by (subst beBytes.simps) simp
  qed
qed simp

lemma map_byteOf_char_of: "(\<And>b. b \<in> set bs \<Longrightarrow> b < 256) \<Longrightarrow> map byteOf (map char_of bs) = (bs :: nat list)"
  by (induction bs) (auto simp: byteOf_char_of)

text \<open>The lengths of Go are below \<open>2 ^ 63\<close>; eight length bytes are enough for them.\<close>

lemma derRead_TLV:
  assumes "tag < 256" "length content < 256 ^ 8"
  shows "derRead (derTLV tag content @ rest) = Some (tag, content, rest)"
proof (cases "length content < 128")
  case True
  with assms show ?thesis by (simp add: derTLV_def derLen_def byteOf_char_of derSplit_def)
next
  case False
  let ?bs = "beBytes (length content)"
  have len: "length ?bs \<le> 8" using assms(2) by (intro length_beBytes) simp_all
  have "map byteOf (map char_of ?bs) = ?bs" by (rule map_byteOf_char_of) (rule beBytes_less)
  then have "derValue (map byteOf (map char_of ?bs)) = length content" by (simp only: derValue_beBytes)
  with False len assms(1) show ?thesis
    by (simp add: derTLV_def derLen_def byteOf_char_of derSplit_def Let_def)
qed

lemma derFields_TLV:
  assumes "tag < 256" "length content < 256 ^ 8"
  shows "derFields (tag # ts) (derTLV tag content @ rest) =
    (case derFields ts rest of None \<Rightarrow> None | Some cs \<Rightarrow> Some (content # cs))"
  using derRead_TLV [OF assms] by (simp add: derExpect_def)

lemma derFields_one:
  "tag < 256 \<Longrightarrow> length content < 256 ^ 8 \<Longrightarrow> derFields [tag] (derTLV tag content) = Some [content]"
  using derFields_TLV [of tag content "[]" "[]"] by simp

lemma length_derTLV: "length content < 256 ^ 8 \<Longrightarrow> length (derTLV tag content) \<le> length content + 10"
  using length_beBytes [of "length content" 8] by (simp add: derTLV_def derLen_def)

lemma firstEmpty_none: "firstEmpty i ds = None \<longleftrightarrow> [] \<notin> set ds"
  by (induction ds arbitrary: i) auto

lemma DegenerateCertsOnly_Ok:
  "ds \<noteq> [] \<Longrightarrow> [] \<notin> set ds \<Longrightarrow>
    DegenerateCertsOnly ds = Ok (derTLV 48 (derOID oidSignedData @ derTLV 160 (signedDataDER (concat ds))))"
  using firstEmpty_none [of 0 ds] by (simp add: DegenerateCertsOnly_def)

lemma fixed_parts:
  "length (derOID oidSignedData) = 11" "length (derTLV 48 (derOID oidData)) = 13"
  "length (derTLV 2 [CHR 0x01]) = 3" "length emptySet = 2"
  "length (map char_of (oidBytes oidSignedData) :: string) = 9" "length (derOID oidData) = 11"
  by code_simp+

lemma readCertsOnly_signedData:
  assumes "length certs < 2 ^ 63"
  shows "readCertsOnly (derTLV 48 (derOID oidSignedData @ derTLV 160 (signedDataDER certs))) = derElements certs"
proof -
  define sd where "sd = derTLV 2 [CHR 0x01] @ emptySet @ derTLV 48 (derOID oidData)
     @ derTLV 160 certs @ emptySet"
  have small: "length certs < 256 ^ 8" using assms by simp
  have "length sd \<le> length certs + 30"
    using length_derTLV [OF small, of 160] by (simp add: sd_def fixed_parts)
  then have sd: "length sd < 2 ^ 63 + 30" "length sd < 256 ^ 8" using assms by simp_all
  have wrapped: "signedDataDER certs = derTLV 48 sd" by (simp add: signedDataDER_def sd_def)
  then have w: "length (signedDataDER certs) < 2 ^ 63 + 40" "length (signedDataDER certs) < 256 ^ 8"
    using sd length_derTLV [OF sd(2), of 48] by simp_all
  have outer: "length (derOID oidSignedData @ derTLV 160 (signedDataDER certs)) < 256 ^ 8"
    using w length_derTLV [OF w(2), of 160] by (simp add: fixed_parts)
  have fields: "derFields [2, 49, 48, 160, 49] sd = Some [[CHR 0x01], [], derOID oidData, certs, []]"
    unfolding sd_def emptySet_def using small
    by (simp add: derFields_TLV derFields_one fixed_parts del: derFields.simps)
  have oid: "derFields [6, 160] (derOID oidSignedData @ derTLV 160 (signedDataDER certs)) =
      Some [map char_of (oidBytes oidSignedData), signedDataDER certs]"
    unfolding derOID_def using w(2) fixed_parts(5) by (simp add: derFields_TLV derFields_one del: derFields.simps)
  have types: "map char_of (oidBytes oidSignedData) = pkcs7OID 2" "derFields [6] (derOID oidData) = Some [pkcs7OID 1]" by code_simp+
  show ?thesis
    using outer sd(2)
    by (simp add: readCertsOnly_def derFields_one oid [unfolded wrapped, unfolded types] wrapped fields types del: derFields.simps)
qed

text \<open>Elements one after the other are read back one by one.\<close>

lemma derRead_append:
  assumes "derRead d = Some (t, content, [])"
  shows "derRead (d @ rest) = Some (t, content, rest)"
proof (cases d rule: derRead.cases)
  case (1 c l s)
  then show ?thesis using assms by (auto simp: derSplit_def Let_def split: if_splits)
qed (use assms in simp_all)

lemma derElements_concat: "\<forall>d\<in>set ds. derElement d \<Longrightarrow> derElements (concat ds) = Some ds"
proof (induction ds)
  case Nil
  show ?case by (simp add: derElements.simps)
next
  case (Cons d ds)
  then obtain t content where d: "derRead d = Some (t, content, [])"
    by (auto simp: derElement_def split: option.splits)
  then have "d \<noteq> []" by auto
  with Cons derRead_append [OF d, of "concat ds"] show ?case by (subst derElements.simps) simp
qed

text \<open>
  (C16) A client that reads the certs-only message by the rules of DER, content types included, finds exactly the
  given certificates, in their order, and no signer, where each of them is a DER element; an empty list or
  an empty certificate is refused.\<close>

theorem certsOnly_roundtrip:
  assumes "length (concat ds) < 2 ^ 63"
  shows "(ds = [] \<or> [] \<in> set ds \<longrightarrow> (\<exists>e. DegenerateCertsOnly ds = Err e)) \<and>
    (ds \<noteq> [] \<and> (\<forall>d\<in>set ds. derElement d) \<longrightarrow> (\<exists>der. DegenerateCertsOnly ds = Ok der \<and> readCertsOnly der = Some ds))"
proof (intro conjI impI)
  assume "ds = [] \<or> [] \<in> set ds"
  then show "\<exists>e. DegenerateCertsOnly ds = Err e"
    using firstEmpty_none [of 0 ds] by (auto simp: DegenerateCertsOnly_def split: option.split)
next
  assume ds: "ds \<noteq> [] \<and> (\<forall>d\<in>set ds. derElement d)"
  then have "[] \<notin> set ds" by (auto simp: derElement_def)
  then show "\<exists>der. DegenerateCertsOnly ds = Ok der \<and> readCertsOnly der = Some ds"
    using ds readCertsOnly_signedData [OF assms] DegenerateCertsOnly_Ok [of ds] derElements_concat [of ds] by simp
qed

text \<open>Two elements, whose boundary is found again.\<close>

theorem certsOnly_roundtrip_witness:
  "\<exists>der. DegenerateCertsOnly [derTLV 48 ''ab'', derTLV 48 ''c''] = Ok der \<and> readCertsOnly der = Some [derTLV 48 ''ab'', derTLV 48 ''c'']"
proof -
  have "length (concat [derTLV 48 ''ab'', derTLV 48 ''c'']) < 2 ^ 63" "derElement (derTLV 48 ''ab'')" "derElement (derTLV 48 ''c'')"
    by code_simp+
  with certsOnly_roundtrip [of "[derTLV 48 ''ab'', derTLV 48 ''c'']"] show ?thesis by simp
qed

end
