(* ===== verification/Est_Handler.thy ===== *)
theory Est_Handler
  imports Est_Csr Bao_Types Pkcs7_Der Authz_Pipeline
begin

text \<open>
  The EST endpoints, \<open>src/internal/est/handler.go\<close>: routing, the five operations, reading a
  request body, the client identity of an operation, the check of an issued certificate, audit
  records and the responses.

  A handler runs on a \<open>broker_world\<close>; its result is the response and the new world, whose trace
  records authorizations, calls to OpenBao and audit records in order. Log messages that are not
  audit records are left out. The boundary of a multipart response is random in the source and an
  argument here.
\<close>

section \<open>Options\<close>

definition wellKnownPrefix :: string where "wellKnownPrefix = ''/.well-known/est/''"
definition defaultMaxRequestBytes :: int where "defaultMaxRequestBytes = 256 * 1024"
definition defaultUpstreamTimeout :: duration where "defaultUpstreamTimeout = 20 * second"
definition ctPKCS7CertsOnly :: string where
  "ctPKCS7CertsOnly = ''application/pkcs7-mime; smime-type=certs-only''"
definition ctCSRAttrs :: string where "ctCSRAttrs = ''application/csrattrs''"
definition ctPKCS8 :: string where "ctPKCS8 = ''application/pkcs8''"

record ('s, 'b) est_Options =
  eo_BootstrapRoots :: "certPool option"
  eo_DeviceRoots :: "certPool option"
  eo_Enroller :: "'b enroller option"
  eo_Authorizer :: "'s authorizer option"
  eo_AllowedKeyTypes :: "string list"
  eo_CSRAttrs :: string
  eo_MaxRequestBytes :: int
  eo_MinRSABits :: int
  eo_MaxRSABits :: int
  eo_ServerKeyGenKeyType :: string
  eo_ServerKeyGenKeyBits :: int
  eo_UpstreamTimeout :: duration

record ('s, 'b) est_handler =
  eh_opts :: "('s, 'b) est_Options"
  eh_enroller :: "'b enroller"
  eh_authz :: "'s authorizer"
  eh_maxReq :: int
  eh_upstream :: duration

definition est_NewHandler :: "('s, 'b) est_Options \<Rightarrow> (string, ('s, 'b) est_handler) result" where
  "est_NewHandler opts =
    (case eo_Enroller opts of
       None \<Rightarrow> Err ''est: Enroller is required''
     | Some e \<Rightarrow> Ok
        \<lparr>eh_opts = opts, eh_enroller = e,
         eh_authz = (case eo_Authorizer opts of None \<Rightarrow> DenyAll_Authorize | Some a \<Rightarrow> a),
         eh_maxReq = (if eo_MaxRequestBytes opts \<le> 0 then defaultMaxRequestBytes else eo_MaxRequestBytes opts),
         eh_upstream = (if eo_UpstreamTimeout opts \<le> 0 then defaultUpstreamTimeout else eo_UpstreamTimeout opts)\<rparr>)"

section \<open>Requests\<close>

definition parseCSR :: "x509lib \<Rightarrow> ('s, 'b) est_handler \<Rightarrow> string \<Rightarrow> (string, certRequest) result" where
  "parseCSR X h der = ParseCSRLimited X der (eo_MinRSABits (eh_opts h)) (eo_MaxRSABits (eh_opts h))"

text \<open>The error of a body that is not base64 is left out of the message, which Go completes with the offset of the first bad byte.\<close>

definition readCSR :: "golib \<Rightarrow> ('s, 'b) est_handler \<Rightarrow> http_request \<Rightarrow> (nat \<times> string, string) result" where
  "readCSR G h r =
    (case readLimited r (nat (wrap64 (eh_maxReq h + 1))) of
       Inl err \<Rightarrow> Err (StatusBadRequest, ''read body: '' @ err)
     | Inr raw \<Rightarrow>
        if int (length raw) > eh_maxReq h then Err (StatusRequestEntityTooLarge, ''request too large'')
        else if raw = [] then Err (StatusBadRequest, ''empty request body'')
        else
          (let cte = hq_Header r ''Content-Transfer-Encoding'';
               stripped = stripASCIIWhitespace raw
           in if equalFold (lib_unicode G) cte ''base64'' then
                (case b64decode stripped of
                   None \<Rightarrow> Err (StatusBadRequest, ''base64 decode'')
                 | Some dec \<Rightarrow> Ok dec)
              else
                (case b64decode stripped of
                   Some dec \<Rightarrow> if dec \<noteq> [] then Ok dec else Ok raw
                 | None \<Rightarrow> Ok raw)))"

definition clientIdentity ::
  "x509lib \<Rightarrow> ('s, 'b) est_handler \<Rightarrow> http_request \<Rightarrow> Operation \<Rightarrow> (string, certificate option) result" where
  "clientIdentity X h r op =
    (let peer = hq_PeerCertificates r;
         presented = (case peer of None \<Rightarrow> False | Some cs \<Rightarrow> cs \<noteq> []);
         bootstrap =
           (if \<not> presented then Ok None
            else (case VerifyPeer X peer (eo_BootstrapRoots (eh_opts h)) of
                    Inl _ \<Rightarrow> Ok None
                  | Inr cert \<Rightarrow> Ok (Some cert)))
     in if op = OpSimpleReenroll then
          (case VerifyPeer X peer (eo_DeviceRoots (eh_opts h)) of Inl err \<Rightarrow> Err err | Inr cert \<Rightarrow> Ok (Some cert))
        else if op = OpServerKeyGen then
          (if presented
           then (case VerifyPeer X peer (eo_DeviceRoots (eh_opts h)) of
                   Inr cert \<Rightarrow> Ok (Some cert) | Inl _ \<Rightarrow> bootstrap)
           else bootstrap)
        else if op = OpSimpleEnroll then bootstrap
        else Err (''unexpected operation '' @ quoted op))"

section \<open>Audit\<close>

definition auditAttr :: "string \<Rightarrow> string \<Rightarrow> (string \<times> audit_val) list" where
  "auditAttr key v = (if v = '''' then [] else [(key, AText v)])"

definition est_audit :: "Operation \<Rightarrow> Request \<Rightarrow> Decision \<Rightarrow> string \<Rightarrow> audit_val option
   \<Rightarrow> ('s, 'b) broker_world \<Rightarrow> ('s, 'b) broker_world" where
  "est_audit op req d outcome err w = emit (AuditEv
     ([(''op'', AText op), (''outcome'', AText outcome), (''remote'', AText (rq_RemoteAddr req))]
      @ auditAttr ''role'' (dc_Role d)
      @ (if dc_Reason d = Reason '''' then [] else [(''reason'', AReason (dc_Reason d))])
      @ (case rq_CSR req of None \<Rightarrow> [] | Some csr \<Rightarrow> [(''requested_cn'', AText (nm_CommonName (csr_Subject csr)))])
      @ auditAttr ''granted_cn'' (cc_CommonName (dc_Constraints d))
      @ (case rq_ClientCert req of None \<Rightarrow> [] | Some c \<Rightarrow> [(''client_cn'', AText (nm_CommonName (crt_Subject c)))])
      @ (case err of None \<Rightarrow> [] | Some e \<Rightarrow> [(''err'', e)]))) w"

section \<open>Responses\<close>

definition writePKCS7 :: "string \<Rightarrow> http_response" where
  "writePKCS7 der = \<lparr>hr_Status = StatusOK,
     hr_Header = [(''Content-Type'', ctPKCS7CertsOnly), (''Content-Transfer-Encoding'', ''base64'')],
     hr_Body = base64Lines der\<rparr>"

definition crlf :: string where "crlf = [CHR 0x0D, CHR 0x0A]"

text \<open>\<open>multipart.Writer\<close>: a part is a boundary line, its headers in sorted order and its body.\<close>

definition mimePart :: "string \<Rightarrow> bool \<Rightarrow> string \<Rightarrow> string \<Rightarrow> string" where
  "mimePart boundary first ct body = (if first then [] else crlf) @ ''--'' @ boundary @ crlf
     @ ''Content-Transfer-Encoding: base64'' @ crlf @ ''Content-Type: '' @ ct @ crlf @ crlf @ body"

definition writeServerKeyGen :: "string \<Rightarrow> string \<Rightarrow> string \<Rightarrow> http_response" where
  "writeServerKeyGen boundary keyDER certP7 = \<lparr>hr_Status = StatusOK,
     hr_Header = [(''Content-Type'', ''multipart/mixed; boundary='' @ boundary)],
     hr_Body = mimePart boundary True ctPKCS8 (base64Lines keyDER)
       @ mimePart boundary False ctPKCS7CertsOnly (base64Lines certP7)
       @ crlf @ ''--'' @ boundary @ ''--'' @ crlf\<rparr>"

section \<open>PEM\<close>

definition singleCertDER :: "x509lib \<Rightarrow> string \<Rightarrow> string option" where
  "singleCertDER X pemStr = (case xl_pemDecode X pemStr of
     None \<Rightarrow> None | Some (blk, _) \<Rightarrow> if pb_Type blk = ''CERTIFICATE'' then Some (pb_Bytes blk) else None)"

definition singleBlockDER :: "x509lib \<Rightarrow> string \<Rightarrow> string option" where
  "singleBlockDER X pemStr = (case xl_pemDecode X pemStr of None \<Rightarrow> None | Some (blk, _) \<Rightarrow> Some (pb_Bytes blk))"

text \<open>
  The loop of \<open>pemCertsToDER\<close>. Each round consumes the block it read, so the length of the input
  bounds the rounds; \<open>pem_loops_complete\<close> of \<open>Scep_Properties\<close> states it.
\<close>

fun pemLoop :: "x509lib \<Rightarrow> nat \<Rightarrow> string \<Rightarrow> string list" where
  "pemLoop X 0 rest = []"
| "pemLoop X (Suc fuel) rest =
    (case xl_pemDecode X rest of
       None \<Rightarrow> []
     | Some (blk, r) \<Rightarrow> (if pb_Type blk = ''CERTIFICATE'' then [pb_Bytes blk] else []) @ pemLoop X fuel r)"

definition pemCertsToDER :: "x509lib \<Rightarrow> string \<Rightarrow> string list option" where
  "pemCertsToDER X pemBytes =
    (let out = pemLoop X (Suc (length pemBytes)) pemBytes in if out = [] then None else Some out)"

section \<open>Operations\<close>

definition checkIssued :: "golib \<Rightarrow> x509lib \<Rightarrow> string \<Rightarrow> Decision \<Rightarrow> (audit_val, unit) result" where
  "checkIssued G X certDER d =
    (case xl_parseCert X certDER of
       Inl err \<Rightarrow> Err (AText (''parse issued certificate: '' @ err))
     | Inr cert \<Rightarrow>
        (case VerifyIssued G (Some cert) (dc_Constraints d) of Inl e \<Rightarrow> Err (AVerify e) | Inr _ \<Rightarrow> Ok ()))"

definition caCerts :: "x509lib \<Rightarrow> ('s, 'b) est_handler \<Rightarrow> ('s, 'b) broker_world \<Rightarrow> http_response \<times> ('s, 'b) broker_world" where
  "caCerts X h w =
    (let (res, w1) = callCAChain (eh_enroller h) (eh_upstream h) w in
     (case res of
        Inl _ \<Rightarrow> httpError ''upstream error'' StatusBadGateway
      | Inr chainPEM \<Rightarrow>
         (case pemCertsToDER X chainPEM of
            None \<Rightarrow> httpError ''upstream error'' StatusBadGateway
          | Some ders \<Rightarrow>
             (case DegenerateCertsOnly ders of
                Inl _ \<Rightarrow> httpError ''internal error'' StatusInternalServerError
              | Inr p7 \<Rightarrow> writePKCS7 p7)), w1))"

text \<open>After an allowing decision: signing, the check of what came back, the response.\<close>

definition enrollIssue :: "golib \<Rightarrow> x509lib \<Rightarrow> ('s, 'b) est_handler \<Rightarrow> Operation \<Rightarrow> string \<Rightarrow> Request \<Rightarrow> Decision
   \<Rightarrow> ('s, 'b) broker_world \<Rightarrow> http_response \<times> ('s, 'b) broker_world" where
  "enrollIssue G X h op csrDER req d w =
    (let csrPEM = pemEncode ''CERTIFICATE REQUEST'' csrDER;
         (res, w1) = callSign (eh_enroller h) (eh_upstream h) (dc_Role d) csrPEM (toSignOptions (dc_Constraints d)) w
     in case res of
          Inl err \<Rightarrow> (httpError ''issuance failed'' StatusBadGateway, est_audit op req d ''issue-error'' (Some (AText err)) w1)
        | Inr bundle \<Rightarrow>
           (case singleCertDER X (cb_Certificate bundle) of
              None \<Rightarrow> (httpError ''internal error'' StatusInternalServerError, w1)
            | Some leafDER \<Rightarrow>
               (case checkIssued G X leafDER d of
                  Inl err \<Rightarrow> (httpError ''issuance failed'' StatusBadGateway,
                             est_audit op req d ''constraint-violation'' (Some err) w1)
                | Inr _ \<Rightarrow>
                   (case DegenerateCertsOnly [leafDER] of
                      Inl _ \<Rightarrow> (httpError ''internal error'' StatusInternalServerError, w1)
                    | Inr p7 \<Rightarrow> (writePKCS7 p7, est_audit op req d ''issued'' None w1)))))"

definition keyGenIssue :: "golib \<Rightarrow> x509lib \<Rightarrow> ('s, 'b) est_handler \<Rightarrow> string \<Rightarrow> Request \<Rightarrow> Decision
   \<Rightarrow> ('s, 'b) broker_world \<Rightarrow> http_response \<times> ('s, 'b) broker_world" where
  "keyGenIssue G X h boundary req d w =
    (let issueOpts = (toSignOptions (dc_Constraints d))
           \<lparr>so_KeyType := eo_ServerKeyGenKeyType (eh_opts h), so_KeyBits := eo_ServerKeyGenKeyBits (eh_opts h)\<rparr>;
         (res, w1) = callIssue (eh_enroller h) (eh_upstream h) (dc_Role d) (cc_CommonName (dc_Constraints d)) issueOpts w
     in case res of
          Inl err \<Rightarrow> (httpError ''issuance failed'' StatusBadGateway,
                     est_audit OpServerKeyGen req d ''issue-error'' (Some (AText err)) w1)
        | Inr bundle \<Rightarrow>
           (case singleBlockDER X (cb_PrivateKey bundle) of
              None \<Rightarrow> (httpError ''internal error'' StatusInternalServerError, w1)
            | Some keyDER \<Rightarrow>
               (case singleCertDER X (cb_Certificate bundle) of
                  None \<Rightarrow> (httpError ''internal error'' StatusInternalServerError, w1)
                | Some certDER \<Rightarrow>
                   (case checkIssued G X certDER d of
                      Inl err \<Rightarrow> (httpError ''issuance failed'' StatusBadGateway,
                                 est_audit OpServerKeyGen req d ''constraint-violation'' (Some err) w1)
                    | Inr _ \<Rightarrow>
                       (case DegenerateCertsOnly [certDER] of
                          Inl _ \<Rightarrow> (httpError ''internal error'' StatusInternalServerError, w1)
                        | Inr p7 \<Rightarrow> (writeServerKeyGen boundary keyDER p7,
                                    est_audit OpServerKeyGen req d ''issued'' None w1))))))"

text \<open>
  What \<open>enroll\<close> and \<open>serverKeyGen\<close> do before they authorize: the request for the policy, with the
  DER of the certificate request, or the response that refuses.
\<close>

definition frontDoor :: "golib \<Rightarrow> x509lib \<Rightarrow> ('s, 'b) est_handler \<Rightarrow> http_request \<Rightarrow> Operation \<Rightarrow> string
   \<Rightarrow> (http_response, string \<times> Request) result" where
  "frontDoor G X h r op label =
    (case readCSR G h r of
       Inl (status, msg) \<Rightarrow> Err (httpError msg status)
     | Inr csrDER \<Rightarrow>
        (case parseCSR X h csrDER of
           Inl err \<Rightarrow> Err (httpError (''invalid CSR: '' @ err) StatusBadRequest)
         | Inr csr \<Rightarrow>
            (case ValidateKeyType csr (eo_AllowedKeyTypes (eh_opts h)) of
               Inl err \<Rightarrow> Err (httpError err StatusForbidden)
             | Inr _ \<Rightarrow>
                (let cp = (case ChallengePassword X csr of Inl _ \<Rightarrow> '''' | Inr p \<Rightarrow> p)
                 in case clientIdentity X h r op of
                      Inl _ \<Rightarrow> Err (httpError ''client certificate required'' StatusForbidden)
                    | Inr clientCert \<Rightarrow> Ok (csrDER,
                        \<lparr>rq_Operation = op, rq_ClientCert = clientCert, rq_CSR = Some csr,
                         rq_ChallengePassword = cp, rq_Label = label, rq_RemoteAddr = hq_RemoteAddr r\<rparr>)))))"

definition authorized :: "('s, 'b) est_handler \<Rightarrow> Operation \<Rightarrow> Request
   \<Rightarrow> (Decision \<Rightarrow> ('s, 'b) broker_world \<Rightarrow> http_response \<times> ('s, 'b) broker_world)
   \<Rightarrow> ('s, 'b) broker_world \<Rightarrow> http_response \<times> ('s, 'b) broker_world" where
  "authorized h op req issue w =
    (let (res, w1) = callAuthorize (eh_authz h) req w in
     case res of
       Inl err \<Rightarrow> (httpError ''authorization error'' StatusInternalServerError,
                  est_audit op req zeroDecision ''error'' (Some (AText err)) w1)
     | Inr d \<Rightarrow>
        if \<not> dc_Allow d then (httpError ''not authorized'' StatusForbidden, est_audit op req d ''deny'' None w1)
        else issue d w1)"

definition enroll :: "golib \<Rightarrow> x509lib \<Rightarrow> ('s, 'b) est_handler \<Rightarrow> http_request \<Rightarrow> Operation \<Rightarrow> string
   \<Rightarrow> ('s, 'b) broker_world \<Rightarrow> http_response \<times> ('s, 'b) broker_world" where
  "enroll G X h r op label w =
    (case frontDoor G X h r op label of
       Inl resp \<Rightarrow> (resp, w)
     | Inr (csrDER, req) \<Rightarrow> authorized h op req (enrollIssue G X h op csrDER req) w)"

definition serverKeyGen :: "golib \<Rightarrow> x509lib \<Rightarrow> ('s, 'b) est_handler \<Rightarrow> string \<Rightarrow> http_request \<Rightarrow> string
   \<Rightarrow> ('s, 'b) broker_world \<Rightarrow> http_response \<times> ('s, 'b) broker_world" where
  "serverKeyGen G X h boundary r label w =
    (case frontDoor G X h r OpServerKeyGen label of
       Inl resp \<Rightarrow> (resp, w)
     | Inr (csrDER, req) \<Rightarrow> authorized h OpServerKeyGen req (keyGenIssue G X h boundary req) w)"

definition csrAttrs :: "('s, 'b) est_handler \<Rightarrow> http_response" where
  "csrAttrs h =
    (if eo_CSRAttrs (eh_opts h) = [] then \<lparr>hr_Status = StatusNoContent, hr_Header = [], hr_Body = []\<rparr>
     else \<lparr>hr_Status = StatusOK,
            hr_Header = [(''Content-Type'', ctCSRAttrs), (''Content-Transfer-Encoding'', ''base64'')],
            hr_Body = base64Lines (eo_CSRAttrs (eh_opts h))\<rparr>)"

section \<open>Routing\<close>

definition methodGuard :: "http_request \<Rightarrow> string \<Rightarrow> ('s, 'b) broker_world
   \<Rightarrow> http_response \<times> ('s, 'b) broker_world \<Rightarrow> http_response \<times> ('s, 'b) broker_world" where
  "methodGuard r method w fn =
    (if hq_Method r \<noteq> method
     then ((httpError ''method not allowed'' StatusMethodNotAllowed)
             \<lparr>hr_Header := (''Allow'', method) # hr_Header (httpError ''method not allowed'' StatusMethodNotAllowed)\<rparr>, w)
     else fn)"

text \<open>The label and the operation of a path below the prefix.\<close>

definition estRoute :: "string \<Rightarrow> (string \<times> string) option" where
  "estRoute path =
    (if \<not> hasPrefix path wellKnownPrefix then None
     else
       (let rest = trim_both (\<lambda>c. c = CHR ''/'') (drop (length wellKnownPrefix) path)
        in if rest = [] then None
           else (case cutLastByte (CHR ''/'') rest of None \<Rightarrow> Some ('''', rest) | Some (label, op) \<Rightarrow> Some (label, op))))"

definition est_ServeHTTP :: "golib \<Rightarrow> x509lib \<Rightarrow> ('s, 'b) est_handler \<Rightarrow> string \<Rightarrow> http_request
   \<Rightarrow> ('s, 'b) broker_world \<Rightarrow> http_response \<times> ('s, 'b) broker_world" where
  "est_ServeHTTP G X h boundary r w =
    (case estRoute (hq_Path r) of
       None \<Rightarrow> (httpNotFound, w)
     | Some (label, op) \<Rightarrow>
        if op = ''cacerts'' then methodGuard r ''GET'' w (caCerts X h w)
        else if op = ''simpleenroll'' then methodGuard r ''POST'' w (enroll G X h r OpSimpleEnroll label w)
        else if op = ''simplereenroll'' then methodGuard r ''POST'' w (enroll G X h r OpSimpleReenroll label w)
        else if op = ''serverkeygen'' then methodGuard r ''POST'' w (serverKeyGen G X h boundary r label w)
        else if op = ''csrattrs'' then methodGuard r ''GET'' w (csrAttrs h, w)
        else (httpNotFound, w))"

end
