(* ===== verification/Authz_Properties.thy ===== *)
theory Authz_Properties
  imports Authz_Pipeline
begin

text \<open>
  The properties of the policy engine, \<open>src/internal/authz\<close>, with the concrete inputs their
  witnesses evaluate: a device certificate, a request for it, and a pipeline over a file
  inventory.
\<close>

section \<open>Concrete inputs\<close>

definition ex_cert :: certificate where
  "ex_cert = \<lparr>crt_Raw = ''der'', crt_Subject = \<lparr>nm_CommonName = ''dev1.example.com'',
       nm_OrganizationalUnit = [''meters''], nm_Organization = [''acme'']\<rparr>,
     crt_DNSNames = [''dev1.example.com'', ''alt.example.com''], crt_IPAddresses = [],
     crt_URIs = [], crt_SerialNumber = 43981, crt_NotBefore = 0, crt_NotAfter = 3600000000000\<rparr>"

definition ex_csr :: certRequest where
  "ex_csr = \<lparr>csr_Raw = ''csr'', csr_RawTBS = ''tbs'',
     csr_Subject = \<lparr>nm_CommonName = ''DEV1.example.com'', nm_OrganizationalUnit = [],
       nm_Organization = []\<rparr>,
     csr_DNSNames = [''alt.example.com''], csr_IPAddresses = [], csr_URIs = [],
     csr_PublicKey = RSAPub 2048\<rparr>"

definition ex_req :: "Operation \<Rightarrow> certificate option \<Rightarrow> string \<Rightarrow> Request" where
  "ex_req op c secret = \<lparr>rq_Operation = op, rq_ClientCert = c, rq_CSR = Some ex_csr,
     rq_ChallengePassword = secret, rq_Label = '''', rq_RemoteAddr = ''192.0.2.1:4000''\<rparr>"

definition ex_inventory :: FileInventory where
  "ex_inventory = \<lparr>fi_path = ''inventory.yaml'', fi_devices =
     [\<lparr>de_CN = ''*.example.com'', de_Serial = '''', de_Fingerprint = '''',
       de_AllowedDNSNames = [''*.example.com''], de_RequireChallenge = False, de_Role = ''''\<rparr>]\<rparr>"

definition ex_pipeline :: "bool \<Rightarrow> StaticSecret Pipeline" where
  "ex_pipeline requireChallenge =
    standardPipeline exampleLib (Some (FileInventory_Lookup exampleLib ex_inventory))
      (Some StaticSecret_Validate)
      (NewRuleSelector [\<lparr>rl_Match = ''ou:meters'', rl_Role = ''meter-role''\<rparr>] ''default-role'')
      (NewStandardConstraints '''' 3600000000000) requireChallenge False"

definition ex_secret :: StaticSecret where "ex_secret = \<lparr>ss_secret = ''s3cret''\<rparr>"

lemma ex_reenroll:
  "Pipeline_Authorize exampleLib (ex_pipeline False) (ex_req OpSimpleReenroll (Some ex_cert) '''') ex_secret =
     (Ok \<lparr>dc_Allow = True, dc_Role = ''meter-role'',
        dc_Constraints = \<lparr>cc_CommonName = ''dev1.example.com'', cc_DNSNames = [''alt.example.com''],
          cc_IPs = [], cc_URIs = [], cc_TTL = 3600000000000, cc_ExcludeCNFromSANs = False\<rparr>,
        dc_Reason = Reason ''authorized''\<rparr>, ex_secret)"
  by code_simp

lemma ex_enroll:
  "Pipeline_Authorize exampleLib (ex_pipeline True) (ex_req OpSimpleEnroll None ''s3cret'') ex_secret =
     (Ok \<lparr>dc_Allow = True, dc_Role = ''default-role'',
        dc_Constraints = \<lparr>cc_CommonName = ''DEV1.example.com'', cc_DNSNames = [''alt.example.com''],
          cc_IPs = [], cc_URIs = [], cc_TTL = 3600000000000, cc_ExcludeCNFromSANs = False\<rparr>,
        dc_Reason = Reason ''authorized''\<rparr>, ex_secret)"
  by code_simp

section \<open>Authentication and authorization\<close>

text \<open>
  (C6) Authorization is never authentication. When the pipeline allows a request, the request
  carries a verified client certificate, or the configured validator accepted a non-empty secret,
  or enrollment without authentication was switched on.
\<close>

theorem allow_needs_authentication:
  assumes "Pipeline_Authorize G p req s = (Ok d, s')" and "dc_Allow d"
  shows "rq_ClientCert req \<noteq> None \<or> pl_AllowUnauthenticated p \<or>
    (\<exists>validate. pl_Challenge p = Some validate \<and> rq_ChallengePassword req \<noteq> '''' \<and>
       validate (resolveIdentity G req) (rq_ChallengePassword req) s = (Ok (), s'))"
proof -
  from assms obtain rec v where
    ch: "challengeStage p (resolveIdentity G req) rec (rq_ChallengePassword req) s = (Inr v, s')"
    and d: "d = grantStage p (resolveIdentity G req) rec v"
    by (rule Authorize_Allow)
  from grantStage_Allow(1) [OF assms(2) [unfolded d]] ch show ?thesis
    by (cases v) (auto dest: challengeStage_validated)
qed

theorem allow_needs_authentication_witness:
  "\<exists>validate. pl_Challenge (ex_pipeline True) = Some validate \<and> ''s3cret'' \<noteq> '''' \<and>
      validate (resolveIdentity exampleLib (ex_req OpSimpleEnroll None ''s3cret'')) ''s3cret'' ex_secret
        = (Ok (), ex_secret)"
  using allow_needs_authentication [OF ex_enroll] by (simp add: ex_req_def ex_pipeline_def)

text \<open>
  (C7) A required challenge is never waived: when the policy or the inventory record of the device
  requires one and the pipeline allows, a validator is configured and it accepted the secret of the
  request; with no validator the answer is a denial.
\<close>

theorem required_challenge_is_validated:
  assumes "Pipeline_Authorize G p req s = (Ok d, s')"
    and "pipelineRecord p (resolveIdentity G req) = Ok rec"
    and "pl_RequireChallenge p \<or> rec_RequireChallenge rec"
  shows "dc_Allow d \<longrightarrow>
    (\<exists>validate. pl_Challenge p = Some validate \<and>
       validate (resolveIdentity G req) (rq_ChallengePassword req) s = (Ok (), s'))"
proof
  assume "dc_Allow d"
  with assms(1) obtain rec' v where
    rec': "pipelineRecord p (resolveIdentity G req) = Ok rec'"
    and ch: "challengeStage p (resolveIdentity G req) rec' (rq_ChallengePassword req) s = (Inr v, s')"
    by (rule Authorize_Allow)
  from rec' assms(2) have "rec' = rec" by simp
  with challengeStage_required [OF ch] assms(3) show
    "\<exists>validate. pl_Challenge p = Some validate \<and>
       validate (resolveIdentity G req) (rq_ChallengePassword req) s = (Ok (), s')"
    by blast
qed

theorem required_challenge_is_validated_witness:
  "\<exists>validate. pl_Challenge (ex_pipeline True) = Some validate \<and>
     validate (resolveIdentity exampleLib (ex_req OpSimpleEnroll None ''s3cret'')) ''s3cret'' ex_secret
       = (Ok (), ex_secret)"
proof -
  let ?i = "resolveIdentity exampleLib (ex_req OpSimpleEnroll None ''s3cret'')"
  obtain rec where "pipelineRecord (ex_pipeline True) ?i = Ok rec"
    by (auto simp: pipelineRecord_def ex_pipeline_def FileInventory_Lookup_def Let_def)
  from required_challenge_is_validated [OF ex_enroll this] show ?thesis
    by (simp add: ex_pipeline_def ex_req_def)
qed

text \<open>
  A secret that is supplied is checked: whenever a validator is configured and rejects the
  non-empty secret of a request, the pipeline does not allow it, required challenge or not and with
  or without a client certificate.
\<close>

theorem wrong_secret_is_denied:
  assumes "pl_Challenge p = Some validate"
    and "rq_ChallengePassword req \<noteq> ''''"
    and "fst (validate (resolveIdentity G req) (rq_ChallengePassword req) s) = Err e"
    and "Pipeline_Authorize G p req s = (Ok d, s')"
  shows "\<not> dc_Allow d"
proof
  assume "dc_Allow d"
  with assms(4) obtain rec v where
    "challengeStage p (resolveIdentity G req) rec (rq_ChallengePassword req) s = (Inr v, s')"
    by (rule Authorize_Allow)
  with assms(1-3) show False
    by (auto simp: challengeStage_def split: if_splits prod.splits sum.splits)
qed

theorem wrong_secret_is_denied_witness:
  "\<exists>d s'. Pipeline_Authorize exampleLib (ex_pipeline False)
      (ex_req OpSimpleReenroll (Some ex_cert) ''guess'') ex_secret = (Ok d, s') \<and> \<not> dc_Allow d"
proof -
  have "fst (Pipeline_Authorize exampleLib (ex_pipeline False)
      (ex_req OpSimpleReenroll (Some ex_cert) ''guess'') ex_secret) =
      Ok (Deny (Reason ''challenge validation failed''))" by code_simp
  then obtain d s' where run: "Pipeline_Authorize exampleLib (ex_pipeline False)
      (ex_req OpSimpleReenroll (Some ex_cert) ''guess'') ex_secret = (Ok d, s')"
    by (metis prod.collapse)
  have "\<not> dc_Allow d"
    by (rule wrong_secret_is_denied [OF _ _ _ run, where validate = StaticSecret_Validate
          and e = ErrChallenge])
      (simp_all add: ex_pipeline_def ex_req_def StaticSecret_Validate_def constantTimeCompare_def
        ex_secret_def)
  with run show ?thesis by blast
qed

text \<open>
  Re-enrollment without a client certificate is denied before anything else happens: the
  answer does not depend on the pipeline's inventory, challenge, roles or constraints, and no
  one-time code is consumed.
\<close>

theorem reenroll_needs_certificate:
  assumes "rq_Operation req = OpSimpleReenroll" and "rq_ClientCert req = None"
  shows "Pipeline_Authorize G p req s =
    (Ok (Deny (Reason ''re-enrollment requires a client certificate'')), s)"
  using assms by (simp add: Authorize_stages)

theorem reenroll_needs_certificate_witness:
  "Pipeline_Authorize exampleLib (ex_pipeline False) (ex_req OpSimpleReenroll None ''s3cret'') ex_secret
     = (Ok (Deny (Reason ''re-enrollment requires a client certificate'')), ex_secret)"
  by (rule reenroll_needs_certificate) (simp_all add: ex_req_def)

section \<open>Names\<close>

text \<open>
  Identity continuity. In identity mode, what the pipeline allows to a request with a verified
  client certificate is pinned to that certificate: the common name is the certificate's own, every
  DNS name is one of the certificate's or matched by one of its names, there are no IP or URI names,
  and the lifetime is the configured maximum.
\<close>

lemma identity_mode_pins:
  assumes "Pipeline_Authorize G (standardPipeline G iv ch roles cons rc au) req s = (Ok d, s')"
    and "dc_Allow d" and "sc_Mode cons = SANModeIdentity" and "rq_ClientCert req = Some c"
  shows "cc_CommonName (dc_Constraints d) = nm_CommonName (crt_Subject c) \<and>
    (\<forall>n\<in>set (cc_DNSNames (dc_Constraints d)). n \<in> set (crt_DNSNames c) \<or>
      (\<exists>p\<in>insert (nm_CommonName (crt_Subject c)) (set (crt_DNSNames c)). globMatch G p n)) \<and>
    cc_IPs (dc_Constraints d) = [] \<and> cc_URIs (dc_Constraints d) = [] \<and>
    cc_TTL (dc_Constraints d) = sc_MaxValidity cons"
proof -
  from assms(1,2) obtain rec where
    b: "StandardConstraints_Build G cons (resolveIdentity G req) rec = Ok (dc_Constraints d)"
    by (rule standard_allow_build)
  have f: "fromAuthenticatedIdentity G cons (resolveIdentity G req) = Ok (dc_Constraints d)"
    by (rule Build_identity_auth [OF b assms(3)]) (simp add: assms(4))
  note ids = resolveIdentity_cert [OF assms(4), of G]
  have "\<forall>n\<in>set (cc_DNSNames (dc_Constraints d)). n \<in> set (crt_DNSNames c) \<or>
      (\<exists>p\<in>insert (nm_CommonName (crt_Subject c)) (set (crt_DNSNames c)). globMatch G p n)"
    using fromAuthenticatedIdentity_Ok(2,3) [OF f] ids by (auto split: if_splits)
  then show ?thesis
    using fromAuthenticatedIdentity_Ok(1,5) [OF f] Build_TTL [OF b] ids by simp
qed

text \<open>
  (C8) In identity mode a certificate without wildcard names cannot be widened: what the pipeline allows to a
  request with such a verified certificate has the common name of that certificate, only DNS names that are, up to
  case and surrounding space, names the certificate already has, and no IP or URI name.\<close>

theorem identity_mode_no_widening:
  assumes "Pipeline_Authorize G (standardPipeline G iv ch roles cons rc au) req s = (Ok d, s')"
    and "dc_Allow d" and "sc_Mode cons = SANModeIdentity" and "rq_ClientCert req = Some c"
    and "\<forall>p\<in>insert (nm_CommonName (crt_Subject c)) (set (crt_DNSNames c)). \<not> wildcard G p"
  shows "cc_CommonName (dc_Constraints d) = nm_CommonName (crt_Subject c) \<and>
    canon G ` set (cc_DNSNames (dc_Constraints d))
      \<subseteq> canon G ` insert (nm_CommonName (crt_Subject c)) (set (crt_DNSNames c)) \<and>
    cc_IPs (dc_Constraints d) = [] \<and> cc_URIs (dc_Constraints d) = []"
proof -
  note pins = identity_mode_pins [OF assms(1-4)]
  have "canon G n \<in> canon G ` insert (nm_CommonName (crt_Subject c)) (set (crt_DNSNames c))"
    if "n \<in> set (cc_DNSNames (dc_Constraints d))" for n
    using bspec [OF pins [THEN conjunct2, THEN conjunct1] that]
  proof (elim disjE bexE)
    fix p assume p: "p \<in> insert (nm_CommonName (crt_Subject c)) (set (crt_DNSNames c))" "globMatch G p n"
    then have "canon G n = canon G p" using assms(5) by (simp add: globMatch_exact)
    with p(1) show ?thesis by (metis imageI)
  qed simp
  then have "canon G ` set (cc_DNSNames (dc_Constraints d))
      \<subseteq> canon G ` insert (nm_CommonName (crt_Subject c)) (set (crt_DNSNames c))" by (rule image_subsetI)
  with pins show ?thesis by simp
qed

theorem identity_mode_no_widening_witness:
  "canon exampleLib ` {''alt.example.com''}
    \<subseteq> canon exampleLib ` {''dev1.example.com'', ''alt.example.com''}"
proof -
  have "\<not> wildcard exampleLib ''dev1.example.com''" "\<not> wildcard exampleLib ''alt.example.com''"
    by code_simp+
  then show ?thesis
    using identity_mode_no_widening [OF ex_reenroll [unfolded ex_pipeline_def], where c = ex_cert]
    by (simp add: NewStandardConstraints_def SANModeIdentity_def ex_req_def ex_cert_def)
qed

text \<open>
  Without a client certificate (in identity mode) and always in allowlist mode, every name that
  is allowed is matched by a pattern of the inventory record of the device, and a record without
  patterns allows nothing.
\<close>

theorem allowlist_bounds_names:
  assumes "Pipeline_Authorize G (standardPipeline G iv ch roles cons rc au) req s = (Ok d, s')"
    and "dc_Allow d"
    and "sc_Mode cons = SANModeAllowlist \<or> sc_Mode cons = SANModeIdentity \<and> rq_ClientCert req = None"
    and "pipelineRecord (standardPipeline G iv ch roles cons rc au) (resolveIdentity G req) = Ok rec"
  shows "rec_AllowedDNSNames rec \<noteq> [] \<and>
    (\<forall>n\<in>set (cc_DNSNames (dc_Constraints d)). \<exists>p\<in>set (rec_AllowedDNSNames rec). globMatch G p n) \<and>
    (cc_CommonName (dc_Constraints d) \<noteq> '''' \<longrightarrow>
      (\<exists>p\<in>set (rec_AllowedDNSNames rec). globMatch G p (cc_CommonName (dc_Constraints d)))) \<and>
    cc_IPs (dc_Constraints d) = [] \<and> cc_URIs (dc_Constraints d) = []"
proof -
  from assms(1,2) obtain rec' where
    b: "StandardConstraints_Build G cons (resolveIdentity G req) rec' = Ok (dc_Constraints d)"
    and r: "pipelineRecord (standardPipeline G iv ch roles cons rc au) (resolveIdentity G req) = Ok rec'"
    by (rule standard_allow_build)
  from r assms(4) have "rec' = rec" by simp
  with b assms(3) have a: "allowlist G cons (resolveIdentity G req) rec = Ok (dc_Constraints d)"
    by (auto intro: Build_allowlist)
  then have "rec_AllowedDNSNames rec \<noteq> []" by (auto simp: allowlist_def)
  with allowlist_Ok [OF a] show ?thesis by auto
qed

theorem allowlist_bounds_names_witness:
  "\<exists>p\<in>set [''*.example.com'']. globMatch exampleLib p ''alt.example.com''"
proof -
  let ?i = "resolveIdentity exampleLib (ex_req OpSimpleEnroll None ''s3cret'')"
  have "pipelineRecord (ex_pipeline True) ?i = Ok \<lparr>rec_Found = True,
      rec_AllowedDNSNames = [''*.example.com''], rec_RequireChallenge = False, rec_Role = ''''\<rparr>"
    by code_simp
  from allowlist_bounds_names [OF ex_enroll [unfolded ex_pipeline_def] _ _ this [unfolded ex_pipeline_def]]
  show ?thesis by (simp add: NewStandardConstraints_def ex_req_def)
qed

text \<open>
  Every decision of the pipeline that allows carries a role and constraints that name a
  subject, so that the check of an issued certificate is never skipped: a certificate that
  VerifyIssued accepts for the decision has passed the check of its names.
\<close>

theorem allowed_names_are_checked:
  assumes "Pipeline_Authorize G (standardPipeline G iv ch roles cons rc au) req s = (Ok d, s')"
    and "dc_Allow d" and "VerifyIssued G (Some cert) (dc_Constraints d) = Ok ()"
  shows "dc_Role d \<noteq> '''' \<and> namesConstrained (dc_Constraints d) \<and>
    verifyNames G cert (dc_Constraints d) = Ok ()"
  using pipe.allow_role [OF assms(1,2)] pipe.allow_named [OF assms(1,2)]
    pipe.delivered_names_checked [OF assms] by blast

theorem allowed_names_are_checked_witness:
  "verifyNames exampleLib ex_cert \<lparr>cc_CommonName = ''DEV1.example.com'',
     cc_DNSNames = [''alt.example.com''], cc_IPs = [], cc_URIs = [], cc_TTL = 3600000000000,
     cc_ExcludeCNFromSANs = False\<rparr> = Ok ()"
proof -
  have "VerifyIssued exampleLib (Some ex_cert) \<lparr>cc_CommonName = ''DEV1.example.com'',
     cc_DNSNames = [''alt.example.com''], cc_IPs = [], cc_URIs = [], cc_TTL = 3600000000000,
     cc_ExcludeCNFromSANs = False\<rparr> = Ok ()" by code_simp
  then show ?thesis
    using allowed_names_are_checked [OF ex_enroll [unfolded ex_pipeline_def], of ex_cert] by simp
qed

text \<open>
  The wildcard language, by its normal form: a pattern matches a value exactly when it is the
  single star, or it is a star and a dotted suffix and the value is that suffix after at least one
  more byte, or it is no wildcard and equals the value. In particular a suffix pattern never matches
  the bare domain.
\<close>

theorem globMatch_language:
  "globMatch G p v \<longleftrightarrow>
     (if canon G p = ''*'' then True
      else case canon G p of
        CHR ''*'' # CHR ''.'' # d \<Rightarrow> (\<exists>q. q \<noteq> [] \<and> canon G v = q @ CHR ''.'' # d)
      | e \<Rightarrow> canon G v = e)"
proof (cases "hasPrefix (canon G p) ''*.''")
  case True
  then obtain d where "canon G p = CHR ''*'' # CHR ''.'' # d" by (auto simp: hasPrefix_iff)
  then show ?thesis by (subst globMatch_canon) (auto simp: wildcard_def hasPrefix_iff)
next
  case False
  then have "(case canon G p of
        CHR ''*'' # CHR ''.'' # d \<Rightarrow> (\<exists>q. q \<noteq> [] \<and> canon G v = q @ CHR ''.'' # d)
      | e \<Rightarrow> canon G v = e) \<longleftrightarrow> canon G v = canon G p"
    by (auto simp: hasPrefix_iff split: list.split char.split bool.split)
  with False show ?thesis
    by (subst globMatch_canon) (auto simp: wildcard_def hasPrefix_iff)
qed

section \<open>The check of an issued certificate\<close>

text \<open>
  The case-insensitive comparison of issued names is equality after mapping the ASCII capitals
  to lower case, and nothing else: bytes beyond ASCII must be equal.
\<close>

theorem equalFoldASCII_lower:
  "equalFoldASCII a b \<longleftrightarrow> map ascii_lower a = map ascii_lower b"
proof -
  have "foldByte = byteOf \<circ> ascii_lower"
    by (auto simp: fun_eq_iff foldByte_def ascii_lower_def Let_def byteOf_char_of)
  moreover have "inj byteOf" by (simp add: inj_def byteOf_inject)
  ultimately have "map foldByte a = map foldByte b \<longleftrightarrow> map ascii_lower a = map ascii_lower b"
    by (metis inj_map_eq_map map_map)
  then show ?thesis by (simp add: equalFoldASCII_map)
qed

text \<open>
  (C9) What VerifyIssued accepts, exactly. Names: every certificate, where the decision names nothing; otherwise
  one whose common name is the decided one up to ASCII case, where the decision has one (it goes unchecked where the
  decision has none), whose DNS names are each a decided one or the decided common name, unless that is
  excluded, and whose IP and URI names are each a decided one. Lifetime: any, where the decision sets no
  limit; otherwise at most the limit and one hour, in 64-bit nanoseconds: where the sum is exactly the
  greatest value the saturated difference never exceeds it, and where it overflows, only a certificate that ends some 292
  years before it begins is accepted.\<close>

theorem verifyIssued_exact:
  assumes "int64 (cc_TTL c)"
  shows "VerifyIssued G (Some cert) c = Ok () \<longleftrightarrow>
    (cc_CommonName c = '''' \<and> cc_DNSNames c = [] \<and> cc_IPs c = [] \<and> cc_URIs c = [] \<or>
     (cc_CommonName c \<noteq> '''' \<longrightarrow> equalFoldASCII (nm_CommonName (crt_Subject cert)) (cc_CommonName c)) \<and>
     (\<forall>n\<in>set (crt_DNSNames cert). (\<exists>a\<in>set (cc_DNSNames c). equalFoldASCII a n) \<or>
        cc_CommonName c \<noteq> '''' \<and> \<not> cc_ExcludeCNFromSANs c \<and> equalFoldASCII (cc_CommonName c) n) \<and>
     (\<forall>ip\<in>set (crt_IPAddresses cert). \<exists>a\<in>set (cc_IPs c). \<exists>p. lib_parseIP G a = Some p \<and> ipEqual p ip) \<and>
     (\<forall>u\<in>set (crt_URIs cert). \<exists>a\<in>set (cc_URIs c). equalFoldASCII a (urlString u))) \<and>
    (cc_TTL c \<le> 0 \<or>
     (let lifetime = crt_NotAfter cert - crt_NotBefore cert; limit = cc_TTL c + hour
      in if limit < 2 ^ 63 - 1 then lifetime \<le> limit else limit = 2 ^ 63 - 1 \<or> lifetime \<le> limit - 2 ^ 64))"
proof -
  have small: "time_Sub x y \<le> wrap64 (cc_TTL c + ttlSlack) \<longleftrightarrow>
      (if cc_TTL c + hour < 2 ^ 63 - 1 then x - y \<le> cc_TTL c + hour else cc_TTL c + hour = 2 ^ 63 - 1 \<or> x - y \<le> cc_TTL c + hour - 2 ^ 64)"
    if "0 < cc_TTL c" for x y
  proof (cases "cc_TTL c + hour \<le> maxInt64")
    case True
    then have "wrap64 (cc_TTL c + ttlSlack) = cc_TTL c + hour"
      using that wrap64_id [of "cc_TTL c + ttlSlack"] by (simp add: int64_def ttlSlack_def hour_def minInt64_def)
    with that True show ?thesis by (auto simp: time_Sub_def minInt64_def maxInt64_def hour_def)
  next
    case False
    then have "wrap64 (cc_TTL c + ttlSlack) = cc_TTL c + ttlSlack - 18446744073709551616"
      using assms by (intro wrap64_overflow) (auto simp: int64_def maxInt64_def ttlSlack_def hour_def)
    with False assms show ?thesis by (auto simp: time_Sub_def int64_def minInt64_def maxInt64_def ttlSlack_def hour_def)
  qed
  have names: "(namesConstrained c \<longrightarrow> verifyNames G cert c = Ok ()) \<longleftrightarrow>
     cc_CommonName c = '''' \<and> cc_DNSNames c = [] \<and> cc_IPs c = [] \<and> cc_URIs c = [] \<or>
     (cc_CommonName c \<noteq> '''' \<longrightarrow> equalFoldASCII (nm_CommonName (crt_Subject cert)) (cc_CommonName c)) \<and>
     (\<forall>n\<in>set (crt_DNSNames cert). (\<exists>a\<in>set (cc_DNSNames c). equalFoldASCII a n) \<or>
        cc_CommonName c \<noteq> '''' \<and> \<not> cc_ExcludeCNFromSANs c \<and> equalFoldASCII (cc_CommonName c) n) \<and>
     (\<forall>ip\<in>set (crt_IPAddresses cert). \<exists>a\<in>set (cc_IPs c). \<exists>p. lib_parseIP G a = Some p \<and> ipEqual p ip) \<and>
     (\<forall>u\<in>set (crt_URIs cert). \<exists>a\<in>set (cc_URIs c). equalFoldASCII a (urlString u))"
    by (auto simp: verifyNames_Ok_iff containsFold_iff containsIP_iff permittedDNS_def namesConstrained_def)
  have lifetime: "(0 < cc_TTL c \<longrightarrow> time_Sub (crt_NotAfter cert) (crt_NotBefore cert) \<le> wrap64 (cc_TTL c + ttlSlack)) \<longleftrightarrow>
    (cc_TTL c \<le> 0 \<or> (let lifetime = crt_NotAfter cert - crt_NotBefore cert; limit = cc_TTL c + hour
      in if limit < 2 ^ 63 - 1 then lifetime \<le> limit else limit = 2 ^ 63 - 1 \<or> lifetime \<le> limit - 2 ^ 64))"
    using small [of "crt_NotAfter cert" "crt_NotBefore cert"] by (cases "0 < cc_TTL c") (simp_all add: Let_def)
  show ?thesis unfolding VerifyIssued_Ok_iff option.inject ex_simps simp_thms names [symmetric] lifetime [symmetric] by blast
qed

theorem verifyIssued_exact_witness:
  "VerifyIssued exampleLib (Some ex_cert)
     (noConstraints\<lparr>cc_CommonName := ''dev1.example.com'', cc_TTL := 3600000000000\<rparr>) \<noteq> Ok () \<and>
   VerifyIssued exampleLib (Some (ex_cert\<lparr>crt_NotAfter := crt_NotBefore ex_cert\<rparr>)) (noConstraints\<lparr>cc_TTL := 3600000000000\<rparr>) = Ok ()"
proof
  have "int64 3600000000000" by (simp add: int64_def minInt64_def maxInt64_def)
  then show "VerifyIssued exampleLib (Some ex_cert)
      (noConstraints\<lparr>cc_CommonName := ''dev1.example.com'', cc_TTL := 3600000000000\<rparr>) \<noteq> Ok ()"
    by (subst verifyIssued_exact)
      (auto simp: noConstraints_def hour_def ex_cert_def equalFoldASCII_map foldByte_def byteOf_def)
  show "VerifyIssued exampleLib (Some (ex_cert\<lparr>crt_NotAfter := crt_NotBefore ex_cert\<rparr>)) (noConstraints\<lparr>cc_TTL := 3600000000000\<rparr>) = Ok ()"
    using \<open>int64 3600000000000\<close> by (subst verifyIssued_exact) (simp_all add: noConstraints_def hour_def Let_def)
qed

text \<open>
  The 64-bit sum of the approved lifetime and the slack fails closed: where it overflows, no
  certificate whose validity does not end before it begins is accepted.
\<close>

theorem verifyIssued_overflow_fails_closed:
  assumes "0 < cc_TTL c" and "int64 (cc_TTL c)" and "maxInt64 < cc_TTL c + ttlSlack"
    and "crt_NotBefore cert \<le> crt_NotAfter cert"
  shows "VerifyIssued G (Some cert) c \<noteq> Ok ()"
proof -
  have "wrap64 (cc_TTL c + ttlSlack) = cc_TTL c + ttlSlack - 18446744073709551616"
    using assms by (intro wrap64_overflow) (auto simp: int64_def maxInt64_def ttlSlack_def hour_def)
  then show ?thesis
    using assms by (auto simp: VerifyIssued_Ok_iff time_Sub_def int64_def maxInt64_def minInt64_def
        ttlSlack_def hour_def)
qed

theorem verifyIssued_overflow_fails_closed_witness:
  "VerifyIssued exampleLib (Some ex_cert) (noConstraints\<lparr>cc_TTL := 9223372036854775807\<rparr>) \<noteq> Ok ()"
  by (rule verifyIssued_overflow_fails_closed)
    (simp_all add: noConstraints_def int64_def maxInt64_def minInt64_def ttlSlack_def hour_def ex_cert_def)

text \<open>
  The common name is outside the all-or-nothing rule: constraints that name a subject by DNS
  names alone accept an issued certificate with any common name, as long as the rest of it fits.
\<close>

theorem verifyIssued_ignores_unconstrained_CN:
  assumes "cc_CommonName c = ''''" and "VerifyIssued G (Some cert) c = Ok ()"
  shows "VerifyIssued G
    (Some (cert\<lparr>crt_Subject := (crt_Subject cert)\<lparr>nm_CommonName := cn\<rparr>\<rparr>)) c = Ok ()"
  using assms by (auto simp: VerifyIssued_Ok_iff verifyNames_Ok_iff)

theorem verifyIssued_ignores_unconstrained_CN_witness:
  "VerifyIssued exampleLib
     (Some (ex_cert\<lparr>crt_Subject := (crt_Subject ex_cert)\<lparr>nm_CommonName := ''root.example.com''\<rparr>\<rparr>))
     (noConstraints\<lparr>cc_DNSNames := [''dev1.example.com'', ''alt.example.com'']\<rparr>) = Ok ()"
proof (rule verifyIssued_ignores_unconstrained_CN)
  show "VerifyIssued exampleLib (Some ex_cert)
     (noConstraints\<lparr>cc_DNSNames := [''dev1.example.com'', ''alt.example.com'']\<rparr>) = Ok ()"
    by code_simp
qed (simp add: noConstraints_def)

section \<open>Challenges\<close>

text \<open>
  (C10) One-time codes are single use. In every sequence of registrations and validations on a new
  store, at most as many validations succeed through a key as codes were registered for it.
\<close>

theorem otp_single_use:
  "count_list (store_consumed xs NewMemoryStore) k \<le> store_adds k xs"
  using store_consumed_bound [of NewMemoryStore xs k]
  by (simp add: NewMemoryStore_def store_ok_def has_code_def go_map_simps)

text \<open>
  What a one-time code needs to succeed: a non-empty secret that equals the code registered for
  the first candidate key of the identity that has one, not after its expiry; the code is then gone,
  so the same secret fails for the same identity at any later time unless another key still has it.
\<close>

theorem otp_success_consumes:
  assumes "store_ok m" and "MemoryStore_Validate now i p m = (Ok (), m')"
  shows "\<exists>k code. activeKey m i = Some k \<and> gm_get (ms_codes m) k = Some code \<and>
    now \<le> otp_expires code \<and> p = otp_secret code \<and> p \<noteq> '''' \<and>
    ms_codes m' = gm_del k (ms_codes m) \<and> gm_get (ms_codes m') k = None"
proof -
  have ok: "fst (MemoryStore_Validate now i p m) = Ok ()" using assms(2) by simp
  then obtain k code where k: "activeKey m i = Some k" "gm_get (ms_codes m) k = Some code"
    "now \<le> otp_expires code" "p = otp_secret code" "p \<noteq> ''''"
    by (auto simp: Validate_Ok_iff)
  from Validate_Ok_consumes [OF ok k(1)] assms have "ms_codes m' = gm_del k (ms_codes m)" by simp
  with k assms(1) show ?thesis by (auto simp: store_ok_def gm.get_del)
qed

definition ex_store :: MemoryStore where
  "ex_store = MemoryStore_Add 0 ''dev1.example.com'' ''otp-1'' 60 NewMemoryStore"

theorem otp_success_consumes_witness:
  "\<exists>k code. activeKey ex_store (emptyIdentity\<lparr>id_RequestedCN := ''dev1.example.com''\<rparr>) = Some k \<and>
     gm_get (ms_codes ex_store) k = Some code \<and> (59::int) \<le> otp_expires code \<and>
     ''otp-1'' = otp_secret code \<and> ''otp-1'' \<noteq> '''' \<and>
     ms_codes NewMemoryStore = gm_del k (ms_codes ex_store) \<and> gm_get (ms_codes NewMemoryStore) k = None"
proof (rule otp_success_consumes)
  show "store_ok ex_store" by code_simp
  show "MemoryStore_Validate 59 (emptyIdentity\<lparr>id_RequestedCN := ''dev1.example.com''\<rparr>) ''otp-1'' ex_store
      = (Ok (), NewMemoryStore)" by code_simp
qed

section \<open>Inventory and roles\<close>

text \<open>
  A reload of the inventory is all or nothing: an unreadable file, a file that does not decode
  or an entry without a match key leaves the loaded entries as they were, and after a successful
  reload every entry has a match key.
\<close>

theorem reload_all_or_nothing:
  "case FileInventory_Reload readFile yamlUnmarshal f of
     (Inl _, f') \<Rightarrow> f' = f
   | (Inr _, f') \<Rightarrow> inventory_wf f' \<and> (\<exists>raw. readFile (fi_path f) = Ok raw \<and>
       yamlUnmarshal raw = Ok (fi_devices f')) \<and> fi_path f' = fi_path f"
  by (auto simp: FileInventory_Reload_def inventory_wf_def firstWithoutKey_None
      split: sum.splits option.splits)

text \<open>
  A loaded inventory admits an anonymous request only by name: an entry that is found for an
  identity without client certificate has a common name pattern that matches the requested name, and
  pins neither a serial number nor a fingerprint.
\<close>

theorem inventory_anonymous_by_name:
  assumes "inventory_wf f" and "rq_ClientCert req = None"
    and "FileInventory_Lookup G f (resolveIdentity G req) = Ok rec" and "rec_Found rec"
  shows "\<exists>d\<in>set (fi_devices f). de_CN d \<noteq> '''' \<and> de_Serial d = '''' \<and> de_Fingerprint d = '''' \<and>
    globMatch G (de_CN d) (id_RequestedCN (resolveIdentity G req)) \<and>
    rec_AllowedDNSNames rec = de_AllowedDNSNames d \<and> rec_Role rec = de_Role d"
proof -
  let ?i = "resolveIdentity G req"
  note anon = resolveIdentity_no_cert [OF assms(2), of G]
  have "rec = lookupDevices G (fi_devices f) ?i (id_RequestedCN ?i)"
    using assms(3) anon by (simp add: FileInventory_Lookup_def)
  with lookupDevices_Found assms(4) obtain d where d: "d \<in> set (fi_devices f)"
    "entryMatches G d ?i (id_RequestedCN ?i)"
    "rec_AllowedDNSNames rec = de_AllowedDNSNames d" "rec_Role rec = de_Role d"
    by blast
  have "de_Serial d = '''' \<and> de_Fingerprint d = ''''"
    using entryMatches_anonymous [OF d(2)] anon by simp
  moreover have "hasMatchKey d" using assms(1) d(1) by (simp add: inventory_wf_def list_all_iff)
  ultimately show ?thesis using d by (auto simp: entryMatches_iff hasMatchKey_def)
qed

theorem inventory_anonymous_by_name_witness:
  "\<exists>d\<in>set (fi_devices ex_inventory). de_CN d \<noteq> '''' \<and> de_Serial d = '''' \<and> de_Fingerprint d = '''' \<and>
     globMatch exampleLib (de_CN d)
       (id_RequestedCN (resolveIdentity exampleLib (ex_req OpSimpleEnroll None ''''))) \<and>
     rec_AllowedDNSNames \<lparr>rec_Found = True, rec_AllowedDNSNames = [''*.example.com''],
       rec_RequireChallenge = False, rec_Role = ''''\<rparr> = de_AllowedDNSNames d \<and>
     rec_Role \<lparr>rec_Found = True, rec_AllowedDNSNames = [''*.example.com''],
       rec_RequireChallenge = False, rec_Role = ''''\<rparr> = de_Role d"
proof (rule inventory_anonymous_by_name)
  show "inventory_wf ex_inventory" by code_simp
  show "rq_ClientCert (ex_req OpSimpleEnroll None '''') = None" by (simp add: ex_req_def)
  show "FileInventory_Lookup exampleLib ex_inventory
      (resolveIdentity exampleLib (ex_req OpSimpleEnroll None '''')) = Ok \<lparr>rec_Found = True,
        rec_AllowedDNSNames = [''*.example.com''], rec_RequireChallenge = False, rec_Role = ''''\<rparr>"
    by code_simp
qed simp

text \<open>
  What a role selector can see of an anonymous request: the keys ou and o never match one, and
  the key serial matches one exactly when its pattern is the single star or empty. So the rule
  serial:* does select anonymous requests.
\<close>

theorem anonymous_role_selectors:
  assumes "rq_ClientCert req = None" and "trimSpace sel \<noteq> ''*''"
    and "cutByte (CHR '':'') (trimSpace sel) = Some (k, pat)"
  shows "(canon G k \<in> {''ou'', ''o''} \<longrightarrow> \<not> matchSelector G sel (resolveIdentity G req)) \<and>
    (canon G k = ''serial'' \<longrightarrow>
       (matchSelector G sel (resolveIdentity G req) \<longleftrightarrow> canon G (trimSpace pat) \<in> {''*'', ''''}))"
proof -
  note anon = resolveIdentity_no_cert [OF assms(1), of G]
  have canon_Nil: "canon G [] = []"
    by (simp add: canon_def trimSpace_def trim_both_def toLower_def runes_def)
  have "globMatch G q '''' \<longleftrightarrow> canon G q \<in> {''*'', ''''}" for q
    by (subst globMatch_canon) (auto simp: canon_Nil wildcard_def hasPrefix_iff)
  then show ?thesis
    using assms(2,3) anon by (auto simp: matchSelector_def canon_def Let_def)
qed

theorem anonymous_role_selectors_witness:
  "matchSelector exampleLib ''serial:*'' (resolveIdentity exampleLib (ex_req OpSimpleEnroll None ''''))"
proof -
  have "trimSpace ''serial:*'' \<noteq> ''*''" "cutByte (CHR '':'') (trimSpace ''serial:*'') = Some (''serial'', ''*'')"
    "canon exampleLib ''serial'' = ''serial''" "canon exampleLib (trimSpace ''*'') = ''*''"
    by code_simp+
  then show ?thesis
    using anonymous_role_selectors [of "ex_req OpSimpleEnroll None ''''" "''serial:*''" "''serial''" "''*''"
        exampleLib]
    by (simp add: ex_req_def)
qed

end
