(* ===== verification/Est_Properties.thy ===== *)
theory Est_Properties
  imports Est_Handler Authz_Properties
begin

text \<open>
  What the EST endpoints of \<open>src/internal/est\<close> guarantee: nothing is issued without an allowing
  decision, nothing is delivered that exceeds it, and the client identity of each operation comes
  from its own trust anchor.
\<close>

section \<open>Lemmas on the stages of an enrollment\<close>

lemma est_audit_simps [simp]:
  "\<exists>a. bw_trace (est_audit op req d outcome err w) = bw_trace w @ [AuditEv a]"
  "bw_authz (est_audit op req d outcome err w) = bw_authz w" "bw_bao (est_audit op req d outcome err w) = bw_bao w"
  by (simp_all add: est_audit_def)

lemma frontDoor_Ok:
  assumes "frontDoor G X h r op label = Ok (csrDER, req)"
  obtains csr cert where "readCSR G h r = Ok csrDER" "parseCSR X h csrDER = Ok csr"
    "ValidateKeyType csr (eo_AllowedKeyTypes (eh_opts h)) = Ok ()" "clientIdentity X h r op = Ok cert"
    "rq_Operation req = op" "rq_ClientCert req = cert" "rq_CSR req = Some csr" "rq_Label req = label"
    "rq_RemoteAddr req = hq_RemoteAddr r"
  using assms by (auto simp: frontDoor_def Let_def split: sum.splits prod.splits)

text \<open>The events after a decision that allowed: one call to OpenBao under it.\<close>

lemma enrollIssue_trace:
  "\<exists>new. bw_trace (snd (enrollIssue G X h op csrDER req d w)) = bw_trace w @
      SignEv (dc_Role d) (pemEncode ''CERTIFICATE REQUEST'' csrDER) (toSignOptions (dc_Constraints d)) # new
    \<and> issuance_gated None new"
proof -
  define p where "p = callSign (eh_enroller h) (eh_upstream h) (dc_Role d)
    (pemEncode ''CERTIFICATE REQUEST'' csrDER) (toSignOptions (dc_Constraints d)) w"
  have t: "bw_trace (snd p) = bw_trace w @
      [SignEv (dc_Role d) (pemEncode ''CERTIFICATE REQUEST'' csrDER) (toSignOptions (dc_Constraints d))]"
    by (simp add: p_def)
  show ?thesis
    unfolding enrollIssue_def Let_def p_def [symmetric]
    by (simp add: split_def t est_audit_def split: sum.split option.split)
qed

lemma keyGenIssue_trace:
  "\<exists>opts new. bw_trace (snd (keyGenIssue G X h boundary req d w)) = bw_trace w @
      IssueEv (dc_Role d) (cc_CommonName (dc_Constraints d)) opts # new
    \<and> opts\<lparr>so_KeyType := '''', so_KeyBits := 0\<rparr> = toSignOptions (dc_Constraints d) \<and> issuance_gated None new"
proof -
  define opts where "opts = (toSignOptions (dc_Constraints d))
    \<lparr>so_KeyType := eo_ServerKeyGenKeyType (eh_opts h), so_KeyBits := eo_ServerKeyGenKeyBits (eh_opts h)\<rparr>"
  define p where "p = callIssue (eh_enroller h) (eh_upstream h) (dc_Role d) (cc_CommonName (dc_Constraints d)) opts w"
  have t: "bw_trace (snd p) = bw_trace w @ [IssueEv (dc_Role d) (cc_CommonName (dc_Constraints d)) opts]"
    by (simp add: p_def)
  have "opts\<lparr>so_KeyType := '''', so_KeyBits := 0\<rparr> = toSignOptions (dc_Constraints d)"
    by (simp add: opts_def toSignOptions_def)
  then show ?thesis
    unfolding keyGenIssue_def Let_def opts_def [symmetric] p_def [symmetric]
    by (simp add: split_def t est_audit_def split: sum.split option.split)
qed

lemma authorized_trace:
  assumes "\<And>d w1. dc_Allow d \<Longrightarrow> \<exists>new. bw_trace (snd (issue d w1)) = bw_trace w1 @ new \<and> issuance_gated (Some d) new"
  shows "\<exists>new. bw_trace (snd (authorized h op req issue w)) = bw_trace w @ new \<and> issuance_gated None new"
proof -
  define p where "p = callAuthorize (eh_authz h) req w"
  have t: "bw_trace (snd p) = bw_trace w @ [AuthorizeEv req (fst p)]" by (simp add: p_def)
  show ?thesis
  proof (cases "grantOf (fst p)")
    case None
    then show ?thesis
      unfolding authorized_def Let_def p_def [symmetric]
      by (auto simp: split_def t est_audit_def grantOf_def split: sum.splits)
  next
    case (Some d)
    then have res: "fst p = Inr d" and allow: "dc_Allow d" by (auto simp: grantOf_def split: sum.splits if_splits)
    obtain new where "bw_trace (snd (issue d (snd p))) = bw_trace (snd p) @ new" "issuance_gated (Some d) new"
      using assms [OF allow] by blast
    with res allow show ?thesis
      unfolding authorized_def Let_def p_def [symmetric]
      by (auto simp: split_def t grantOf_def)
  qed
qed

lemma enroll_trace:
  "\<exists>new. bw_trace (snd (enroll G X h r op label w)) = bw_trace w @ new \<and> issuance_gated None new"
proof (cases "frontDoor G X h r op label")
  case (Inr x)
  then obtain csrDER req where x: "frontDoor G X h r op label = Inr (csrDER, req)" by (cases x) auto
  have "\<exists>new. bw_trace (snd (enrollIssue G X h op csrDER req d w1)) = bw_trace w1 @ new \<and> issuance_gated (Some d) new" for d w1
    using enrollIssue_trace [of G X h op csrDER req d w1] by fastforce
  with x show ?thesis by (simp add: enroll_def authorized_trace)
qed (simp add: enroll_def)

lemma serverKeyGen_trace:
  "\<exists>new. bw_trace (snd (serverKeyGen G X h boundary r label w)) = bw_trace w @ new \<and> issuance_gated None new"
proof (cases "frontDoor G X h r OpServerKeyGen label")
  case (Inr x)
  then obtain csrDER req where x: "frontDoor G X h r OpServerKeyGen label = Inr (csrDER, req)" by (cases x) auto
  have "\<exists>new. bw_trace (snd (keyGenIssue G X h boundary req d w1)) = bw_trace w1 @ new \<and> issuance_gated (Some d) new" for d w1
    using keyGenIssue_trace [of G X h boundary req d w1] by fastforce
  with x show ?thesis by (simp add: serverKeyGen_def authorized_trace)
qed (simp add: serverKeyGen_def)

definition extends_gated :: "('s, 'b) broker_world \<Rightarrow> ('s, 'b) broker_world \<Rightarrow> bool" where
  "extends_gated w w' = (\<exists>new. bw_trace w' = bw_trace w @ new \<and> issuance_gated None new)"

lemma extends_gated_refl [simp]: "extends_gated w w"
  by (simp add: extends_gated_def)

lemma methodGuard_gated: "extends_gated w (snd fn) \<Longrightarrow> extends_gated w (snd (methodGuard r m w fn))"
  by (simp add: methodGuard_def)

lemma caCerts_gated: "extends_gated w (snd (caCerts X h w))"
  by (simp add: caCerts_def split_def Let_def extends_gated_def)

lemma est_ServeHTTP_gated: "extends_gated w (snd (est_ServeHTTP G X h boundary r w))"
proof -
  have "extends_gated w (snd (enroll G X h r op label w))"
    "extends_gated w (snd (serverKeyGen G X h boundary r label w))" for op label
    using enroll_trace serverKeyGen_trace unfolding extends_gated_def by blast+
  then show ?thesis
    by (simp only: est_ServeHTTP_def methodGuard_gated caCerts_gated extends_gated_refl snd_conv if_cancel
        split: option.split prod.split if_split) simp
qed

lemma est_ServeHTTP_trace:
  "\<exists>new. bw_trace (snd (est_ServeHTTP G X h boundary r w)) = bw_trace w @ new \<and> issuance_gated None new"
  using est_ServeHTTP_gated unfolding extends_gated_def by blast

interpretation est: issuing_handler "\<lambda>(boundary, r) w. est_ServeHTTP G X h boundary r w" for G X h
  by unfold_locales (auto simp: est_ServeHTTP_trace)

section \<open>Concrete inputs\<close>

text \<open>
  A library whose parsers return the example objects, an OpenBao that signs what it is asked for,
  and a handler with the example pipeline.
\<close>

definition ex_x509 :: x509lib where
  "ex_x509 = \<lparr>xl_parseCSR = (\<lambda>der. if der = ''csr'' then Ok ex_csr else Err ''bad csr''), xl_checkSig = (\<lambda>_. None),
     xl_parseCert = (\<lambda>der. if der = ''leaf'' then Ok ex_cert else Err ''bad certificate''),
     xl_verify = (\<lambda>leaf pool rest. if leaf \<in> set pool then None else Some ''unknown authority''),
     xl_tbsAttributes = (\<lambda>_. Ok [(oidChallengePassword, ''v'')]), xl_rawValue = (\<lambda>_. Ok ''s3cret''),
     xl_pemDecode = (\<lambda>s. if s = [] then None else Some (\<lparr>pb_Type = ''CERTIFICATE'', pb_Bytes = s\<rparr>, []))\<rparr>"

definition ex_enroller :: "unit enroller" where
  "ex_enroller =
    (let bundle = \<lparr>cb_Certificate = ''leaf'', cb_IssuingCA = '''', cb_CAChain = [], cb_PrivateKey = ''key'',
           cb_SerialNumber = ''01''\<rparr>
     in \<lparr>en_Sign = (\<lambda>t role csr opts b. (Ok bundle, b)), en_Issue = (\<lambda>t role cn opts b. (Ok bundle, b)),
         en_CAChain = (\<lambda>t b. (Ok ''chain'', b))\<rparr>)"

definition ex_options :: "(StaticSecret, unit) est_Options" where
  "ex_options = \<lparr>eo_BootstrapRoots = None, eo_DeviceRoots = Some [ex_cert], eo_Enroller = Some ex_enroller,
     eo_Authorizer = Some (Pipeline_Authorize exampleLib (ex_pipeline False)), eo_AllowedKeyTypes = [''rsa-2048''],
     eo_CSRAttrs = [], eo_MaxRequestBytes = 0, eo_MinRSABits = 0, eo_MaxRSABits = 0,
     eo_ServerKeyGenKeyType = ''ec'', eo_ServerKeyGenKeyBits = 256, eo_UpstreamTimeout = 0\<rparr>"

definition ex_handler :: "(StaticSecret, unit) est_handler" where
  "ex_handler = \<lparr>eh_opts = ex_options, eh_enroller = ex_enroller,
     eh_authz = Pipeline_Authorize exampleLib (ex_pipeline False), eh_maxReq = 262144, eh_upstream = 20000000000\<rparr>"

definition ex_post :: "string \<Rightarrow> http_request" where
  "ex_post op = \<lparr>hq_Method = ''POST'', hq_Path = ''/.well-known/est/'' @ op, hq_Query = (\<lambda>_. ''''),
     hq_Header = (\<lambda>n. if n = ''Content-Transfer-Encoding'' then ''Base64'' else ''''), hq_Body = base64Lines ''csr'',
     hq_BodyErr = None, hq_RemoteAddr = ''192.0.2.1:4000'', hq_PeerCertificates = Some [ex_cert]\<rparr>"

definition ex_world :: "(StaticSecret, unit) broker_world" where
  "ex_world = \<lparr>bw_authz = ex_secret, bw_bao = (), bw_replay = NewReplayCache 0 0, bw_trace = []\<rparr>"

lemma ex_NewHandler: "est_NewHandler ex_options = Ok ex_handler"
  by (simp add: est_NewHandler_def ex_handler_def ex_options_def defaultMaxRequestBytes_def
      defaultUpstreamTimeout_def second_def)

lemma ex_enroll_ok:
  "hr_Status (fst (enroll exampleLib ex_x509 ex_handler (ex_post ''simplereenroll'') OpSimpleReenroll '''' ex_world)) = StatusOK"
  by code_simp

lemma ex_keygen_ok:
  "hr_Status (fst (serverKeyGen exampleLib ex_x509 ex_handler ''b'' (ex_post ''serverkeygen'') '''' ex_world)) = StatusOK"
  by code_simp

section \<open>Properties\<close>

text \<open>
  Over every history of EST requests, OpenBao is asked for a certificate only after an
  authorization that allowed, with the role and the names, addresses and lifetime of that decision,
  and at most once per decision.\<close>

theorem est_issuance_follows_decision:
  "\<exists>new. bw_trace (fold (\<lambda>(boundary, r) w. snd (est_ServeHTTP G X h boundary r w)) requests w) = bw_trace w @ new
    \<and> issuance_gated None new"
  using est.fold_gated [of G X h requests w] by (simp add: split_def)

lemma readCSR_error_status: "readCSR G h r = Err (status, msg) \<Longrightarrow> status \<noteq> StatusOK"
  by (auto simp: readCSR_def Let_def status_defs split: sum.splits option.splits if_splits)

lemma frontDoor_error_status: "frontDoor G X h r op label = Err resp \<Longrightarrow> hr_Status resp \<noteq> StatusOK"
  using readCSR_error_status [of G h r]
  by (auto simp: frontDoor_def Let_def status_defs split: sum.splits prod.splits)

lemma authorized_status:
  assumes "authorized h op req issue w = (resp, w')" "hr_Status resp = StatusOK"
  obtains d w1 where "eh_authz h req (bw_authz w) = (Ok d, bw_authz w1)" "dc_Allow d" "issue d w1 = (resp, w')"
    "bw_bao w1 = bw_bao w" "bw_trace w1 = bw_trace w @ [AuthorizeEv req (Ok d)]"
proof -
  obtain res s' where az: "eh_authz h req (bw_authz w) = (res, s')" by force
  define w1 where "w1 = emit (AuthorizeEv req res) (w\<lparr>bw_authz := s'\<rparr>)"
  have call: "callAuthorize (eh_authz h) req w = (res, w1)" by (simp add: callAuthorize_def az w1_def)
  from assms call obtain d where d: "res = Inr d" "dc_Allow d" "issue d w1 = (resp, w')"
    by (auto simp: authorized_def status_defs split: sum.splits if_splits)
  with that [of d w1] az show thesis by (simp add: w1_def)
qed

lemma checkIssued_Ok:
  "checkIssued G X der d = Ok () \<longleftrightarrow>
    (\<exists>cert. xl_parseCert X der = Ok cert \<and> VerifyIssued G (Some cert) (dc_Constraints d) = Ok ())"
  by (auto simp: checkIssued_def split: sum.splits)

lemma enrollIssue_status:
  assumes "enrollIssue G X h op csrDER req d w = (resp, w')" "hr_Status resp = StatusOK"
  obtains cb leafDER p7 where
    "fst (en_Sign (eh_enroller h) (eh_upstream h) (dc_Role d) (pemEncode ''CERTIFICATE REQUEST'' csrDER)
       (toSignOptions (dc_Constraints d)) (bw_bao w)) = Ok cb"
    "singleCertDER X (cb_Certificate cb) = Some leafDER" "checkIssued G X leafDER d = Ok ()"
    "DegenerateCertsOnly [leafDER] = Ok p7" "resp = writePKCS7 p7"
proof -
  obtain res w1 where call: "callSign (eh_enroller h) (eh_upstream h) (dc_Role d)
      (pemEncode ''CERTIFICATE REQUEST'' csrDER) (toSignOptions (dc_Constraints d)) w = (res, w1)" by force
  then have res: "fst (en_Sign (eh_enroller h) (eh_upstream h) (dc_Role d) (pemEncode ''CERTIFICATE REQUEST'' csrDER)
       (toSignOptions (dc_Constraints d)) (bw_bao w)) = res"
    using callSign_trace(2) by (metis fst_conv)
  from assms show thesis
    by (auto simp: enrollIssue_def call status_defs res intro: that split: sum.splits option.splits)
qed

lemma enroll_delivered:
  assumes "enroll G X h r op label w = (resp, w')" and "hr_Status resp = StatusOK"
  obtains csrDER csr req d leafDER cert p7 where "readCSR G h r = Ok csrDER" "parseCSR X h csrDER = Ok csr"
    "ValidateKeyType csr (eo_AllowedKeyTypes (eh_opts h)) = Ok ()" "rq_CSR req = Some csr" "rq_Operation req = op"
    "clientIdentity X h r op = Ok (rq_ClientCert req)"
    "eh_authz h req (bw_authz w) = (Ok d, snd (eh_authz h req (bw_authz w)))" "dc_Allow d"
    "xl_parseCert X leafDER = Ok cert" "VerifyIssued G (Some cert) (dc_Constraints d) = Ok ()"
    "DegenerateCertsOnly [leafDER] = Ok p7" "hr_Body resp = base64Lines p7"
proof -
  obtain csrDER req where front: "frontDoor G X h r op label = Ok (csrDER, req)"
    and auth: "authorized h op req (enrollIssue G X h op csrDER req) w = (resp, w')"
    using assms frontDoor_error_status [of G X h r op label] by (auto simp: enroll_def split: sum.splits)
  obtain d w1 where d: "eh_authz h req (bw_authz w) = (Ok d, bw_authz w1)" "dc_Allow d"
    and issue: "enrollIssue G X h op csrDER req d w1 = (resp, w')"
    using authorized_status [OF auth assms(2)] by metis
  obtain leafDER p7 where leaf: "checkIssued G X leafDER d = Ok ()" "DegenerateCertsOnly [leafDER] = Ok p7"
    "resp = writePKCS7 p7"
    using enrollIssue_status [OF issue assms(2)] by metis
  obtain cert where "xl_parseCert X leafDER = Ok cert" "VerifyIssued G (Some cert) (dc_Constraints d) = Ok ()"
    using leaf(1) by (auto simp: checkIssued_Ok)
  then show thesis using d leaf(2,3) that by (auto simp: writePKCS7_def intro: frontDoor_Ok [OF front])
qed

text \<open>
  (C11) A certificate leaves simpleenroll or simplereenroll only when the certificate request proved
  possession of its key, its key is within the bounds and of an allowed type, the policy allowed a
  request with that very certificate request, and the returned certificate passed VerifyIssued
  against the decision. The response carries that certificate and no other.\<close>

theorem est_delivery_is_checked:
  assumes "enroll G X h r op label w = (resp, w')" and "hr_Status resp = StatusOK"
  shows "\<exists>csrDER csr req d leafDER cert p7.
    readCSR G h r = Ok csrDER \<and> xl_parseCSR X csrDER = Ok csr \<and> xl_checkSig X csr = None \<and>
    rsa_within (eo_MinRSABits (eh_opts h)) (eo_MaxRSABits (eh_opts h)) (csr_PublicKey csr) \<and>
    ValidateKeyType csr (eo_AllowedKeyTypes (eh_opts h)) = Ok () \<and>
    rq_CSR req = Some csr \<and> rq_Operation req = op \<and> clientIdentity X h r op = Ok (rq_ClientCert req) \<and>
    fst (eh_authz h req (bw_authz w)) = Ok d \<and> dc_Allow d \<and>
    xl_parseCert X leafDER = Ok cert \<and> VerifyIssued G (Some cert) (dc_Constraints d) = Ok () \<and>
    DegenerateCertsOnly [leafDER] = Ok p7 \<and> hr_Body resp = base64Lines p7"
proof (rule enroll_delivered [OF assms], goal_cases)
  case (1 csrDER csr req d leafDER cert p7)
  then have "xl_parseCSR X csrDER = Ok csr \<and> xl_checkSig X csr = None \<and>
      rsa_within (eo_MinRSABits (eh_opts h)) (eo_MaxRSABits (eh_opts h)) (csr_PublicKey csr)"
    "fst (eh_authz h req (bw_authz w)) = Ok d"
    by (simp add: parseCSR_def ParseCSRLimited_Ok, metis fst_conv)
  with 1 show ?case by blast
qed

theorem est_delivery_is_checked_witness:
  "\<exists>(d::Decision) cert. dc_Allow d \<and> VerifyIssued exampleLib (Some cert) (dc_Constraints d) = Ok ()"
  using est_delivery_is_checked [OF prod.collapse [symmetric] ex_enroll_ok] by blast

lemma keyGenIssue_status:
  assumes "keyGenIssue G X h boundary req d w = (resp, w')" "hr_Status resp = StatusOK"
  obtains keyDER certDER p7 where "checkIssued G X certDER d = Ok ()" "DegenerateCertsOnly [certDER] = Ok p7"
    "resp = writeServerKeyGen boundary keyDER p7"
proof -
  define opts where "opts = (toSignOptions (dc_Constraints d))
    \<lparr>so_KeyType := eo_ServerKeyGenKeyType (eh_opts h), so_KeyBits := eo_ServerKeyGenKeyBits (eh_opts h)\<rparr>"
  obtain res w1 where call: "callIssue (eh_enroller h) (eh_upstream h) (dc_Role d)
      (cc_CommonName (dc_Constraints d)) opts w = (res, w1)" by force
  from assms show thesis
    by (auto simp: keyGenIssue_def call opts_def [symmetric] status_defs intro: that split: sum.splits option.splits)
qed

text \<open>
  (C12) A private key generated by OpenBao leaves serverkeygen only together with a certificate that
  passed VerifyIssued against an allowing decision, for a request whose certificate request proved
  possession of its key.\<close>

theorem serverkeygen_delivery_is_checked:
  assumes "serverKeyGen G X h boundary r label w = (resp, w')" and "hr_Status resp = StatusOK"
  shows "\<exists>csrDER csr req d certDER cert keyDER p7.
    readCSR G h r = Ok csrDER \<and> parseCSR X h csrDER = Ok csr \<and> xl_checkSig X csr = None \<and>
    rq_CSR req = Some csr \<and> clientIdentity X h r OpServerKeyGen = Ok (rq_ClientCert req) \<and>
    fst (eh_authz h req (bw_authz w)) = Ok d \<and> dc_Allow d \<and>
    xl_parseCert X certDER = Ok cert \<and> VerifyIssued G (Some cert) (dc_Constraints d) = Ok () \<and>
    DegenerateCertsOnly [certDER] = Ok p7 \<and> resp = writeServerKeyGen boundary keyDER p7"
proof -
  obtain csrDER req where front: "frontDoor G X h r OpServerKeyGen label = Ok (csrDER, req)"
    and auth: "authorized h OpServerKeyGen req (keyGenIssue G X h boundary req) w = (resp, w')"
    using assms frontDoor_error_status [of G X h r OpServerKeyGen label]
    by (auto simp: serverKeyGen_def split: sum.splits)
  obtain d w1 where d: "eh_authz h req (bw_authz w) = (Ok d, bw_authz w1)" "dc_Allow d"
    and issue: "keyGenIssue G X h boundary req d w1 = (resp, w')"
    using authorized_status [OF auth assms(2)] by metis
  obtain keyDER certDER p7 where leaf: "checkIssued G X certDER d = Ok ()" "DegenerateCertsOnly [certDER] = Ok p7"
    "resp = writeServerKeyGen boundary keyDER p7"
    using keyGenIssue_status [OF issue assms(2)] by metis
  obtain cert where cert: "xl_parseCert X certDER = Ok cert" "VerifyIssued G (Some cert) (dc_Constraints d) = Ok ()"
    using leaf(1) by (auto simp: checkIssued_Ok)
  obtain csr where csr: "readCSR G h r = Ok csrDER" "parseCSR X h csrDER = Ok csr"
    "clientIdentity X h r OpServerKeyGen = Ok (rq_ClientCert req)" "rq_CSR req = Some csr"
    using frontDoor_Ok [OF front] by metis
  have "xl_checkSig X csr = None" using csr(2) by (simp add: parseCSR_def ParseCSRLimited_Ok)
  then show ?thesis
    using csr d leaf(2,3) cert
    by (intro exI [of _ csrDER] exI [of _ csr] exI [of _ req] exI [of _ d] exI [of _ certDER] exI [of _ cert]
        exI [of _ keyDER] exI [of _ p7]) simp
qed

theorem serverkeygen_delivery_is_checked_witness:
  "\<exists>(d::Decision) cert. dc_Allow d \<and> VerifyIssued exampleLib (Some cert) (dc_Constraints d) = Ok ()"
  using serverkeygen_delivery_is_checked [OF prod.collapse [symmetric] ex_keygen_ok] by blast

section \<open>Client identities\<close>

lemma authorized_first:
  assumes "\<And>d w1. \<exists>new. bw_trace (snd (issue d w1)) = bw_trace w1 @ new"
  shows "\<exists>res new. bw_trace (snd (authorized h op req issue w)) = bw_trace w @ AuthorizeEv req res # new"
proof -
  define p where "p = callAuthorize (eh_authz h) req w"
  have t: "bw_trace (snd p) = bw_trace w @ [AuthorizeEv req (fst p)]" by (simp add: p_def)
  show ?thesis
  proof (cases "fst p")
    case (Inl e)
    then show ?thesis unfolding authorized_def Let_def p_def [symmetric] by (simp add: split_def t est_audit_def)
  next
    case (Inr d)
    obtain new where "bw_trace (snd (issue d (snd p))) = bw_trace (snd p) @ new" using assms by blast
    with Inr show ?thesis
      unfolding authorized_def Let_def p_def [symmetric] by (auto simp: split_def t est_audit_def)
  qed
qed

text \<open>
  (C13) A re-enrollment reaches the policy, or anything beyond it, only with a client certificate that
  verified against the device anchor, and that certificate is the identity the policy sees. The
  bootstrap anchor plays no part; without a device anchor nothing changes.\<close>

theorem reenroll_uses_device_anchor:
  assumes "enroll G X h r OpSimpleReenroll label w = (resp, w')" and "w' \<noteq> w"
  shows "\<exists>leaf rest pool req res new.
    hq_PeerCertificates r = Some (leaf # rest) \<and> eo_DeviceRoots (eh_opts h) = Some pool \<and>
    xl_verify X leaf pool rest = None \<and>
    bw_trace w' = bw_trace w @ AuthorizeEv req res # new \<and> rq_ClientCert req = Some leaf"
proof -
  obtain csrDER req where front: "frontDoor G X h r OpSimpleReenroll label = Ok (csrDER, req)"
    and auth: "authorized h OpSimpleReenroll req (enrollIssue G X h OpSimpleReenroll csrDER req) w = (resp, w')"
    using assms by (auto simp: enroll_def split: sum.splits)
  have "clientIdentity X h r OpSimpleReenroll = Ok (rq_ClientCert req)"
    using frontDoor_Ok [OF front] by metis
  then obtain leaf where leaf: "VerifyPeer X (hq_PeerCertificates r) (eo_DeviceRoots (eh_opts h)) = Ok leaf"
    "rq_ClientCert req = Some leaf"
    by (auto simp: clientIdentity_def Let_def split: sum.splits)
  have "\<exists>res new. bw_trace (snd (authorized h OpSimpleReenroll req (enrollIssue G X h OpSimpleReenroll csrDER req) w))
      = bw_trace w @ AuthorizeEv req res # new"
    by (rule authorized_first) (use enrollIssue_trace in blast)
  with auth leaf show ?thesis by (auto simp: VerifyPeer_Ok)
qed

lemma ex_reenroll_changes:
  "bw_trace (snd (enroll exampleLib ex_x509 ex_handler (ex_post ''simplereenroll'') OpSimpleReenroll '''' ex_world)) \<noteq> bw_trace ex_world"
  by code_simp

theorem reenroll_uses_device_anchor_witness:
  "\<exists>leaf rest. hq_PeerCertificates (ex_post ''simplereenroll'') = Some (leaf # rest) \<and> xl_verify ex_x509 leaf [ex_cert] rest = None"
proof -
  have "snd (enroll exampleLib ex_x509 ex_handler (ex_post ''simplereenroll'') OpSimpleReenroll '''' ex_world) \<noteq> ex_world"
    using ex_reenroll_changes by metis
  from reenroll_uses_device_anchor [OF prod.collapse [symmetric] this] show ?thesis
    by (auto simp: ex_handler_def ex_options_def)
qed

section \<open>Failing closed\<close>

lemma authorized_denied:
  assumes "\<And>req s. grantOf (fst (eh_authz h req s)) = None"
  shows "bw_bao (snd (authorized h op req issue w)) = bw_bao w \<and> hr_Status (fst (authorized h op req issue w)) \<noteq> StatusOK"
proof -
  define p where "p = callAuthorize (eh_authz h) req w"
  have "grantOf (fst p) = None" "bw_bao (snd p) = bw_bao w" using assms by (simp_all add: p_def)
  then show ?thesis
    unfolding authorized_def Let_def p_def [symmetric]
    by (auto simp: split_def grantOf_def status_defs split: sum.splits if_splits)
qed

text \<open>
  A handler built without an authorizer fails closed: no enrollment, re-enrollment or key
  generation succeeds, and OpenBao is not touched.\<close>

theorem no_authorizer_fails_closed:
  assumes "est_NewHandler opts = Ok h" and "eo_Authorizer opts = None"
  shows "hr_Status (fst (enroll G X h r op label w)) \<noteq> StatusOK \<and> bw_bao (snd (enroll G X h r op label w)) = bw_bao w \<and>
    hr_Status (fst (serverKeyGen G X h boundary r label w)) \<noteq> StatusOK \<and>
    bw_bao (snd (serverKeyGen G X h boundary r label w)) = bw_bao w"
proof -
  have "grantOf (fst (eh_authz h req s)) = None" for req s
    using assms by (auto simp: est_NewHandler_def DenyAll_Authorize_def grantOf_def split: option.splits)
  note denied = authorized_denied [OF this]
  show ?thesis
    using denied frontDoor_error_status [of G X h r op label] frontDoor_error_status [of G X h r OpServerKeyGen label]
    by (simp add: enroll_def serverKeyGen_def split: sum.split prod.split)
qed

theorem no_authorizer_fails_closed_witness:
  "hr_Status (fst (enroll exampleLib ex_x509 (ex_handler\<lparr>eh_opts := ex_options\<lparr>eo_Authorizer := None\<rparr>, eh_authz := DenyAll_Authorize\<rparr>)
     (ex_post ''simpleenroll'') OpSimpleEnroll '''' ex_world)) \<noteq> StatusOK"
proof -
  have "est_NewHandler (ex_options\<lparr>eo_Authorizer := None\<rparr>) =
      Ok (ex_handler\<lparr>eh_opts := ex_options\<lparr>eo_Authorizer := None\<rparr>, eh_authz := DenyAll_Authorize\<rparr>)"
    by (simp add: est_NewHandler_def ex_handler_def ex_options_def defaultMaxRequestBytes_def
        defaultUpstreamTimeout_def second_def)
  from no_authorizer_fails_closed [OF this, of exampleLib ex_x509 "ex_post ''simpleenroll''" OpSimpleEnroll "[]" ex_world]
  show ?thesis by (simp add: ex_options_def)
qed

section \<open>Reading a request\<close>

lemma byteOf_ascii_lower:
  "byteOf (ascii_lower c) = (if 65 \<le> byteOf c \<and> byteOf c \<le> 90 then byteOf c + 32 else byteOf c)"
  by (simp add: ascii_lower_def byteOf_char_of)

lemma equalFold_lower:
  assumes "ascii s"
  shows "equalFold u s (map ascii_lower s)"
proof -
  have "runeFold u (byteOf c) (byteOf (ascii_lower c))" for c
    by (simp add: runeFold_def byteOf_ascii_lower in_range_def Let_def)
  moreover have "ascii (map ascii_lower s)"
    using assms by (auto simp: ascii_def list_all_iff byteOf_ascii_lower)
  ultimately show ?thesis
    using assms by (simp add: equalFold_def runes_ascii list_all2_map1 list_all2_map2 list_all2_same)
qed

lemma equalFold_base64: "map ascii_lower cte = ''base64'' \<Longrightarrow> ascii cte \<Longrightarrow> equalFold u cte ''base64''"
  using equalFold_lower [of cte u] by simp

text \<open>
  (C14) The bodies the broker accepts: what base64Lines writes is read back as the same DER under the
  transfer encoding base64 in any case of letters, a body above the limit is refused with 413
  whatever follows.\<close>

theorem readCSR_body:
  assumes "0 < eh_maxReq h" and "eh_maxReq h < maxInt64"
  shows "(hq_Body r = base64Lines der \<and> hq_BodyErr r = None \<and> int (length (hq_Body r)) \<le> eh_maxReq h \<and>
      ascii (hq_Header r ''Content-Transfer-Encoding'') \<and>
      map ascii_lower (hq_Header r ''Content-Transfer-Encoding'') = ''base64'' \<longrightarrow> readCSR G h r = Ok der) \<and>
    (eh_maxReq h < int (length (hq_Body r)) \<longrightarrow>
       readCSR G h r = Err (StatusRequestEntityTooLarge, ''request too large''))"
proof -
  have limit: "wrap64 (eh_maxReq h + 1) = eh_maxReq h + 1"
    using assms by (intro wrap64_id) (simp add: int64_def minInt64_def maxInt64_def)
  have "readCSR G h r = Ok der" if body: "hq_Body r = base64Lines der \<and> hq_BodyErr r = None \<and> int (length (hq_Body r)) \<le> eh_maxReq h \<and>
      ascii (hq_Header r ''Content-Transfer-Encoding'') \<and>
      map ascii_lower (hq_Header r ''Content-Transfer-Encoding'') = ''base64''"
  proof -
    have "base64Lines der \<noteq> []" by (simp add: base64Lines_def wrap64cols.simps)
    moreover have "readLimited r (nat (eh_maxReq h + 1)) = Ok (base64Lines der)"
      using body by (subst readLimited_whole) auto
    ultimately show ?thesis
      using body equalFold_base64 by (auto simp: readCSR_def limit base64Lines_strip b64decode_encode)
  qed
  moreover have "readCSR G h r = Err (StatusRequestEntityTooLarge, ''request too large'')"
    if long: "eh_maxReq h < int (length (hq_Body r))"
  proof -
    have "readLimited r (nat (eh_maxReq h + 1)) = Ok (take (nat (eh_maxReq h + 1)) (hq_Body r))"
      using long by (simp add: readLimited_def) linarith
    moreover have "int (length (take (nat (eh_maxReq h + 1)) (hq_Body r))) > eh_maxReq h" using long assms by simp
    ultimately show ?thesis by (simp add: readCSR_def limit)
  qed
  ultimately show ?thesis by blast
qed

theorem readCSR_body_witness: "readCSR exampleLib ex_handler (ex_post ''simpleenroll'') = Ok ''csr''"
proof -
  have "ascii ''Base64''" "map ascii_lower ''Base64'' = ''base64''" "length (base64Lines ''csr'') = 5" by code_simp+
  then show ?thesis
    using readCSR_body [of ex_handler "ex_post ''simpleenroll''" "''csr''"]
    by (simp add: ex_handler_def ex_post_def maxInt64_def)
qed

text \<open>
  A limit of the greatest 64-bit number is no limit but a refusal: the bound of the read wraps
  around, nothing is read, and every request is answered as empty.\<close>

theorem readCSR_limit_overflow:
  assumes "eh_maxReq h = maxInt64"
  shows "readCSR G h r = Err (StatusBadRequest, ''empty request body'')"
proof -
  have "nat (wrap64 (maxInt64 + 1)) = 0" by code_simp
  with assms show ?thesis by (simp add: readCSR_def readLimited_def maxInt64_def)
qed

theorem readCSR_limit_overflow_witness:
  "readCSR exampleLib (ex_handler\<lparr>eh_maxReq := 9223372036854775807\<rparr>) (ex_post ''simpleenroll'') =
    Err (StatusBadRequest, ''empty request body'')"
  by (rule readCSR_limit_overflow) (simp add: maxInt64_def)

end
