(* ===== verification/Scep_Properties.thy ===== *)
theory Scep_Properties
  imports Scep_Handler Est_Properties
begin

text \<open>
  What SCEP guarantees, \<open>src/internal/scep\<close> and \<open>src/internal/cms\<close>: the replay cache, which
  signer counts as an identity, what a refused client learns, and what is delivered.
\<close>

section \<open>The replay cache\<close>

text \<open>
  A message answered at t0 is refused when it comes again before its time to live is over, as
  long as the checks in between do not fill the table: whatever they were, whatever their clock
  within that time.\<close>

theorem replay_is_refused:
  assumes "replay_ok c" and "ReplayCache_Check G t0 txID nonce c = (True, c0)"
    and "int (ReplayCache_Size c0 + length others) \<le> rc_maxSize c"
    and "\<forall>x\<in>set others. fst x \<le> t" and "t < t0 + rc_ttl c"
  shows "fst (ReplayCache_Check G t txID nonce (replayRun G others c0)) = False"
proof -
  have step: "replayCheckKey t0 (replayKey G txID nonce) c = (True, c0)" using assms(2) by (simp add: ReplayCache_Check_def)
  then have c0: "replay_ok c0" "rc_maxSize c0 = rc_maxSize c"
    using replayCheck_ok [OF assms(1), of t0 "replayKey G txID nonce"] replayCheck_fields(2) [of t0 "replayKey G txID nonce" c]
    by simp_all
  have "unexpired t (replayKey G txID nonce) c0"
    by (rule replayCheck_records [OF assms(1) step assms(5)])
  then have "unexpired t (replayKey G txID nonce) (replayRun G others c0)"
    using c0 assms(3,4) by (intro replayRun_keeps) (simp_all add: ReplayCache_Size_def)
  then show ?thesis by (simp add: ReplayCache_Check_def replayCheckKey_def)
qed

theorem replay_is_refused_witness:
  "fst (ReplayCache_Check exampleLib 60 ''tx'' ''n'' (replayRun exampleLib [(10, ''other'', ''n'')]
     (snd (ReplayCache_Check exampleLib 0 ''tx'' ''n'' (NewReplayCache 0 0))))) = False"
proof -
  let ?c = "NewReplayCache 0 0"
  have "ReplayCache_Check exampleLib 0 ''tx'' ''n'' ?c = (True, snd (ReplayCache_Check exampleLib 0 ''tx'' ''n'' ?c))"
    by code_simp
  moreover have "ReplayCache_Size (snd (ReplayCache_Check exampleLib 0 ''tx'' ''n'' ?c)) = 1" by code_simp
  moreover have "rc_maxSize ?c = 100000" "rc_ttl ?c = 900000000000" by code_simp+
  ultimately show ?thesis
    using replay_is_refused [OF NewReplayCache_ok, of exampleLib 0 "''tx''" "''n''" 0 0 _ "[(10, ''other'', ''n'')]" 60]
    by simp
qed

text \<open>
  (C19) The cache never holds more than its bound of entries, over every history of checks.\<close>

theorem replay_cache_bounded:
  "int (ReplayCache_Size (replayRun G calls (NewReplayCache ttl maxSize))) \<le> (if maxSize \<le> 0 then DefaultReplayMaxEntries else maxSize)"
proof -
  have "rc_maxSize (NewReplayCache ttl maxSize) = (if maxSize \<le> 0 then DefaultReplayMaxEntries else maxSize)"
    "int (gm_len (rc_seen (NewReplayCache ttl maxSize))) \<le> rc_maxSize (NewReplayCache ttl maxSize)"
    by (simp_all add: NewReplayCache_def gm.len_emp DefaultReplayMaxEntries_def)
  with replayRun_ok [OF NewReplayCache_ok, of ttl maxSize G calls] show ?thesis
    by (simp add: ReplayCache_Size_def)
qed

text \<open>
  When the table is full of live entries, one new message clears it, and every message answered
  before is accepted again although its time to live is not over.\<close>

theorem flood_reopens_replay:
  assumes "replay_ok c" and "rc_maxSize c \<le> int (ReplayCache_Size c)"
    and "\<forall>k. gm_get (rc_seen c) k \<noteq> None \<longrightarrow> unexpired now k c"
    and "unexpired now (replayKey G txID nonce) c" and "\<not> unexpired now (replayKey G newTx newNonce) c"
    and "ReplayCache_Check G now newTx newNonce c = (fresh, c')"
  shows "fst (ReplayCache_Check G now txID nonce c) = False \<and> fst (ReplayCache_Check G now txID nonce c') = True"
proof -
  have ok: "gm_ok (rc_seen c)" using assms(1) by (simp add: replay_ok_def)
  have "c' = c\<lparr>rc_seen := gm_put (replayKey G newTx newNonce) (now + rc_ttl c) gm_empty\<rparr>"
    using replayCheck_clears [OF ok, of now "replayKey G newTx newNonce"] assms
    by (simp add: ReplayCache_Check_def ReplayCache_Size_def)
  moreover have "replayKey G txID nonce \<noteq> replayKey G newTx newNonce" using assms(4,5) by auto
  ultimately have "\<not> unexpired now (replayKey G txID nonce) c'"
    by (simp add: unexpired_def gm.get_put gm.ok_emp gm.get_emp)
  with assms(4) show ?thesis by (simp add: ReplayCache_Check_def replayCheckKey_def Let_def)
qed

theorem flood_reopens_replay_witness:
  "fst (ReplayCache_Check exampleLib 1 ''tx'' ''n'' (snd (ReplayCache_Check exampleLib 1 ''other'' ''n''
     (snd (ReplayCache_Check exampleLib 0 ''tx'' ''n'' (NewReplayCache 10 1)))))) = True"
proof -
  define c where "c = snd (ReplayCache_Check exampleLib 0 ''tx'' ''n'' (NewReplayCache 10 1))"
  have ok: "replay_ok c" unfolding c_def ReplayCache_Check_def by (intro replayCheck_ok NewReplayCache_ok)
  have seen: "rc_seen c = [(replayKey exampleLib ''tx'' ''n'', 10)]" "rc_maxSize c = 1" unfolding c_def by code_simp+
  have "\<forall>k. gm_get (rc_seen c) k \<noteq> None \<longrightarrow> unexpired 1 k c"
    by (simp add: unexpired_def gm_get_def seen)
  moreover have "unexpired 1 (replayKey exampleLib ''tx'' ''n'') c" by (simp add: unexpired_def gm_get_def seen)
  moreover have "\<not> unexpired 1 (replayKey exampleLib ''other'' ''n'') c" unfolding c_def by code_simp
  moreover have "rc_maxSize c \<le> int (ReplayCache_Size c)" by (simp add: ReplayCache_Size_def gm_len_def seen)
  ultimately show ?thesis
    using flood_reopens_replay [OF ok _ _ _ _ prod.collapse [symmetric], of 1 exampleLib "''tx''" "''n''" "''other''" "''n''"]
    by (simp add: c_def)
qed

text \<open>
  Two different messages share a key of the cache only through a collision of SHA-256: with the
  nonces of fixed length that the parser accepts, the separator keeps the inputs of the hash apart.\<close>

theorem replayKey_collision:
  assumes "length n1 = nonceLen" and "length n2 = nonceLen" and "(t1, n1) \<noteq> (t2, n2)"
    and "replayKey G t1 n1 = replayKey G t2 n2"
  shows "\<exists>x y. x \<noteq> y \<and> lib_sha256 G x = lib_sha256 G y"
proof -
  have "replayPreimage t1 n1 \<noteq> replayPreimage t2 n2" using assms(1-3) replayPreimage_inj [of n1 n2 t1 t2] by auto
  moreover have "lib_sha256 G (replayPreimage t1 n1) = lib_sha256 G (replayPreimage t2 n2)"
    using assms(4) by (simp add: replayKey_def hexEncode_inj)
  ultimately show ?thesis by blast
qed

theorem replayKey_collision_witness:
  "\<exists>x y. x \<noteq> y \<and> lib_sha256 exampleLib x = lib_sha256 exampleLib y"
proof -
  have "replayKey exampleLib ''ab'' (replicate 16 (CHR ''n'')) = replayKey exampleLib ''ba'' (replicate 16 (CHR ''n''))"
    by code_simp
  from replayKey_collision [OF _ _ _ this] show ?thesis by (simp add: nonceLen_def)
qed

section \<open>Issuance\<close>

lemma scep_issue_trace:
  "\<exists>new. bw_trace (snd (scep_issue L X h nonce remote req d w)) = bw_trace w @
      SignEv (dc_Role d) (pemEncode ''CERTIFICATE REQUEST'' (csr_Raw (sr_CSR req))) (toSignOptions (dc_Constraints d)) # new
    \<and> issuance_gated None new"
proof -
  define p where "p = callSign (sh_enroller h) (sh_upstream h) (dc_Role d)
    (pemEncode ''CERTIFICATE REQUEST'' (csr_Raw (sr_CSR req))) (toSignOptions (dc_Constraints d)) w"
  have t: "bw_trace (snd p) = bw_trace w @ [SignEv (dc_Role d)
      (pemEncode ''CERTIFICATE REQUEST'' (csr_Raw (sr_CSR req))) (toSignOptions (dc_Constraints d))]"
    by (simp add: p_def)
  show ?thesis
    unfolding scep_issue_def Let_def scep_toSignOptions_eq p_def [symmetric]
    by (simp add: split_def t scep_audit_def split: sum.split)
qed

lemma scep_process_gated: "extends_gated w (snd (scep_process G L X h now nonce r req w))"
proof -
  define q where "q = ReplayCache_Check G now (at_TransactionID (sr_Attributes req)) (at_SenderNonce (sr_Attributes req)) (bw_replay w)"
  define w0 where "w0 = w\<lparr>bw_replay := snd q\<rparr>"
  have w0: "bw_trace w0 = bw_trace w" by (simp add: w0_def)
  have proc: "snd (scep_process G L X h now nonce r req w) =
    (if \<not> fst q then w0 else case sp_Authorizer (sh_opts h) of None \<Rightarrow> w0
      | Some az \<Rightarrow> (let p = callAuthorize az (authzRequest h req r) w0 in case fst p of
            Inl err \<Rightarrow> scep_audit req zeroDecision ''error'' (hq_RemoteAddr r) (Some (AText err)) (snd p)
          | Inr d \<Rightarrow> if \<not> dc_Allow d then scep_audit req d ''deny'' (hq_RemoteAddr r) None (snd p)
             else snd (scep_issue L X h nonce (hq_RemoteAddr r) req d (snd p))))"
    unfolding scep_process_def q_def [symmetric] w0_def
    by (simp add: split_def Let_def split: option.split sum.split)
  show ?thesis
  proof (cases "fst q \<and> sp_Authorizer (sh_opts h) \<noteq> None")
    case False
    then show ?thesis by (auto simp: proc extends_gated_def w0)
  next
    case True
    then obtain az where az: "sp_Authorizer (sh_opts h) = Some az" "fst q" by blast
    define p where "p = callAuthorize az (authzRequest h req r) w0"
    have t: "bw_trace (snd p) = bw_trace w @ [AuthorizeEv (authzRequest h req r) (fst p)]" by (simp add: p_def w0)
    show ?thesis
    proof (cases "grantOf (fst p)")
      case None
      then show ?thesis
        using az by (auto simp: proc p_def [symmetric] Let_def extends_gated_def t scep_audit_def grantOf_def split: sum.splits)
    next
      case (Some d)
      then have d: "fst p = Inr d" "dc_Allow d" by (auto simp: grantOf_def split: sum.splits if_splits)
      obtain new where "bw_trace (snd (scep_issue L X h nonce (hq_RemoteAddr r) req d (snd p))) = bw_trace (snd p) @
          SignEv (dc_Role d) (pemEncode ''CERTIFICATE REQUEST'' (csr_Raw (sr_CSR req))) (toSignOptions (dc_Constraints d)) # new"
        "issuance_gated None new"
        using scep_issue_trace by blast
      with az d Some show ?thesis by (simp add: proc p_def [symmetric] Let_def extends_gated_def t)
    qed
  qed
qed

lemma getCACert_gated: "extends_gated w (snd (getCACert L X h w))"
  by (simp add: getCACert_def caChainCerts_def split_def Let_def extends_gated_def)

lemma pkiOperation_gated: "extends_gated w (snd (pkiOperation G L X h now nonce r w))"
  by (simp add: pkiOperation_def scep_process_gated split: sum.split prod.split)

lemma scep_ServeHTTP_gated: "extends_gated w (snd (scep_ServeHTTP G L X h now nonce r w))"
  using getCACert_gated [of w L X h] pkiOperation_gated [of w G L X h now nonce r]
  by (simp add: scep_ServeHTTP_def Let_def split_def)

interpretation scep: issuing_handler "\<lambda>(now, nonce, r) w. scep_ServeHTTP G L X h now nonce r w" for G L X h
  using scep_ServeHTTP_gated unfolding extends_gated_def by unfold_locales (auto simp: split_def)

text \<open>
  Over every history of SCEP requests, OpenBao signs only after an authorization that allowed,
  with the role and the options of that decision, and at most once per decision.\<close>

theorem scep_issuance_follows_decision:
  "\<exists>new. bw_trace (fold (\<lambda>(now, nonce, r) w. snd (scep_ServeHTTP G L X h now nonce r w)) requests w) = bw_trace w @ new
    \<and> issuance_gated None new"
  using scep.fold_gated [of G L X h requests w] by (simp add: split_def)

section \<open>Concrete inputs\<close>

definition ex_pkcs7 :: "string \<Rightarrow> pkcs7lib" where
  "ex_pkcs7 messageType = \<lparr>pl_Parse = (\<lambda>der. Ok \<lparr>p7_Raw = der, p7_Content = der, p7_Signers = [SHA256]\<rparr>),
     pl_Verify = (\<lambda>_. None),
     pl_VerifyWithChain = (\<lambda>_ pool. if ex_cert \<in> set pool then None else Some ''unknown authority''),
     pl_GetOnlySigner = (\<lambda>_. Some ex_cert),
     pl_AttrString = (\<lambda>_ oid. Ok (if oid = oidMessageType then messageType else ''tx'')),
     pl_AttrBytes = (\<lambda>_ _. Ok (replicate 16 (CHR ''n''))),
     pl_Decrypt = (\<lambda>_ _ _. Ok ''csr''), pl_Encrypt = (\<lambda>c _. Ok c),
     pl_NewSignedData = (\<lambda>c. Ok c), pl_SetDigest = (\<lambda>_ sd. sd), pl_AddSigner = (\<lambda>_ _ _ sd. Ok sd),
     pl_Finish = (\<lambda>sd. Ok (''signed:'' @ sd)), pl_Degenerate = (\<lambda>der. Ok der)\<rparr>"

definition ex_scep_options :: "(StaticSecret, unit) scep_Options" where
  "ex_scep_options = \<lparr>sp_RACert = Some ex_cert, sp_RAKey = Some ''key'', sp_DeviceRoots = Some [ex_cert],
     sp_Enroller = Some ex_enroller, sp_Authorizer = Some (Pipeline_Authorize exampleLib (ex_pipeline False)),
     sp_ParseCSR = Some (\<lambda>der. ParseCSRLimited ex_x509 der 0 0), sp_ChallengePassword = Some (ChallengePassword ex_x509),
     sp_VerifyIssued = Some (VerifyIssued exampleLib), sp_Digests = [], sp_hasReplayCache = True,
     sp_MaxRequestBytes = 0, sp_UpstreamTimeout = 0\<rparr>"

definition ex_scep_handler :: "(StaticSecret, unit) scep_handler" where
  "ex_scep_handler = \<lparr>sh_opts = ex_scep_options, sh_enroller = ex_enroller, sh_raCert = ex_cert,
     sh_parser = \<lparr>pr_RACert = Some ex_cert, pr_RAKey = Some ''key'', pr_DeviceRoots = Some [ex_cert],
       pr_Verifier = \<lparr>vf_Digests = []\<rparr>, pr_ParseCSR = Some (\<lambda>der. ParseCSRLimited ex_x509 der 0 0)\<rparr>,
     sh_resp = \<lparr>rs_RACert = Some ex_cert, rs_RAKey = Some ''key''\<rparr>, sh_maxReq = 524288, sh_upstream = 20000000000\<rparr>"

definition ex_scep_post :: http_request where
  "ex_scep_post = \<lparr>hq_Method = ''POST'', hq_Path = ''/scep'', hq_Query = (\<lambda>n. if n = ''operation'' then ''PKIOperation'' else ''''),
     hq_Header = (\<lambda>_. ''''), hq_Body = ''message'', hq_BodyErr = None, hq_RemoteAddr = ''192.0.2.9:1'',
     hq_PeerCertificates = None\<rparr>"

definition ex_scep_request :: "string \<Rightarrow> bool \<Rightarrow> scep_Request" where
  "ex_scep_request mt auth = \<lparr>sr_Attributes = \<lparr>at_MessageType = mt, at_TransactionID = ''tx'',
       at_SenderNonce = replicate 16 (CHR ''n''),
       at_RecipientNonce = [], at_PKIStatus = [], at_FailInfo = []\<rparr>, sr_CSR = ex_csr, sr_Signer = ex_cert, sr_SignerAuthenticated = auth\<rparr>"

lemma ex_scep_NewHandler: "scep_NewHandler ex_scep_options = Ok ex_scep_handler"
  by (simp add: scep_NewHandler_def ex_scep_options_def ex_scep_handler_def scep_defaultMaxRequestBytes_def
      scep_defaultUpstreamTimeout_def second_def)

lemma ex_parse_renewal: "Parse (ex_pkcs7 RenewalReq) (sh_parser ex_scep_handler) ''message'' = Ok (ex_scep_request RenewalReq True)"
  by code_simp

lemma ex_parse_pkcsreq: "Parse (ex_pkcs7 PKCSReq) (sh_parser ex_scep_handler) ''message'' = Ok (ex_scep_request PKCSReq False)"
  by code_simp

lemma ex_readMessage: "readMessage ex_scep_handler ex_scep_post = Ok ''message''"
  by code_simp

section \<open>Identities\<close>

text \<open>
  (C17) The signer of a SCEP message counts as an identity only in a renewal whose signer chained to the
  device anchor over a permitted digest. A first enrollment, whose signer is self-signed, reaches the
  policy without client certificate and as an enrollment.\<close>

theorem scep_signer_identity:
  assumes "scep_NewHandler opts = Ok h" and "Parse L (sh_parser h) body = Ok req"
  shows "case rq_ClientCert (authzRequest h req r) of
      None \<Rightarrow> at_MessageType (sr_Attributes req) = PKCSReq \<and> rq_Operation (authzRequest h req r) = OpSimpleEnroll
    | Some c \<Rightarrow> at_MessageType (sr_Attributes req) = RenewalReq \<and> rq_Operation (authzRequest h req r) = OpSimpleReenroll \<and>
        (\<exists>p7 pool alg. sp_DeviceRoots opts = Some pool \<and> pl_Parse L body = Ok p7 \<and>
           pl_VerifyWithChain L p7 pool = None \<and> pl_GetOnlySigner L p7 = Some c \<and> p7_Signers p7 = [alg] \<and>
           alg \<in> set (if sp_Digests opts = [] then DefaultDigests else sp_Digests opts))"
proof -
  note new = scep_NewHandler_Ok [OF assms(1)]
  obtain signed where attrs: "parseAttributes L signed = Ok (sr_Attributes req)"
    and signer: "if at_MessageType (sr_Attributes req) = RenewalReq
     then sr_SignerAuthenticated req \<and> (\<exists>chained. VerifyChain L (pr_Verifier (sh_parser h)) body (pr_DeviceRoots (sh_parser h)) = Ok chained
            \<and> sr_Signer req = sg_Signer chained)
     else \<not> sr_SignerAuthenticated req \<and> sr_Signer req = sg_Signer signed"
    using Parse_Ok [OF assms(2)] by metis
  have valid: "MessageType_Valid (at_MessageType (sr_Attributes req))"
    using parseAttributes_Ok(1) [OF attrs] by (simp add: attrs_ok_def)
  show ?thesis
  proof (cases "at_MessageType (sr_Attributes req) = RenewalReq")
    case True
    with signer obtain chained where auth: "sr_SignerAuthenticated req" and
      chain: "VerifyChain L (pr_Verifier (sh_parser h)) body (pr_DeviceRoots (sh_parser h)) = Ok chained"
      and sg: "sr_Signer req = sg_Signer chained" by auto
    show ?thesis
      using VerifyChain_Ok [OF chain] True auth sg new(4,6) by (auto simp: authzRequest_def cms_parse_Ok)
  next
    case False
    with signer valid show ?thesis by (auto simp: authzRequest_def MessageType_Valid_def)
  qed
qed

theorem scep_signer_identity_witness:
  "rq_ClientCert (authzRequest ex_scep_handler (ex_scep_request PKCSReq False) ex_scep_post) = None \<and>
   at_MessageType (sr_Attributes (ex_scep_request PKCSReq False)) = PKCSReq"
proof -
  have "rq_ClientCert (authzRequest ex_scep_handler (ex_scep_request PKCSReq False) ex_scep_post) = None" by code_simp
  with scep_signer_identity [OF ex_scep_NewHandler ex_parse_pkcsreq, of ex_scep_post] show ?thesis by simp
qed

section \<open>Refusals\<close>

lemma pkiOperation_process:
  assumes "readMessage h r = Ok body" "Parse L (sh_parser h) body = Ok req"
  shows "pkiOperation G L X h now nonce r w = scep_process G L X h now nonce r req w"
  using assms by (simp add: pkiOperation_def)

lemma scep_process_stages:
  assumes "ReplayCache_Check G now (at_TransactionID (sr_Attributes req)) (at_SenderNonce (sr_Attributes req)) (bw_replay w) = (fresh, cache)"
    and "sp_Authorizer (sh_opts h) = Some az" and "az (authzRequest h req r) (bw_authz w) = (res, s')"
  shows "scep_process G L X h now nonce r req w =
    (let w0 = w\<lparr>bw_replay := cache\<rparr>;
         w1 = emit (AuthorizeEv (authzRequest h req r) res) (w0\<lparr>bw_authz := s'\<rparr>)
     in if \<not> fresh then (Responded (scep_fail L h nonce req FailBadRequest), w0)
        else case res of
            Inl err \<Rightarrow> (Responded (scep_fail L h nonce req FailBadRequest),
                       scep_audit req zeroDecision ''error'' (hq_RemoteAddr r) (Some (AText err)) w1)
          | Inr d \<Rightarrow> if \<not> dc_Allow d then (Responded (scep_fail L h nonce req FailBadRequest), scep_audit req d ''deny'' (hq_RemoteAddr r) None w1)
              else (case scep_issue L X h nonce (hq_RemoteAddr r) req d w1 of (resp, w2) \<Rightarrow> (Responded resp, w2)))"
  using assms by (simp add: scep_process_def callAuthorize_def Let_def)

text \<open>
  (C18) A replayed message is refused before any policy or issuance work: the one-time codes, OpenBao and
  the trace are as before, and so is the cache.\<close>

theorem scep_replay_stops_early:
  assumes "readMessage h r = Ok body" and "Parse L (sh_parser h) body = Ok req"
    and "unexpired now (replayKey G (at_TransactionID (sr_Attributes req)) (at_SenderNonce (sr_Attributes req))) (bw_replay w)"
  shows "pkiOperation G L X h now nonce r w = (Responded (scep_fail L h nonce req FailBadRequest), w)"
  unfolding pkiOperation_process [OF assms(1,2)]
  using assms(3) by (simp add: scep_process_def ReplayCache_Check_def replayCheckKey_def)

theorem scep_replay_stops_early_witness:
  "bw_trace (snd (pkiOperation exampleLib (ex_pkcs7 RenewalReq) ex_x509 ex_scep_handler 1 (Ok ''sn'') ex_scep_post
     (ex_world\<lparr>bw_replay := snd (ReplayCache_Check exampleLib 0 ''tx'' (replicate 16 (CHR ''n'')) (NewReplayCache 10 5))\<rparr>))) = []"
proof -
  define w where "w = ex_world\<lparr>bw_replay := snd (ReplayCache_Check exampleLib 0 ''tx'' (replicate 16 (CHR ''n'')) (NewReplayCache 10 5))\<rparr>"
  have "unexpired 1 (replayKey exampleLib (at_TransactionID (sr_Attributes (ex_scep_request RenewalReq True)))
      (at_SenderNonce (sr_Attributes (ex_scep_request RenewalReq True)))) (bw_replay w)"
    unfolding w_def by code_simp
  from scep_replay_stops_early [OF ex_readMessage ex_parse_renewal this, of ex_x509 "Ok ''sn''"]
  show ?thesis by (simp add: w_def [symmetric]) (simp add: w_def ex_world_def)
qed

text \<open>
  A refused client learns nothing of the reason: a replay, an error of the authorizer and every
  denial are answered with the one failure message of the request, whatever the policy, its state and
  OpenBao say.\<close>

theorem scep_refusals_look_alike:
  assumes "readMessage h r = Ok body" and "Parse L (sh_parser h) body = Ok req"
    and "sp_Authorizer (sh_opts h) = Some az"
    and "grantOf (fst (az (authzRequest h req r) (bw_authz w))) = None \<or>
      \<not> fst (ReplayCache_Check G now (at_TransactionID (sr_Attributes req)) (at_SenderNonce (sr_Attributes req)) (bw_replay w))"
  shows "fst (pkiOperation G L X h now nonce r w) = Responded (scep_fail L h nonce req FailBadRequest)"
proof -
  obtain fresh cache res s' where
    check: "ReplayCache_Check G now (at_TransactionID (sr_Attributes req)) (at_SenderNonce (sr_Attributes req)) (bw_replay w) = (fresh, cache)"
    and az: "az (authzRequest h req r) (bw_authz w) = (res, s')" by (metis surj_pair)
  show ?thesis
    unfolding pkiOperation_process [OF assms(1,2)] scep_process_stages [OF check assms(3) az]
    using assms(4) check az by (auto simp: Let_def grantOf_def split: sum.splits if_splits)
qed

theorem scep_refusals_look_alike_witness:
  "fst (pkiOperation exampleLib (ex_pkcs7 PKCSReq) ex_x509 ex_scep_handler 1 (Ok ''sn'') ex_scep_post
     (ex_world\<lparr>bw_authz := \<lparr>ss_secret = ''other''\<rparr>\<rparr>)) =
   Responded (scep_fail (ex_pkcs7 PKCSReq) ex_scep_handler (Ok ''sn'') (ex_scep_request PKCSReq False) FailBadRequest)"
proof (rule scep_refusals_look_alike [OF ex_readMessage ex_parse_pkcsreq])
  show "sp_Authorizer (sh_opts ex_scep_handler) = Some (Pipeline_Authorize exampleLib (ex_pipeline False))"
    by (simp add: ex_scep_handler_def ex_scep_options_def)
  have "grantOf (fst (Pipeline_Authorize exampleLib (ex_pipeline False)
      (authzRequest ex_scep_handler (ex_scep_request PKCSReq False) ex_scep_post) \<lparr>ss_secret = ''other''\<rparr>)) = None"
    by code_simp
  then show "grantOf (fst (Pipeline_Authorize exampleLib (ex_pipeline False)
      (authzRequest ex_scep_handler (ex_scep_request PKCSReq False) ex_scep_post) (bw_authz (ex_world\<lparr>bw_authz := \<lparr>ss_secret = ''other''\<rparr>\<rparr>)))) = None \<or>
    \<not> fst (ReplayCache_Check exampleLib 1 (at_TransactionID (sr_Attributes (ex_scep_request PKCSReq False)))
      (at_SenderNonce (sr_Attributes (ex_scep_request PKCSReq False))) (bw_replay (ex_world\<lparr>bw_authz := \<lparr>ss_secret = ''other''\<rparr>\<rparr>)))"
    by simp
qed

section \<open>Delivery\<close>

lemma scep_issue_success:
  assumes "scep_issue L X h nonce remote req d w = (resp, w')"
    and "resp \<noteq> scep_fail L h nonce req FailBadRequest" and "hr_Status resp = StatusOK"
  obtains issued out where "Responder_Success L (sh_resp h) nonce req (Some issued) = Ok out" "resp = writePKIMessage out"
    "\<And>verify. sp_VerifyIssued (sh_opts h) = Some verify \<Longrightarrow> verify (Some issued) (dc_Constraints d) = Ok ()"
proof -
  obtain res w1 where call: "callSign (sh_enroller h) (sh_upstream h) (dc_Role d)
      (pemEncode ''CERTIFICATE REQUEST'' (csr_Raw (sr_CSR req))) (toSignOptions (dc_Constraints d)) w = (res, w1)" by force
  from assms show thesis
    by (auto simp: scep_issue_def call status_defs intro: that split: sum.splits option.splits)
qed

lemma Responder_Success_Ok:
  assumes "Responder_Success L rs nonce req (Some c) = Ok out"
  obtains certsOnly enveloped where "pl_Degenerate L (crt_Raw c) = Ok certsOnly"
    "pl_Encrypt L certsOnly [sr_Signer req] = Ok enveloped" "signRep L rs nonce req enveloped StatusSuccess '''' = Ok out"
  using assms
  by (auto simp: Responder_Success_def cms_DegenerateCertsOnly_def cms_Encrypt_def intro: that split: sum.splits)

text \<open>
  (C21) A SCEP response that is not the failure message carries one certificate, encrypted to the signer of
  the request, and it was issued for a fresh message under an allowing decision for the certificate
  request in it, and passed VerifyIssued against that decision.\<close>

theorem scep_delivery_is_checked:
  assumes "readMessage h r = Ok body" and "Parse L (sh_parser h) body = Ok req"
    and "pkiOperation G L X h now nonce r w = (Responded resp, w')"
    and "resp \<noteq> scep_fail L h nonce req FailBadRequest" and "hr_Status resp = StatusOK"
    and "sp_VerifyIssued (sh_opts h) = Some (VerifyIssued G)"
  shows "\<exists>az d issued certsOnly enveloped out.
    fst (ReplayCache_Check G now (at_TransactionID (sr_Attributes req)) (at_SenderNonce (sr_Attributes req)) (bw_replay w)) \<and>
    sp_Authorizer (sh_opts h) = Some az \<and> fst (az (authzRequest h req r) (bw_authz w)) = Ok d \<and> dc_Allow d \<and>
    rq_CSR (authzRequest h req r) = Some (sr_CSR req) \<and>
    VerifyIssued G (Some issued) (dc_Constraints d) = Ok () \<and>
    pl_Degenerate L (crt_Raw issued) = Ok certsOnly \<and> pl_Encrypt L certsOnly [sr_Signer req] = Ok enveloped \<and>
    signRep L (sh_resp h) nonce req enveloped StatusSuccess '''' = Ok out \<and> hr_Body resp = out"
proof -
  note proc = assms(3) [unfolded pkiOperation_process [OF assms(1,2)]]
  obtain fresh cache where
    check: "ReplayCache_Check G now (at_TransactionID (sr_Attributes req)) (at_SenderNonce (sr_Attributes req)) (bw_replay w) = (fresh, cache)"
    by force
  obtain az where az: "sp_Authorizer (sh_opts h) = Some az"
    using proc assms(4) check by (cases "sp_Authorizer (sh_opts h)") (auto simp: scep_process_def Let_def split: if_splits)
  obtain res s' where run: "az (authzRequest h req r) (bw_authz w) = (res, s')" by force
  from proc [unfolded scep_process_stages [OF check az run]] assms(4)
  obtain d w1 where fresh: fresh and d: "res = Inr d" "dc_Allow d"
    and issue: "scep_issue L X h nonce (hq_RemoteAddr r) req d w1 = (resp, w')"
    by (auto simp: Let_def split: if_splits sum.splits prod.splits)
  obtain issued out where issued: "Responder_Success L (sh_resp h) nonce req (Some issued) = Ok out" "resp = writePKIMessage out"
    "VerifyIssued G (Some issued) (dc_Constraints d) = Ok ()"
    using scep_issue_success [OF issue assms(4,5)] assms(6) by metis
  obtain certsOnly enveloped where "pl_Degenerate L (crt_Raw issued) = Ok certsOnly"
    "pl_Encrypt L certsOnly [sr_Signer req] = Ok enveloped" "signRep L (sh_resp h) nonce req enveloped StatusSuccess '''' = Ok out"
    using Responder_Success_Ok [OF issued(1)] by metis
  with issued check fresh az run d show ?thesis
    by (intro exI [of _ az] exI [of _ d] exI [of _ issued] exI [of _ certsOnly] exI [of _ enveloped] exI [of _ out])
      (simp add: authzRequest_def writePKIMessage_def)
qed

lemma ex_scep_delivers:
  "fst (pkiOperation exampleLib (ex_pkcs7 RenewalReq) ex_x509 ex_scep_handler 1 (Ok ''sn'') ex_scep_post ex_world) =
   Responded (writePKIMessage ''signed:der'')"
  by code_simp

theorem scep_delivery_is_checked_witness:
  "\<exists>(d::Decision) issued. dc_Allow d \<and> VerifyIssued exampleLib (Some issued) (dc_Constraints d) = Ok ()"
proof -
  have run: "pkiOperation exampleLib (ex_pkcs7 RenewalReq) ex_x509 ex_scep_handler 1 (Ok ''sn'') ex_scep_post ex_world =
      (Responded (writePKIMessage ''signed:der''),
       snd (pkiOperation exampleLib (ex_pkcs7 RenewalReq) ex_x509 ex_scep_handler 1 (Ok ''sn'') ex_scep_post ex_world))"
    using ex_scep_delivers by (metis prod.collapse)
  have "scep_fail (ex_pkcs7 RenewalReq) ex_scep_handler (Ok ''sn'') (ex_scep_request RenewalReq True) FailBadRequest \<noteq> writePKIMessage ''signed:der''"
    by code_simp
  then show ?thesis
    using scep_delivery_is_checked [OF ex_readMessage ex_parse_renewal run]
    by (fastforce simp: writePKIMessage_def ex_scep_handler_def ex_scep_options_def)
qed


section \<open>Reading a chain\<close>

text \<open>The PEM loop as the source runs it, without a bound on its rounds.\<close>

inductive pemReads :: "x509lib \<Rightarrow> string \<Rightarrow> string list \<Rightarrow> bool" for X where
  pem_end: "xl_pemDecode X rest = None \<Longrightarrow> pemReads X rest []"
| pem_block: "xl_pemDecode X rest = Some (blk, r) \<Longrightarrow> pemReads X r out
    \<Longrightarrow> pemReads X rest ((if pb_Type blk = ''CERTIFICATE'' then [pb_Bytes blk] else []) @ out)"

inductive_cases pemReadsE: "pemReads X rest out"

lemma pemReads_unique: "pemReads X rest out \<Longrightarrow> pemReads X rest out' \<Longrightarrow> out' = out"
proof (induction arbitrary: out' rule: pemReads.induct)
  case (pem_end rest)
  from pem_end(2) show ?case by (rule pemReadsE) (use pem_end(1) in simp_all)
next
  case (pem_block rest blk r out)
  obtain out1 where out1: "out' = (if pb_Type blk = ''CERTIFICATE'' then [pb_Bytes blk] else []) @ out1" "pemReads X r out1"
    by (rule pemReadsE [OF pem_block.prems]) (use pem_block.hyps(1) in auto)
  with pem_block.IH [OF out1(2)] show ?case by simp
qed

primrec parseAll :: "x509lib \<Rightarrow> string list \<Rightarrow> (string, certificate list) result" where
  "parseAll X [] = Ok []"
| "parseAll X (der # ders) =
    (case xl_parseCert X der of
       Inl err \<Rightarrow> Err (''parse CA chain: '' @ err)
     | Inr c \<Rightarrow> (case parseAll X ders of Inl e \<Rightarrow> Err e | Inr cs \<Rightarrow> Ok (c # cs)))"

lemma pemLoop_reads:
  assumes "\<forall>s blk r. xl_pemDecode X s = Some (blk, r) \<longrightarrow> length r < length s" and "length s < fuel"
  shows "pemReads X s (pemLoop X fuel s)"
  using assms(2)
proof (induction fuel arbitrary: s)
  case (Suc fuel)
  show ?case
  proof (cases "xl_pemDecode X s")
    case None
    then show ?thesis by (simp add: pemReads.pem_end)
  next
    case (Some p)
    then obtain blk r where p: "xl_pemDecode X s = Some (blk, r)" by (cases p) auto
    then have "length r < fuel" using assms(1) Suc.prems by fastforce
    from pemReads.pem_block [OF p Suc.IH [OF this]] p show ?thesis by simp
  qed
qed simp

lemma chainLoop_parseAll: "chainLoop X fuel s = parseAll X (pemLoop X fuel s)"
  by (induction fuel arbitrary: s) (simp_all split: option.split sum.split)

text \<open>
  (C15) Both protocols read every certificate of the chain: as long as pem.Decode leaves less than it was
  given, the loops end, the EST loop returns exactly what the unbounded loop of the source reads, and
  the SCEP loop parses those same blocks in order and stops at the first that does not parse.\<close>

theorem pem_loops_complete:
  assumes "\<forall>s blk r. xl_pemDecode X s = Some (blk, r) \<longrightarrow> length r < length s"
  shows "(\<forall>out. pemReads X pem out \<longleftrightarrow> out = pemLoop X (Suc (length pem)) pem) \<and>
    (\<forall>out. pemReads X pem out \<longrightarrow> chainLoop X (Suc (length pem)) pem = parseAll X out)"
proof -
  have reads: "pemReads X pem (pemLoop X (Suc (length pem)) pem)" using pemLoop_reads [OF assms lessI] .
  from pemReads_unique [OF reads] reads have "pemReads X pem out \<longleftrightarrow> out = pemLoop X (Suc (length pem)) pem" for out by blast
  then show ?thesis by (simp add: chainLoop_parseAll del: pemLoop.simps chainLoop.simps)
qed

theorem pem_loops_complete_witness:
  "pemReads ex_x509 ''leaf'' [''leaf''] \<and> chainLoop ex_x509 5 ''leaf'' = parseAll ex_x509 [''leaf'']"
proof -
  have "\<forall>s blk r. xl_pemDecode ex_x509 s = Some (blk, r) \<longrightarrow> length r < length s" by (simp add: ex_x509_def)
  note complete = pem_loops_complete [OF this, of "''leaf''"]
  have "pemLoop ex_x509 (Suc (length ''leaf'')) ''leaf'' = [''leaf'']" by code_simp
  with complete have reads: "pemReads ex_x509 ''leaf'' [''leaf'']" by metis
  have "Suc (length ''leaf'') = 5" by simp
  with complete reads show ?thesis by metis
qed


text \<open>
  A SCEP handler can be built without an authorizer, and then the first message that parses and
  is not a replay panics; nothing is issued, but nothing is answered either.\<close>

theorem scep_nil_authorizer_panics:
  assumes "scep_NewHandler opts = Ok h" and "sp_Authorizer opts = None"
    and "readMessage h r = Ok body" and "Parse L (sh_parser h) body = Ok req"
    and "\<not> unexpired now (replayKey G (at_TransactionID (sr_Attributes req)) (at_SenderNonce (sr_Attributes req))) (bw_replay w)"
  shows "fst (pkiOperation G L X h now nonce r w) = Panicked \<and> bw_trace (snd (pkiOperation G L X h now nonce r w)) = bw_trace w"
  unfolding pkiOperation_process [OF assms(3,4)]
  using assms(2,5) scep_NewHandler_Ok(1) [OF assms(1)]
  by (simp add: scep_process_def ReplayCache_Check_def replayCheckKey_def Let_def split_def)

theorem scep_nil_authorizer_panics_witness:
  "fst (pkiOperation exampleLib (ex_pkcs7 PKCSReq) ex_x509
     (ex_scep_handler\<lparr>sh_opts := ex_scep_options\<lparr>sp_Authorizer := None\<rparr>\<rparr>) 0 (Ok ''n'') ex_scep_post ex_world) = Panicked"
proof -
  let ?h = "ex_scep_handler\<lparr>sh_opts := ex_scep_options\<lparr>sp_Authorizer := None\<rparr>\<rparr>"
  have "scep_NewHandler (ex_scep_options\<lparr>sp_Authorizer := None\<rparr>) = Ok ?h"
    by (simp add: scep_NewHandler_def ex_scep_options_def ex_scep_handler_def scep_defaultMaxRequestBytes_def
        scep_defaultUpstreamTimeout_def second_def)
  moreover have "readMessage ?h ex_scep_post = Ok ''message''" by code_simp
  moreover have "Parse (ex_pkcs7 PKCSReq) (sh_parser ?h) ''message'' = Ok (ex_scep_request PKCSReq False)"
    using ex_parse_pkcsreq by simp
  moreover have "\<not> unexpired 0 (replayKey exampleLib (at_TransactionID (sr_Attributes (ex_scep_request PKCSReq False)))
      (at_SenderNonce (sr_Attributes (ex_scep_request PKCSReq False)))) (bw_replay ex_world)" by code_simp
  ultimately show ?thesis
    using scep_nil_authorizer_panics [of "ex_scep_options\<lparr>sp_Authorizer := None\<rparr>"] by simp
qed


section \<open>Well-formed requests\<close>

text \<open>
  (C22) What the handler works on is well formed: a parsed message is a PKCSReq or a RenewalReq, has a
  transaction identifier of 1 to 128 bytes and a nonce of 16, and its certificate request carries a
  valid signature by a key within the RSA bounds.\<close>

theorem parsed_request_wellformed:
  assumes "Parse L p body = Ok req" and "pr_ParseCSR p = Some (\<lambda>der. ParseCSRLimited X der lo hi)"
  shows "at_MessageType (sr_Attributes req) \<in> {PKCSReq, RenewalReq} \<and>
    length (at_TransactionID (sr_Attributes req)) \<in> {1..128} \<and> length (at_SenderNonce (sr_Attributes req)) = 16 \<and>
    xl_checkSig X (sr_CSR req) = None \<and> rsa_within lo hi (csr_PublicKey (sr_CSR req))"
proof -
  obtain signed where "parseAttributes L signed = Ok (sr_Attributes req)" "\<exists>der. ParseCSRLimited X der lo hi = Ok (sr_CSR req)"
    using Parse_Ok [OF assms(1)] assms(2) by (metis option.inject)
  then show ?thesis
    using parseAttributes_Ok(1) [of L signed "sr_Attributes req"]
    by (auto simp: attrs_ok_def MessageType_Valid_def maxTransactionIDLen_def nonceLen_def ParseCSRLimited_Ok Suc_le_eq)
qed

theorem parsed_request_wellformed_witness: "xl_checkSig ex_x509 (sr_CSR (ex_scep_request PKCSReq False)) = None"
  using parsed_request_wellformed [OF ex_parse_pkcsreq, of ex_x509 0 0] by (simp add: ex_scep_handler_def)

section \<open>The replay cache as a set\<close>

text \<open>The keys that are refused at a time.\<close>

definition live :: "time \<Rightarrow> ReplayCache \<Rightarrow> string set" where
  "live now c = {k. unexpired now k c}"

text \<open>
  (C20) The replay cache implements a set of refused keys: Check says fresh exactly for a key outside the
  set and then adds it for the configured time. With room in the table nothing else changes; a
  full table can only forget keys, never refuse a new one.\<close>

theorem replay_refines_live_set:
  assumes "replay_ok c" and "now \<le> t" and "ReplayCache_Check G now txID nonce c = (fresh, c')"
    and "added = (if fresh \<and> t < now + rc_ttl c then {replayKey G txID nonce} else {})"
  shows "(fresh \<longleftrightarrow> replayKey G txID nonce \<notin> live now c) \<and> live t c' \<subseteq> live t c \<union> added \<and>
    (int (ReplayCache_Size c) < rc_maxSize c \<longrightarrow> live t c' = live t c \<union> added)"
proof -
  define key where "key = replayKey G txID nonce"
  have check: "replayCheckKey now key c = (fresh, c')" using assms(3) by (simp add: ReplayCache_Check_def key_def)
  have fresh: "fresh \<longleftrightarrow> key \<notin> live now c" using check by (auto simp: replayCheckKey_def live_def Let_def split: if_splits)
  show ?thesis
  proof (cases fresh)
    case False
    then have "c' = c" using check by (auto simp: replayCheckKey_def Let_def split: if_splits)
    with False fresh assms(4) show ?thesis by (simp add: key_def)
  next
    case True
    define c1 where "c1 = (if int (gm_len (rc_seen c)) \<ge> rc_maxSize c then replayEvict now c else c)"
    have c1: "gm_ok (rc_seen c1)" "\<And>k e. gm_get (rc_seen c1) k = Some e \<Longrightarrow> gm_get (rc_seen c) k = Some e"
      using assms(1) replayEvict_get [of c now] by (auto simp: c1_def replay_ok_def split: if_splits)
    have c': "c' = c1\<lparr>rc_seen := gm_put key (now + rc_ttl c) (rc_seen c1)\<rparr>"
      using check True by (auto simp: replayCheckKey_def c1_def Let_def split: if_splits)
    have stale: "key \<notin> live t c" using True fresh assms(2) by (auto simp: live_def unexpired_def split: option.splits)
    have live': "k \<in> live t c' \<longleftrightarrow> (if k = key then t < now + rc_ttl c else k \<in> live t c1)" for k
      using c1(1) by (simp add: live_def unexpired_def c' gm.get_put)
    have "live t c1 \<subseteq> live t c" using c1(2) by (fastforce simp: live_def unexpired_def split: option.splits)
    moreover have "c1 = c" if "int (ReplayCache_Size c) < rc_maxSize c" using that by (simp add: c1_def ReplayCache_Size_def)
    ultimately show ?thesis using True fresh stale live' assms(4) by (auto simp: key_def [symmetric] split: if_splits)
  qed
qed

theorem replay_refines_live_set_witness:
  "live 0 (snd (ReplayCache_Check exampleLib 0 ''tx'' ''nonce'' (NewReplayCache 0 0))) = {replayKey exampleLib ''tx'' ''nonce''}"
proof -
  let ?c = "NewReplayCache 0 0" and ?k = "replayKey exampleLib ''tx'' ''nonce''"
  have empty: "live 0 ?c = {}" by (simp add: live_def unexpired_def NewReplayCache_def gm.get_emp)
  have room: "int (ReplayCache_Size ?c) < rc_maxSize ?c" "0 < 0 + rc_ttl ?c"
    by (simp_all add: ReplayCache_Size_def NewReplayCache_def gm.len_emp DefaultReplayMaxEntries_def DefaultReplayTTL_def minute_def)
  have check: "ReplayCache_Check exampleLib 0 ''tx'' ''nonce'' ?c = (True, snd (ReplayCache_Check exampleLib 0 ''tx'' ''nonce'' ?c))"
    using empty by (simp add: ReplayCache_Check_def replayCheckKey_def live_def Let_def)
  from replay_refines_live_set [OF NewReplayCache_ok order_refl check refl] empty room show ?thesis by simp
qed

end
