(* ===== verification/Rate_Limits.thy ===== *)
theory Rate_Limits
  imports Broker_Prelude
begin

text \<open>
  The DoS controls, \<open>src/internal/limits/limits.go\<close>: token buckets per client and for the whole
  listener, the bounded table of buckets with its eviction, and the concurrency bound.

  A \<open>float64\<close> is a real number, and the rounding of every floating-point operation is written
  out: \<open>fl\<close> is the rounding function, an argument of the model. \<open>rounding fl\<close> is what IEEE 754
  promises of it (monotone, exact on what it returns and on zero). Infinities and NaN are outside
  the model. The clock and the order in which a loop visits a map are arguments.
\<close>

section \<open>Configuration\<close>

definition DefaultPerClientRate :: real where "DefaultPerClientRate = 1"
definition DefaultPerClientBurst :: real where "DefaultPerClientBurst = 5"
definition DefaultGlobalRate :: real where "DefaultGlobalRate = 50"
definition DefaultGlobalBurst :: real where "DefaultGlobalBurst = 100"
definition DefaultMaxConcurrent :: int where "DefaultMaxConcurrent = 32"
definition DefaultAcquireTimeout :: duration where "DefaultAcquireTimeout = 5 * second"
definition DefaultMaxClients :: int where "DefaultMaxClients = 65536"
definition sweepBudget :: nat where "sweepBudget = 256"
definition retryAfterSeconds :: string where "retryAfterSeconds = ''1''"

record limits_Config =
  lc_PerClientRate :: real
  lc_PerClientBurst :: real
  lc_GlobalRate :: real
  lc_GlobalBurst :: real
  lc_MaxConcurrent :: int
  lc_AcquireTimeout :: duration
  lc_MaxClients :: int

definition withDefaults :: "limits_Config \<Rightarrow> limits_Config" where
  "withDefaults c =
    \<lparr>lc_PerClientRate = (if lc_PerClientRate c = 0 then DefaultPerClientRate else lc_PerClientRate c),
     lc_PerClientBurst = (if lc_PerClientBurst c = 0 then DefaultPerClientBurst else lc_PerClientBurst c),
     lc_GlobalRate = (if lc_GlobalRate c = 0 then DefaultGlobalRate else lc_GlobalRate c),
     lc_GlobalBurst = (if lc_GlobalBurst c = 0 then DefaultGlobalBurst else lc_GlobalBurst c),
     lc_MaxConcurrent = (if lc_MaxConcurrent c = 0 then DefaultMaxConcurrent else lc_MaxConcurrent c),
     lc_AcquireTimeout = (if lc_AcquireTimeout c \<le> 0 then DefaultAcquireTimeout else lc_AcquireTimeout c),
     lc_MaxClients = (if lc_MaxClients c \<le> 0 then DefaultMaxClients else lc_MaxClients c)\<rparr>"

section \<open>Token buckets\<close>

record bucket =
  bk_tokens :: real
  bk_last :: time

text \<open>
  \<open>Duration.Seconds\<close>: whole seconds and the fraction are converted and added. Division and
  remainder truncate towards zero.
\<close>

definition quot_trunc :: "int \<Rightarrow> int \<Rightarrow> int" where
  "quot_trunc a b = (if a < 0 then - ((- a) div b) else a div b)"

definition durSeconds :: "(real \<Rightarrow> real) \<Rightarrow> duration \<Rightarrow> real" where
  "durSeconds fl d =
    (let sec = quot_trunc d second; nsec = d - sec * second
     in fl (fl (of_int sec) + fl (fl (of_int nsec) / 1000000000)))"

definition refill :: "(real \<Rightarrow> real) \<Rightarrow> time \<Rightarrow> real \<Rightarrow> real \<Rightarrow> bucket \<Rightarrow> bucket" where
  "refill fl now rate burst b =
    (let elapsed = durSeconds fl (time_Sub now (bk_last b)) in
     if elapsed > 0
     then b\<lparr>bk_tokens := min burst (fl (bk_tokens b + fl (elapsed * rate))), bk_last := now\<rparr>
     else b)"

definition take_token :: "(real \<Rightarrow> real) \<Rightarrow> time \<Rightarrow> real \<Rightarrow> real \<Rightarrow> bucket \<Rightarrow> bool \<times> bucket" where
  "take_token fl now rate burst b0 =
    (let b = refill fl now rate burst b0 in
     if bk_tokens b < 1 then (False, b)
     else (True, b\<lparr>bk_tokens := fl (bk_tokens b - 1)\<rparr>))"

definition idle :: "(real \<Rightarrow> real) \<Rightarrow> time \<Rightarrow> real \<Rightarrow> real \<Rightarrow> bucket \<Rightarrow> bool" where
  "idle fl now rate burst b =
    (fl (bk_tokens b + fl (max 0 (durSeconds fl (time_Sub now (bk_last b))) * rate)) \<ge> burst)"

section \<open>The keyed limiter\<close>

record keyedLimiter =
  kl_buckets :: "(string, bucket) gomap"
  kl_rate :: real
  kl_burst :: real
  kl_maxKeys :: int
  kl_disabled :: bool

definition newKeyedLimiter :: "real \<Rightarrow> real \<Rightarrow> int \<Rightarrow> keyedLimiter" where
  "newKeyedLimiter rate burst maxKeys =
    \<lparr>kl_buckets = gm_empty, kl_rate = rate, kl_burst = burst, kl_maxKeys = maxKeys,
     kl_disabled = (rate < 0 \<or> burst < 0)\<rparr>"

text \<open>
  The sweep of \<open>evictLocked\<close> over the keys in the order of the iteration. The result is the
  table, the number of freed buckets and the key of the oldest bucket seen. The zero value of
  \<open>oldest\<close> is the year 1.
\<close>

definition zeroTime :: time where "zeroTime = - 62135596800000000000"

fun evictSweep :: "(real \<Rightarrow> real) \<Rightarrow> time \<Rightarrow> keyedLimiter \<Rightarrow> string list \<Rightarrow> nat \<Rightarrow> string \<Rightarrow> time \<Rightarrow> nat
   \<Rightarrow> (string, bucket) gomap \<Rightarrow> (string, bucket) gomap \<times> nat \<times> string" where
  "evictSweep fl now k [] freed oldestKey oldest seen m = (m, freed, oldestKey)"
| "evictSweep fl now k (key # keys) freed oldestKey oldest seen m =
    (case gm_get m key of
       None \<Rightarrow> evictSweep fl now k keys freed oldestKey oldest seen m
     | Some b \<Rightarrow>
        (let isIdle = idle fl now (kl_rate k) (kl_burst k) b;
             m' = (if isIdle then gm_del key m else m);
             freed' = (if isIdle then Suc freed else freed);
             older = (\<not> isIdle \<and> (seen = 0 \<or> bk_last b < oldest));
             oldestKey' = (if older then key else oldestKey);
             oldest' = (if older then bk_last b else oldest);
             seen' = Suc seen
         in if seen' \<ge> sweepBudget then (m', freed', oldestKey')
            else evictSweep fl now k keys freed' oldestKey' oldest' seen' m'))"

definition evictLocked :: "(real \<Rightarrow> real) \<Rightarrow> time \<Rightarrow> string list \<Rightarrow> keyedLimiter \<Rightarrow> keyedLimiter" where
  "evictLocked fl now order k =
    (case evictSweep fl now k order 0 '''' zeroTime 0 (kl_buckets k) of
       (m, freed, oldestKey) \<Rightarrow>
         k\<lparr>kl_buckets := (if freed = 0 \<and> oldestKey \<noteq> '''' then gm_del oldestKey m else m)\<rparr>)"

definition allow :: "(real \<Rightarrow> real) \<Rightarrow> time \<Rightarrow> string list \<Rightarrow> string \<Rightarrow> keyedLimiter \<Rightarrow> bool \<times> keyedLimiter" where
  "allow fl now order key k =
    (if kl_disabled k then (True, k)
     else
       (let (k1, b) = (case gm_get (kl_buckets k) key of
               Some b \<Rightarrow> (k, b)
             | None \<Rightarrow>
                (let k' = (if int (gm_len (kl_buckets k)) \<ge> kl_maxKeys k then evictLocked fl now order k else k)
                 in (k', \<lparr>bk_tokens = kl_burst k, bk_last = now\<rparr>)));
            (granted, b') = take_token fl now (kl_rate k1) (kl_burst k1) b
        in (granted, k1\<lparr>kl_buckets := gm_put key b' (kl_buckets k1)\<rparr>)))"

definition limiter_size :: "keyedLimiter \<Rightarrow> nat" where
  "limiter_size k = gm_len (kl_buckets k)"

section \<open>The composed limiter\<close>

record Limiter =
  lm_perClient :: keyedLimiter
  lm_global :: keyedLimiter
  lm_sem :: "nat option"
  lm_acquireTimeout :: duration

definition limits_New :: "limits_Config \<Rightarrow> Limiter" where
  "limits_New cfg0 =
    (let cfg = withDefaults cfg0 in
     \<lparr>lm_perClient = newKeyedLimiter (lc_PerClientRate cfg) (lc_PerClientBurst cfg) (lc_MaxClients cfg),
      lm_global = newKeyedLimiter (lc_GlobalRate cfg) (lc_GlobalBurst cfg) 1,
      lm_sem = (if lc_MaxConcurrent cfg > 0 then Some (nat (lc_MaxConcurrent cfg)) else None),
      lm_acquireTimeout = lc_AcquireTimeout cfg\<rparr>)"

text \<open>
  \<open>net.SplitHostPort\<close> as far as \<open>ClientIP\<close> uses it: the host, or an error. The last colon
  separates the port; a host in brackets may contain colons.
\<close>

definition splitHost :: "string \<Rightarrow> string option" where
  "splitHost hp =
    (case cutLastByte (CHR '':'') hp of
       None \<Rightarrow> None
     | Some (before, port) \<Rightarrow>
        if hasPrefix hp ''['' then
          (case cutByte (CHR '']'') hp of
             None \<Rightarrow> None
           | Some (inside, after) \<Rightarrow>
              if after = [] \<or> length inside + 1 \<noteq> length before then None
              else if CHR ''['' \<in> set (drop 1 hp) \<or> CHR '']'' \<in> set after then None
              else Some (drop 1 inside))
        else if CHR '':'' \<in> set before \<or> CHR ''['' \<in> set hp \<or> CHR '']'' \<in> set hp then None
        else Some before)"

definition ClientIP :: "string \<Rightarrow> string" where
  "ClientIP remoteAddr = (case splitHost remoteAddr of None \<Rightarrow> remoteAddr | Some host \<Rightarrow> host)"

section \<open>Rounding\<close>

definition rounding :: "(real \<Rightarrow> real) \<Rightarrow> bool" where
  "rounding fl = (mono fl \<and> fl 0 = 0 \<and> (\<forall>x. fl (fl x) = fl x))"

text \<open>A bound of the relative error from above, on what is not negative.\<close>

definition rel_error :: "real \<Rightarrow> (real \<Rightarrow> real) \<Rightarrow> bool" where
  "rel_error e fl = (0 \<le> e \<and> (\<forall>x\<ge>0. fl x \<le> x * (1 + e)))"

lemma rounding_mono: "rounding fl \<Longrightarrow> x \<le> y \<Longrightarrow> fl x \<le> fl y"
  by (auto simp: rounding_def mono_def)

lemma rounding_nonneg: "rounding fl \<Longrightarrow> 0 \<le> x \<Longrightarrow> 0 \<le> fl x"
  using rounding_mono [of fl 0 x] by (simp add: rounding_def)

lemma rounding_nonpos: "rounding fl \<Longrightarrow> x \<le> 0 \<Longrightarrow> fl x \<le> 0"
  using rounding_mono [of fl x 0] by (simp add: rounding_def)

lemma durSeconds_nonpos:
  assumes fl: "rounding fl" and "d \<le> 0"
  shows "durSeconds fl d \<le> 0"
proof -
  define n where "n = d - quot_trunc d second * second"
  have sec: "quot_trunc d second \<le> 0" and nsec: "n \<le> 0"
    using assms(2) unfolding n_def quot_trunc_def second_def by (auto; presburger)+
  have "fl (of_int n) / 1000000000 \<le> 0"
    using nsec by (simp add: divide_nonpos_pos rounding_nonpos [OF fl])
  then have "fl (of_int (quot_trunc d second)) + fl (fl (of_int n) / 1000000000) \<le> 0"
    using sec by (intro add_nonpos_nonpos rounding_nonpos [OF fl]) simp_all
  then show ?thesis
    unfolding durSeconds_def Let_def n_def [symmetric] by (rule rounding_nonpos [OF fl])
qed

lemma rel_error_le:
  assumes "rel_error e fl" and "0 \<le> x" and "x \<le> y"
  shows "fl x \<le> y * (1 + e)"
proof -
  have "fl x \<le> x * (1 + e)" using assms by (simp add: rel_error_def)
  also have "\<dots> \<le> y * (1 + e)" using assms by (intro mult_right_mono) (auto simp: rel_error_def)
  finally show ?thesis .
qed

lemma rel_error_grow: "rel_error e fl \<Longrightarrow> 0 \<le> x \<Longrightarrow> x \<le> x * (1 + e)"
  by (auto simp: rel_error_def algebra_simps)

lemma durSeconds_upper:
  assumes fl: "rounding fl" and err: "rel_error e fl" and "0 \<le> d"
  shows "durSeconds fl d \<le> of_int d / 1000000000 * (1 + e) ^ 3"
proof -
  define n where "n = d - d div second * second"
  define x where "x = fl (of_int (d div second)) + fl (fl (of_int n) / 1000000000)"
  have s0: "0 \<le> d div second" and n0: "0 \<le> n"
    using assms(3) unfolding n_def second_def by (simp_all add: minus_div_mult_eq_mod)
  have dn: "real_of_int d / 1000000000 = of_int (d div second) + of_int n / 1000000000"
    by (simp add: n_def second_def field_simps)
  have nn: "0 \<le> fl (of_int n) / 1000000000" using n0 by (simp add: rounding_nonneg [OF fl])
  have "fl (of_int n) \<le> of_int n * (1 + e)" using rel_error_le [OF err] n0 by simp
  then have "fl (fl (of_int n) / 1000000000) \<le> of_int n * (1 + e) / 1000000000 * (1 + e)"
    by (intro rel_error_le [OF err nn] divide_right_mono) simp_all
  moreover have "fl (of_int (d div second)) \<le> of_int (d div second) * (1 + e) * (1 + e)"
  proof -
    have "fl (of_int (d div second)) \<le> of_int (d div second) * (1 + e)"
      using rel_error_le [OF err] s0 by simp
    also have "\<dots> \<le> of_int (d div second) * (1 + e) * (1 + e)"
      using s0 err by (intro rel_error_grow [OF err]) (simp add: rel_error_def)
    finally show ?thesis .
  qed
  ultimately have sum: "x \<le> of_int d / 1000000000 * (1 + e) * (1 + e)"
    unfolding x_def dn by (simp add: algebra_simps add_divide_distrib)
  have "0 \<le> x" using s0 nn by (simp add: x_def rounding_nonneg [OF fl])
  from rel_error_le [OF err this sum] have "fl x \<le> of_int d / 1000000000 * (1 + e) ^ 3"
    by (simp add: power3_eq_cube mult.assoc)
  moreover have "durSeconds fl d = fl x"
    using assms(3) unfolding durSeconds_def Let_def quot_trunc_def x_def n_def by simp
  ultimately show ?thesis by simp
qed

section \<open>Buckets\<close>

text \<open>The invariant of a bucket: between empty and full.\<close>

definition bucket_ok :: "real \<Rightarrow> bucket \<Rightarrow> bool" where
  "bucket_ok burst b = (0 \<le> bk_tokens b \<and> bk_tokens b \<le> burst)"

lemma refill_ok:
  assumes fl: "rounding fl" and rate: "0 \<le> rate" and ok: "bucket_ok burst b"
  shows "bucket_ok burst (refill fl now rate burst b)"
proof (cases "durSeconds fl (time_Sub now (bk_last b)) > 0")
  case True
  then have "0 \<le> fl (bk_tokens b + fl (durSeconds fl (time_Sub now (bk_last b)) * rate))"
    using ok rate by (intro rounding_nonneg [OF fl] add_nonneg_nonneg) (simp_all add: bucket_ok_def)
  with True ok show ?thesis by (simp add: refill_def bucket_ok_def)
next
  case False
  with ok show ?thesis by (simp add: refill_def)
qed

lemma take_token_ok:
  assumes "rounding fl" "0 \<le> rate" "fl burst = burst" "bucket_ok burst b"
  shows "bucket_ok burst (snd (take_token fl now rate burst b))"
proof -
  let ?b = "refill fl now rate burst b"
  have ok: "bucket_ok burst ?b" by (rule refill_ok [OF assms(1,2,4)])
  then have "fl (bk_tokens ?b - 1) \<le> fl burst"
    by (intro rounding_mono [OF assms(1)]) (simp add: bucket_ok_def)
  with ok assms(3) show ?thesis
    by (auto simp: take_token_def Let_def bucket_ok_def intro!: rounding_nonneg [OF assms(1)])
qed

lemma refill_budget:
  assumes fl: "rounding fl" and err: "rel_error e fl" and rate: "0 \<le> rate" and ok: "bucket_ok burst b"
    and b': "b' = refill fl now rate burst b"
  shows "bk_last b \<le> bk_last b' \<and> bk_tokens b' \<le> bk_tokens b + e * burst
      + rate * (1 + e) ^ 5 * (of_int (bk_last b' - bk_last b) / 1000000000)"
proof (cases "durSeconds fl (time_Sub now (bk_last b)) > 0")
  case False
  have "0 \<le> e * burst" using err ok by (auto simp: rel_error_def bucket_ok_def)
  with False b' show ?thesis by (simp add: refill_def)
next
  case True
  define d where "d = time_Sub now (bk_last b)"
  define D where "D = real_of_int (now - bk_last b) / 1000000000"
  define q where "q = 1 + e"
  define t where "t = bk_tokens b"
  have e: "0 \<le> e" using err by (simp add: rel_error_def)
  have t: "0 \<le> t" "t \<le> burst" using ok by (auto simp: bucket_ok_def t_def)
  have d: "0 < d" using True durSeconds_nonpos [OF fl, of d] unfolding d_def by linarith
  then have dn: "d \<le> now - bk_last b" by (auto simp: d_def time_Sub_def minInt64_def maxInt64_def)
  have "durSeconds fl d \<le> of_int d / 1000000000 * q ^ 3"
    using durSeconds_upper [OF fl err] d by (simp add: q_def)
  also have "\<dots> \<le> D * q ^ 3"
    using dn e unfolding D_def q_def by (intro mult_right_mono divide_right_mono) (simp_all del: of_int_diff)
  finally have el: "durSeconds fl d * rate \<le> D * q ^ 3 * rate" using rate by (rule mult_right_mono)
  have "fl (durSeconds fl d * rate) \<le> D * q ^ 3 * rate * q"
    unfolding q_def using True rate el
    by (intro rel_error_le [OF err]) (simp_all add: d_def q_def)
  then have "fl (t + fl (durSeconds fl d * rate)) \<le> (t + D * q ^ 3 * rate * q) * q"
    unfolding q_def using True rate t
    by (intro rel_error_le [OF err] add_nonneg_nonneg rounding_nonneg [OF fl]) (simp_all add: d_def)
  also have "\<dots> = t + e * t + rate * q ^ 5 * D"
    by (simp add: q_def distrib_left distrib_right eval_nat_numeral mult_ac)
  also have "\<dots> \<le> t + e * burst + rate * q ^ 5 * D" using e t by (simp add: mult_left_mono)
  finally have "bk_tokens b' \<le> t + e * burst + rate * q ^ 5 * D"
    using True b' by (simp add: refill_def Let_def d_def t_def)
  with True d dn b' show ?thesis by (simp add: refill_def Let_def D_def q_def t_def)
qed

lemma take_token_budget:
  assumes fl: "rounding fl" and err: "rel_error e fl" and rate: "0 \<le> rate" and ok: "bucket_ok burst b"
    and run: "take_token fl now rate burst b = (granted, b')"
  shows "bk_last b \<le> bk_last b' \<and> of_bool granted + bk_tokens b' \<le> bk_tokens b + 2 * e * burst
      + rate * (1 + e) ^ 5 * (of_int (bk_last b' - bk_last b) / 1000000000)"
proof -
  define r where "r = refill fl now rate burst b"
  note refill = refill_budget [OF fl err rate ok r_def]
  have r: "bucket_ok burst r" unfolding r_def by (rule refill_ok [OF fl rate ok])
  have e: "0 \<le> e" "0 \<le> e * burst" using err ok by (auto simp: rel_error_def bucket_ok_def)
  have last: "bk_last b' = bk_last r"
    using run by (auto simp: take_token_def Let_def r_def split: if_splits)
  have "of_bool granted + bk_tokens b' \<le> bk_tokens r + e * burst"
  proof (cases "bk_tokens r < 1")
    case True
    with run e show ?thesis by (auto simp: take_token_def Let_def simp flip: r_def)
  next
    case False
    have "fl (bk_tokens r - 1) \<le> (bk_tokens r - 1) * (1 + e)"
      using False by (intro rel_error_le [OF err]) simp_all
    also have "\<dots> = bk_tokens r - 1 + e * (bk_tokens r - 1)" by (simp add: algebra_simps)
    also have "\<dots> \<le> bk_tokens r - 1 + e * burst"
      using e r by (intro add_left_mono mult_left_mono) (simp_all add: bucket_ok_def)
    finally show ?thesis using False run by (auto simp: take_token_def Let_def simp flip: r_def)
  qed
  with refill last show ?thesis by simp
qed

text \<open>A sequence of requests on one bucket: how many were granted, and the bucket at the end.\<close>

fun take_run :: "(real \<Rightarrow> real) \<Rightarrow> real \<Rightarrow> real \<Rightarrow> time list \<Rightarrow> bucket \<Rightarrow> nat \<times> bucket" where
  "take_run fl rate burst [] b = (0, b)"
| "take_run fl rate burst (now # ts) b =
    (let r = take_token fl now rate burst b; rest = take_run fl rate burst ts (snd r)
     in ((if fst r then 1 else 0) + fst rest, snd rest))"

lemma take_run_budget:
  assumes fl: "rounding fl" and err: "rel_error e fl" and rate: "0 \<le> rate" and burst: "fl burst = burst"
  shows "bucket_ok burst b \<Longrightarrow>
    bk_last b \<le> bk_last (snd (take_run fl rate burst ts b)) \<and>
    of_nat (fst (take_run fl rate burst ts b)) + bk_tokens (snd (take_run fl rate burst ts b))
      \<le> bk_tokens b + 2 * e * burst * of_nat (length ts)
        + rate * (1 + e) ^ 5 * (of_int (bk_last (snd (take_run fl rate burst ts b)) - bk_last b) / 1000000000)"
proof (induction ts arbitrary: b)
  case (Cons now ts)
  define K where "K = rate * (1 + e) ^ 5"
  obtain g b1 where r: "take_token fl now rate burst b = (g, b1)" by force
  have b1: "bucket_ok burst b1" using take_token_ok [OF fl rate burst Cons.prems, of now] r by simp
  obtain n b2 where rest: "take_run fl rate burst ts b1 = (n, b2)" by force
  have step: "bk_last b \<le> bk_last b1 \<and> of_bool g + bk_tokens b1 \<le> bk_tokens b + 2 * e * burst
      + K * (of_int (bk_last b1 - bk_last b) / 1000000000)"
    unfolding K_def by (rule take_token_budget [OF fl err rate Cons.prems r])
  have ih: "bk_last b1 \<le> bk_last b2 \<and> of_nat n + bk_tokens b2 \<le> bk_tokens b1 + 2 * e * burst * of_nat (length ts)
      + K * (of_int (bk_last b2 - bk_last b1) / 1000000000)"
    using Cons.IH [OF b1] rest by (simp add: K_def)
  have split: "K * (of_int (bk_last b2 - bk_last b) / 1000000000) =
      K * (of_int (bk_last b1 - bk_last b) / 1000000000) + K * (of_int (bk_last b2 - bk_last b1) / 1000000000)"
    by (simp add: field_simps)
  have run: "take_run fl rate burst (now # ts) b = ((if g then 1 else 0) + n, b2)"
    using r rest by (simp add: Let_def)
  have len: "2 * e * burst * of_nat (length (now # ts)) = 2 * e * burst + 2 * e * burst * of_nat (length ts)"
    by (simp add: algebra_simps)
  have "of_nat ((if g then 1 else 0) + n) = of_bool g + (of_nat n :: real)" by simp
  then show ?case unfolding run fst_conv snd_conv len K_def [symmetric]
    using step ih split by linarith
qed simp

lemma take_run_ok:
  assumes "rounding fl" "0 \<le> rate" "fl burst = burst"
  shows "bucket_ok burst b \<Longrightarrow> bucket_ok burst (snd (take_run fl rate burst ts b))"
  using take_token_ok [OF assms] by (induction ts arbitrary: b) (simp_all add: Let_def)

lemma take_run_last:
  "bk_last b \<le> t \<Longrightarrow> list_all (\<lambda>x. x \<le> t) ts \<Longrightarrow> bk_last (snd (take_run fl rate burst ts b)) \<le> t"
proof (induction ts arbitrary: b)
  case (Cons x ts)
  then have "bk_last (snd (take_token fl x rate burst b)) \<le> t"
    by (simp add: take_token_def refill_def Let_def)
  with Cons show ?case by (simp add: Let_def)
qed simp

section \<open>The table of buckets\<close>

lemma evictSweep_sub:
  "gm_ok m \<Longrightarrow> evictSweep fl now k keys freed ok ol seen m = (m', freed', ok') \<Longrightarrow>
     gm_ok m' \<and> (\<forall>j b. gm_get m' j = Some b \<longrightarrow> gm_get m j = Some b) \<and>
     freed \<le> freed' \<and> gm_len m' + (freed' - freed) = gm_len m"
proof (induction fl now k keys freed ok ol seen m rule: evictSweep.induct)
  case (2 fl now k key keys freed ok ol seen m)
  show ?case
  proof (cases "gm_get m key")
    case None
    with 2 show ?thesis by simp
  next
    case (Some b)
    define i where "i = idle fl now (kl_rate k) (kl_burst k) b"
    define m1 where "m1 = (if i then gm_del key m else m)"
    have m1: "gm_ok m1" "\<And>j c. gm_get m1 j = Some c \<Longrightarrow> gm_get m j = Some c"
      "gm_len m1 + of_bool i = gm_len m"
      using 2(3) Some gm.len_pos [of m key b]
      by (auto simp: m1_def gm.ok_del gm.get_del gm.len_del split: if_splits)
    show ?thesis
    proof (cases "Suc seen \<ge> sweepBudget")
      case True
      with 2(4) Some m1 show ?thesis by (auto simp: Let_def i_def [symmetric] m1_def split: if_splits)
    next
      case False
      with 2(4) Some have rec: "evictSweep fl now k keys (if i then Suc freed else freed)
          (if \<not> i \<and> (seen = 0 \<or> bk_last b < ol) then key else ok)
          (if \<not> i \<and> (seen = 0 \<or> bk_last b < ol) then bk_last b else ol) (Suc seen) m1 = (m', freed', ok')"
        by (simp add: Let_def i_def [symmetric] m1_def)
      from 2(2) [OF Some refl refl refl refl refl refl refl, folded i_def] False rec m1
      have "gm_ok m' \<and> (\<forall>j b. gm_get m' j = Some b \<longrightarrow> gm_get m1 j = Some b) \<and>
         (if i then Suc freed else freed) \<le> freed' \<and>
         gm_len m' + (freed' - (if i then Suc freed else freed)) = gm_len m1"
        by (simp add: m1_def)
      with m1 show ?thesis by (auto split: if_splits)
    qed
  qed
qed simp

lemma evictSweep_freed_le:
  "evictSweep fl now k keys freed ok ol seen m = (m', freed', ok') \<Longrightarrow> freed \<le> freed'"
proof (induction keys arbitrary: freed ok ol seen m)
  case (Cons key keys)
  note IH = Cons.IH Cons.IH [THEN Suc_leD]
  show ?case
    using Cons.prems by (auto simp: Let_def intro: IH split: option.splits if_splits)
qed simp

text \<open>A sweep that frees nothing leaves the table alone and has found an entry to evict.\<close>

lemma evictSweep_none_freed:
  "evictSweep fl now k keys freed ok ol seen m = (m', 0, ok') \<Longrightarrow>
   (seen > 0 \<Longrightarrow> gm_get m ok \<noteq> None) \<Longrightarrow>
     m' = m \<and> ((\<exists>j\<in>set keys. gm_get m j \<noteq> None) \<or> seen > 0 \<longrightarrow> gm_get m ok' \<noteq> None)"
proof (induction fl now k keys freed ok ol seen m rule: evictSweep.induct)
  case (2 fl now k key keys freed ok ol seen m)
  show ?case
  proof (cases "gm_get m key")
    case None
    with 2 show ?thesis by simp
  next
    case (Some b)
    define i where "i = idle fl now (kl_rate k) (kl_burst k) b"
    define older where "older = (\<not> i \<and> (seen = 0 \<or> bk_last b < ol))"
    define m1 where "m1 = (if i then gm_del key m else m)"
    have no: "\<not> i"
    proof
      assume i: i
      have "Suc freed \<le> 0"
      proof (cases "Suc seen \<ge> sweepBudget")
        case True
        with 2(3) Some i show ?thesis by (simp add: Let_def i_def)
      next
        case False
        with 2(3) Some i have "evictSweep fl now k keys (Suc freed) ok ol (Suc seen) (gm_del key m) = (m', 0, ok')"
          by (simp add: Let_def i_def)
        then show ?thesis using evictSweep_freed_le by blast
      qed
      then show False by simp
    qed
    have key: "gm_get m (if older then key else ok) \<noteq> None"
      using Some no 2(4) by (auto simp: older_def)
    show ?thesis
    proof (cases "Suc seen \<ge> sweepBudget")
      case True
      with 2(3) Some no key show ?thesis by (auto simp: Let_def i_def older_def)
    next
      case False
      with 2(3) Some no have "evictSweep fl now k keys freed (if older then key else ok)
          (if older then bk_last b else ol) (Suc seen) m = (m', 0, ok')"
        by (simp add: Let_def i_def older_def)
      with 2(2) [OF Some refl refl refl refl refl refl refl] False no key
      show ?thesis by (auto simp: i_def older_def)
    qed
  qed
qed simp

lemma evictLocked_keeps:
  assumes "gm_ok (kl_buckets k)"
  shows "gm_ok (kl_buckets (evictLocked fl now order k))"
    and "gm_get (kl_buckets (evictLocked fl now order k)) j = Some b \<Longrightarrow> gm_get (kl_buckets k) j = Some b"
    and "gm_len (kl_buckets (evictLocked fl now order k)) \<le> gm_len (kl_buckets k)"
    and "kl_rate (evictLocked fl now order k) = kl_rate k"
    and "kl_burst (evictLocked fl now order k) = kl_burst k"
    and "kl_maxKeys (evictLocked fl now order k) = kl_maxKeys k"
    and "kl_disabled (evictLocked fl now order k) = kl_disabled k"
proof -
  obtain m freed ok where sweep: "evictSweep fl now k order 0 '''' zeroTime 0 (kl_buckets k) = (m, freed, ok)"
    by (metis prod.collapse)
  note sub = evictSweep_sub [OF assms sweep]
  show "gm_ok (kl_buckets (evictLocked fl now order k))"
    and "gm_get (kl_buckets (evictLocked fl now order k)) j = Some b \<Longrightarrow> gm_get (kl_buckets k) j = Some b"
    and "gm_len (kl_buckets (evictLocked fl now order k)) \<le> gm_len (kl_buckets k)"
    using sub gm.len_del_le [of m ok] sweep
    by (auto simp: evictLocked_def gm.ok_del gm.get_del split: if_splits)
qed (simp_all add: evictLocked_def split: prod.split)

text \<open>Eviction makes room, whatever the order of the iteration, unless the oldest key is empty.\<close>

lemma evictLocked_frees:
  assumes "gm_ok (kl_buckets k)" "gm_order (kl_buckets k) order"
    and "0 < gm_len (kl_buckets k)" "gm_get (kl_buckets k) '''' = None"
  shows "gm_len (kl_buckets (evictLocked fl now order k)) < gm_len (kl_buckets k)"
proof -
  obtain m freed ok where sweep: "evictSweep fl now k order 0 '''' zeroTime 0 (kl_buckets k) = (m, freed, ok)"
    by (metis prod.collapse)
  have "order \<noteq> []" using gm_order_length [OF assms(1,2)] assms(3) by auto
  then have ex: "\<exists>j\<in>set order. gm_get (kl_buckets k) j \<noteq> None"
    using gm_order_iff [OF assms(2), of "hd order"] by (intro bexI [of _ "hd order"]) auto
  show ?thesis
  proof (cases "freed = 0")
    case True
    with evictSweep_none_freed [OF sweep [unfolded True]] ex have
      m: "m = kl_buckets k" and "gm_get (kl_buckets k) ok \<noteq> None" by auto
    then have "ok \<noteq> ''''" "gm_len (gm_del ok m) = gm_len (kl_buckets k) - 1"
      using assms(1,4) by (auto simp: gm.len_del)
    with True sweep assms(3) show ?thesis by (simp add: evictLocked_def)
  next
    case False
    with evictSweep_sub [OF assms(1) sweep] sweep show ?thesis by (simp add: evictLocked_def)
  qed
qed

text \<open>
  The invariant of a limiter: every bucket is between empty and full; and the bound of its table,
  for keys that are not empty.
\<close>

definition limiter_ok :: "keyedLimiter \<Rightarrow> bool" where
  "limiter_ok k = (gm_ok (kl_buckets k) \<and>
     (\<forall>j b. gm_get (kl_buckets k) j = Some b \<longrightarrow> bucket_ok (kl_burst k) b))"

definition table_bounded :: "keyedLimiter \<Rightarrow> bool" where
  "table_bounded k = (int (gm_len (kl_buckets k)) \<le> kl_maxKeys k \<and> gm_get (kl_buckets k) '''' = None)"

lemma allow_fields:
  "kl_rate (snd (allow fl now order key k)) = kl_rate k"
  "kl_burst (snd (allow fl now order key k)) = kl_burst k"
  "kl_maxKeys (snd (allow fl now order key k)) = kl_maxKeys k"
  "kl_disabled (snd (allow fl now order key k)) = kl_disabled k"
  by (auto simp: allow_def evictLocked_def Let_def split: option.split prod.split)

lemma allow_ok:
  assumes fl: "rounding fl" and rate: "0 \<le> kl_rate k" and burst: "0 \<le> kl_burst k" "fl (kl_burst k) = kl_burst k"
    and ok: "limiter_ok k"
  shows "limiter_ok (snd (allow fl now order key k))"
proof (cases "kl_disabled k")
  case True
  with ok show ?thesis by (simp add: allow_def)
next
  case False
  define k1 where "k1 = (if gm_get (kl_buckets k) key = None \<and> int (gm_len (kl_buckets k)) \<ge> kl_maxKeys k
    then evictLocked fl now order k else k)"
  define b where "b = (case gm_get (kl_buckets k) key of Some b \<Rightarrow> b
    | None \<Rightarrow> \<lparr>bk_tokens = kl_burst k, bk_last = now\<rparr>)"
  have k: "gm_ok (kl_buckets k)" "\<And>j c. gm_get (kl_buckets k) j = Some c \<Longrightarrow> bucket_ok (kl_burst k) c"
    using ok by (auto simp: limiter_ok_def)
  have k1: "gm_ok (kl_buckets k1)" "kl_rate k1 = kl_rate k" "kl_burst k1 = kl_burst k"
    "\<And>j c. gm_get (kl_buckets k1) j = Some c \<Longrightarrow> gm_get (kl_buckets k) j = Some c"
    using evictLocked_keeps [OF k(1)] k(1) by (auto simp: k1_def split: if_splits)
  have "bucket_ok (kl_burst k) b"
    using k(2) burst by (auto simp: b_def bucket_ok_def split: option.split)
  then have "bucket_ok (kl_burst k) (snd (take_token fl now (kl_rate k) (kl_burst k) b))"
    by (rule take_token_ok [OF fl rate burst(2)])
  moreover have "snd (allow fl now order key k) =
      k1\<lparr>kl_buckets := gm_put key (snd (take_token fl now (kl_rate k) (kl_burst k) b)) (kl_buckets k1)\<rparr>"
    using False k1(2,3) unfolding k1_def b_def
    by (cases "gm_get (kl_buckets k) key") (simp_all add: allow_def Let_def split_def)
  ultimately show ?thesis using k k1 by (auto simp: limiter_ok_def gm.ok_put gm.get_put)
qed

lemma allow_bounded:
  assumes ok: "gm_ok (kl_buckets k)" and order: "gm_order (kl_buckets k) order"
    and max: "1 \<le> kl_maxKeys k" and key: "key \<noteq> ''''" and bounded: "table_bounded k"
  shows "table_bounded (snd (allow fl now order key k))"
proof (cases "kl_disabled k")
  case True
  with bounded show ?thesis by (simp add: allow_def)
next
  case False
  note keeps = evictLocked_keeps [OF ok]
  have empty: "gm_get (kl_buckets (evictLocked fl now order k)) '''' = None"
    using bounded keeps(2) [of fl now order "[]"] unfolding table_bounded_def by (metis not_None_eq)
  have full: "int (gm_len (kl_buckets k)) \<ge> kl_maxKeys k \<Longrightarrow>
      int (gm_len (kl_buckets (evictLocked fl now order k))) < kl_maxKeys k"
    using evictLocked_frees [OF ok order, of fl now] max bounded by (auto simp: table_bounded_def)
  show ?thesis
  proof (cases "gm_get (kl_buckets k) key")
    case (Some b)
    with False bounded key ok show ?thesis
      by (auto simp: allow_def table_bounded_def Let_def gm.len_put gm.get_put split: prod.split)
  next
    case None
    define k1 where "k1 = (if int (gm_len (kl_buckets k)) \<ge> kl_maxKeys k then evictLocked fl now order k else k)"
    have k1: "gm_ok (kl_buckets k1)" "gm_get (kl_buckets k1) '''' = None" "kl_maxKeys k1 = kl_maxKeys k"
      "int (gm_len (kl_buckets k1)) < kl_maxKeys k"
      using keeps ok empty full bounded by (auto simp: k1_def table_bounded_def)
    have "snd (allow fl now order key k) = k1\<lparr>kl_buckets := gm_put key
        (snd (take_token fl now (kl_rate k1) (kl_burst k1) \<lparr>bk_tokens = kl_burst k, bk_last = now\<rparr>)) (kl_buckets k1)\<rparr>"
      using False None by (auto simp: allow_def k1_def Let_def split: prod.split)
    then show ?thesis
      using k1 key by (simp add: table_bounded_def gm.get_put gm.len_put)
  qed
qed

section \<open>Histories of a limiter\<close>

text \<open>
  Each call of \<open>allow\<close> is one step under the mutex, at any time, for any client and in any order
  of the iteration over the table.
\<close>

inductive limiter_step :: "(real \<Rightarrow> real) \<Rightarrow> keyedLimiter \<Rightarrow> keyedLimiter \<Rightarrow> bool" for fl where
  call: "gm_order (kl_buckets k) order \<Longrightarrow> key \<noteq> '''' \<Longrightarrow>
    limiter_step fl k (snd (allow fl now order key k))"

inductive_cases limiter_stepE: "limiter_step fl k k'"

lemma limiter_reach:
  assumes "(limiter_step fl)\<^sup>*\<^sup>* (newKeyedLimiter rate burst maxKeys) k"
    and "rounding fl" "0 \<le> rate" "0 \<le> burst" "fl burst = burst" "1 \<le> maxKeys"
  shows "limiter_ok k \<and> table_bounded k \<and> kl_rate k = rate \<and> kl_burst k = burst \<and> kl_maxKeys k = maxKeys"
  using assms(1)
proof (induction rule: rtranclp_induct)
  case base
  show ?case using assms(6)
    by (auto simp: newKeyedLimiter_def limiter_ok_def table_bounded_def go_map_simps)
next
  case (step k k')
  from step.hyps(2) obtain order key now where
    "gm_order (kl_buckets k) order" "key \<noteq> ''''" and k': "k' = snd (allow fl now order key k)"
    by (rule limiter_stepE)
  then have "table_bounded k'" "limiter_ok k'"
    using step.IH assms allow_bounded [of k order key fl now] allow_ok [of fl k now order key]
    by (auto simp: limiter_ok_def)
  with step.IH k' show ?case by (simp add: allow_fields)
qed

section \<open>The middleware\<close>

text \<open>
  Requests run concurrently. Each call of \<open>allow\<close> is atomic (it holds the mutex), and so is each
  send on the semaphore channel; between them a request rests in a phase. \<open>mw_held\<close> is the number
  of elements in the channel; a send is possible while it is below the capacity.
\<close>

datatype phase = PerClientPassed | GlobalPassed | Waiting | Running

datatype limit_response = TooManyRequests string | ServiceUnavailable string

record mw_state =
  mw_lim :: Limiter
  mw_phase :: "nat \<rightharpoonup> phase"
  mw_held :: nat
  mw_refused :: "(nat \<times> limit_response) list"

definition limit_reject :: "limit_response" where
  "limit_reject = TooManyRequests retryAfterSeconds"

definition limit_shed :: "limit_response" where
  "limit_shed = ServiceUnavailable retryAfterSeconds"

definition enter_phase :: "nat \<Rightarrow> phase \<Rightarrow> mw_state \<Rightarrow> mw_state" where
  "enter_phase i p s = s\<lparr>mw_phase := (mw_phase s)(i \<mapsto> p)\<rparr>"

definition refuse :: "nat \<Rightarrow> limit_response \<Rightarrow> mw_state \<Rightarrow> mw_state" where
  "refuse i r s = s\<lparr>mw_phase := (mw_phase s)(i := None), mw_refused := (i, r) # mw_refused s\<rparr>"

text \<open>The first check of \<open>Middleware\<close>, on the address the connection came from.\<close>

definition mw_arrive :: "(real \<Rightarrow> real) \<Rightarrow> time \<Rightarrow> string list \<Rightarrow> nat \<Rightarrow> string \<Rightarrow> mw_state \<Rightarrow> mw_state" where
  "mw_arrive fl now order i remoteAddr s =
    (let (ok, pc) = allow fl now order (ClientIP remoteAddr) (lm_perClient (mw_lim s));
         s1 = s\<lparr>mw_lim := (mw_lim s)\<lparr>lm_perClient := pc\<rparr>\<rparr>
     in if ok then enter_phase i PerClientPassed s1 else refuse i limit_reject s1)"

text \<open>The second check, on the single key of the listener.\<close>

definition mw_global :: "(real \<Rightarrow> real) \<Rightarrow> time \<Rightarrow> string list \<Rightarrow> nat \<Rightarrow> mw_state \<Rightarrow> mw_state" where
  "mw_global fl now order i s =
    (let (ok, gl) = allow fl now order '''' (lm_global (mw_lim s));
         s1 = s\<lparr>mw_lim := (mw_lim s)\<lparr>lm_global := gl\<rparr>\<rparr>
     in if ok then enter_phase i GlobalPassed s1 else refuse i limit_reject s1)"

text \<open>The fast path of \<open>acquire\<close>: a slot if one is free, else the request waits.\<close>

definition acquire_fast :: "nat \<Rightarrow> mw_state \<Rightarrow> mw_state" where
  "acquire_fast i s =
    (case lm_sem (mw_lim s) of
       None \<Rightarrow> enter_phase i Running s
     | Some c \<Rightarrow>
        if mw_held s < c then enter_phase i Running (s\<lparr>mw_held := Suc (mw_held s)\<rparr>)
        else enter_phase i Waiting s)"

text \<open>The deferred \<open>release\<close>, after the handler has returned or panicked.\<close>

definition mw_release :: "nat \<Rightarrow> mw_state \<Rightarrow> mw_state" where
  "mw_release i s =
    (let s1 = s\<lparr>mw_phase := (mw_phase s)(i := None)\<rparr>
     in case lm_sem (mw_lim s) of None \<Rightarrow> s1 | Some _ \<Rightarrow> s1\<lparr>mw_held := mw_held s - 1\<rparr>)"

inductive mw_step :: "(real \<Rightarrow> real) \<Rightarrow> mw_state \<Rightarrow> mw_state \<Rightarrow> bool" for fl where
  arrive: "mw_phase s i = None \<Longrightarrow> gm_order (kl_buckets (lm_perClient (mw_lim s))) order \<Longrightarrow>
    ClientIP remoteAddr \<noteq> '''' \<Longrightarrow> mw_step fl s (mw_arrive fl now order i remoteAddr s)"
| global: "mw_phase s i = Some PerClientPassed \<Longrightarrow> gm_order (kl_buckets (lm_global (mw_lim s))) order \<Longrightarrow>
    mw_step fl s (mw_global fl now order i s)"
| fast: "mw_phase s i = Some GlobalPassed \<Longrightarrow> mw_step fl s (acquire_fast i s)"
| slot: "mw_phase s i = Some Waiting \<Longrightarrow> lm_sem (mw_lim s) = Some c \<Longrightarrow> mw_held s < c \<Longrightarrow>
    mw_step fl s (enter_phase i Running (s\<lparr>mw_held := Suc (mw_held s)\<rparr>))"
| shed: "mw_phase s i = Some Waiting \<Longrightarrow> mw_step fl s (refuse i limit_shed s)"
| release: "mw_phase s i = Some Running \<Longrightarrow> mw_step fl s (mw_release i s)"

definition mw_init :: "limits_Config \<Rightarrow> mw_state" where
  "mw_init cfg = \<lparr>mw_lim = limits_New cfg, mw_phase = Map.empty, mw_held = 0, mw_refused = []\<rparr>"

definition running :: "mw_state \<Rightarrow> nat set" where
  "running s = {i. mw_phase s i = Some Running}"

text \<open>The invariant of the semaphore: one element in the channel for each running request.\<close>

definition sem_ok :: "mw_state \<Rightarrow> bool" where
  "sem_ok s = (finite (running s) \<and>
    (case lm_sem (mw_lim s) of None \<Rightarrow> True | Some c \<Rightarrow> card (running s) = mw_held s \<and> mw_held s \<le> c))"

lemma running_enter:
  "running (enter_phase i p s) = (if p = Running then insert i (running s) else running s - {i})"
  by (auto simp: running_def enter_phase_def)

lemma running_refuse: "running (refuse i r s) = running s - {i}"
  by (auto simp: running_def refuse_def)

lemma running_release: "running (mw_release i s) = running s - {i}"
  by (cases "lm_sem (mw_lim s)") (auto simp: running_def mw_release_def)

lemma running_more [simp]:
  "running (s\<lparr>mw_lim := l\<rparr>) = running s" "running (s\<lparr>mw_held := h\<rparr>) = running s"
  by (simp_all add: running_def)

lemma not_running: "mw_phase s i \<noteq> Some Running \<Longrightarrow> running s - {i} = running s"
  by (auto simp: running_def)

lemma phase_fields [simp]:
  "mw_lim (enter_phase i p s) = mw_lim s" "mw_held (enter_phase i p s) = mw_held s"
  "mw_lim (refuse i r s) = mw_lim s" "mw_held (refuse i r s) = mw_held s"
  by (simp_all add: enter_phase_def refuse_def)

lemma mw_checks_sem:
  "lm_sem (mw_lim (mw_arrive fl now order i remoteAddr s)) = lm_sem (mw_lim s)"
  "lm_sem (mw_lim (mw_global fl now order i s)) = lm_sem (mw_lim s)"
  "mw_held (mw_arrive fl now order i remoteAddr s) = mw_held s"
  "mw_held (mw_global fl now order i s) = mw_held s"
  by (auto simp: mw_arrive_def mw_global_def Let_def split: prod.split)

lemma mw_checks_running:
  "mw_phase s i \<noteq> Some Running \<Longrightarrow> running (mw_arrive fl now order i remoteAddr s) = running s"
  "mw_phase s i \<noteq> Some Running \<Longrightarrow> running (mw_global fl now order i s) = running s"
  by (auto simp: mw_arrive_def mw_global_def Let_def running_enter running_refuse not_running
      simp del: not_running split: prod.split dest: not_running)

lemma release_fields:
  "mw_lim (mw_release i s) = mw_lim s"
  "lm_sem (mw_lim s) = Some c \<Longrightarrow> mw_held (mw_release i s) = mw_held s - 1"
  by (cases "lm_sem (mw_lim s)"; simp add: mw_release_def)+

lemma sem_ok_start:
  assumes "sem_ok s" "mw_phase s i \<noteq> Some Running" "lm_sem (mw_lim s) = Some c" "mw_held s < c"
  shows "sem_ok (enter_phase i Running (s\<lparr>mw_held := Suc (mw_held s)\<rparr>))"
proof -
  have "i \<notin> running s" using assms(2) by (simp add: running_def)
  with assms show ?thesis by (auto simp: sem_ok_def running_enter)
qed

lemma sem_ok_same:
  "sem_ok s \<Longrightarrow> running s' = running s \<Longrightarrow> lm_sem (mw_lim s') = lm_sem (mw_lim s) \<Longrightarrow>
    mw_held s' = mw_held s \<Longrightarrow> sem_ok s'"
  unfolding sem_ok_def by (simp split: option.splits)

lemma mw_step_sem:
  assumes "mw_step fl s s'" "sem_ok s"
  shows "sem_ok s' \<and> lm_sem (mw_lim s') = lm_sem (mw_lim s)"
  using assms
proof cases
  case (arrive i order remoteAddr now)
  with assms(2) show ?thesis
    using sem_ok_same [of s s'] by (simp add: mw_checks_sem mw_checks_running)
next
  case (global i order now)
  with assms(2) show ?thesis
    using sem_ok_same [of s s'] by (simp add: mw_checks_sem mw_checks_running)
next
  case (fast i)
  then have "running s - {i} = running s" by (simp add: not_running)
  with fast assms(2) show ?thesis
    by (cases "lm_sem (mw_lim s)") (simp_all add: acquire_fast_def sem_ok_start,
      simp_all add: sem_ok_def running_enter)
next
  case (slot i c)
  with assms(2) sem_ok_start [of s i c] show ?thesis by simp
next
  case (shed i)
  with assms(2) show ?thesis
    using sem_ok_same [of s s'] by (simp add: running_refuse not_running)
next
  case (release i)
  then have "i \<in> running s" by (simp add: running_def)
  with release assms(2) show ?thesis
    by (cases "lm_sem (mw_lim s)")
      (auto simp: sem_ok_def running_release release_fields card_Diff_singleton)
qed

lemma mw_reach_sem:
  assumes "(mw_step fl)\<^sup>*\<^sup>* (mw_init cfg) s"
  shows "sem_ok s \<and> lm_sem (mw_lim s) = lm_sem (limits_New cfg)"
  using assms
proof (induction rule: rtranclp_induct)
  case base
  show ?case by (simp add: mw_init_def sem_ok_def running_def split: option.split)
next
  case (step s s')
  then show ?case using mw_step_sem by metis
qed

text \<open>The tables under the middleware are histories of \<open>allow\<close>.\<close>

lemma mw_step_perClient:
  assumes "mw_step fl s s'"
  shows "(limiter_step fl)\<^sup>*\<^sup>* (lm_perClient (mw_lim s)) (lm_perClient (mw_lim s'))"
  using assms
proof cases
  case (arrive i order remoteAddr now)
  then have "lm_perClient (mw_lim s') = snd (allow fl now order (ClientIP remoteAddr) (lm_perClient (mw_lim s)))"
    by (simp add: mw_arrive_def Let_def split_def)
  with arrive limiter_step.call show ?thesis by (metis r_into_rtranclp)
next
  case (release i)
  then show ?thesis by (simp add: release_fields)
qed (auto simp: mw_global_def acquire_fast_def Let_def split_def split: option.split)

lemma mw_reach_perClient:
  assumes "(mw_step fl)\<^sup>*\<^sup>* (mw_init cfg) s"
  shows "(limiter_step fl)\<^sup>*\<^sup>* (lm_perClient (limits_New cfg)) (lm_perClient (mw_lim s))"
  using assms
proof (induction rule: rtranclp_induct)
  case base
  show ?case by (simp add: mw_init_def)
next
  case (step s s')
  then show ?case using mw_step_perClient by (metis rtranclp_trans)
qed

section \<open>Requests on one key\<close>

text \<open>The calls of \<open>allow\<close> for one key at the given times: the number granted, and the limiter.\<close>

fun allow_run :: "(real \<Rightarrow> real) \<Rightarrow> string \<Rightarrow> (time \<times> string list) list \<Rightarrow> keyedLimiter \<Rightarrow> nat \<times> keyedLimiter" where
  "allow_run fl key [] k = (0, k)"
| "allow_run fl key (c # cs) k =
    (let r = allow fl (fst c) (snd c) key k; rest = allow_run fl key cs (snd r)
     in ((if fst r then 1 else 0) + fst rest, snd rest))"

lemma allow_present:
  assumes "\<not> kl_disabled k" "gm_get (kl_buckets k) key = Some b"
  shows "allow fl now order key k =
    (fst (take_token fl now (kl_rate k) (kl_burst k) b),
     k\<lparr>kl_buckets := gm_put key (snd (take_token fl now (kl_rate k) (kl_burst k) b)) (kl_buckets k)\<rparr>)"
  using assms by (simp add: allow_def split_def Let_def)

lemma allow_run_bucket:
  assumes "\<not> kl_disabled k" "gm_ok (kl_buckets k)" "gm_get (kl_buckets k) key = Some b"
  shows "fst (allow_run fl key cs k) = fst (take_run fl (kl_rate k) (kl_burst k) (map fst cs) b) \<and>
    gm_get (kl_buckets (snd (allow_run fl key cs k))) key
      = Some (snd (take_run fl (kl_rate k) (kl_burst k) (map fst cs) b))"
  using assms
proof (induction cs arbitrary: k b)
  case (Cons c cs)
  define b1 where "b1 = snd (take_token fl (fst c) (kl_rate k) (kl_burst k) b)"
  define k1 where "k1 = k\<lparr>kl_buckets := gm_put key b1 (kl_buckets k)\<rparr>"
  have step: "allow fl (fst c) (snd c) key k = (fst (take_token fl (fst c) (kl_rate k) (kl_burst k) b), k1)"
    using Cons.prems by (simp add: allow_present k1_def b1_def)
  have "\<not> kl_disabled k1" "gm_ok (kl_buckets k1)" "gm_get (kl_buckets k1) key = Some b1"
    "kl_rate k1 = kl_rate k" "kl_burst k1 = kl_burst k"
    using Cons.prems by (simp_all add: k1_def gm.ok_put gm.get_put)
  with Cons.IH [of k1 b1] show ?case by (simp add: step Let_def b1_def)
qed simp

text \<open>The first request of a key starts from a full bucket.\<close>

lemma allow_fresh:
  assumes "\<not> kl_disabled k" "gm_get (kl_buckets k) key = None" "int (gm_len (kl_buckets k)) < kl_maxKeys k"
  shows "allow fl now order key k =
    allow fl now order key (k\<lparr>kl_buckets := gm_put key \<lparr>bk_tokens = kl_burst k, bk_last = now\<rparr> (kl_buckets k)\<rparr>)"
proof -
  have put_put: "gm_put key v (gm_put key w m) = gm_put key v m" for v w and m :: "(string, bucket) gomap"
    unfolding gm_put_def by (induction m) auto
  have get: "gm_get (gm_put key w m) key = Some w" for w and m :: "(string, bucket) gomap"
    by (simp add: gm_get_def gm_put_def update_conv')
  show ?thesis using assms by (simp add: allow_def split_def Let_def put_put get)
qed

end
