(* ===== verification/Bao_Client.thy ===== *)
theory Bao_Client
  imports Bao_Types
begin

text \<open>
  The OpenBao client, \<open>src/internal/bao/client.go\<close> and \<open>pki.go\<close>: AppRole login, token renewal,
  the retry loop with its backoff, and the three PKI calls. Its functions make up the enroller
  \<open>bao_enroller\<close> that the protocol handlers call.

  The network is a list of replies, one for each request sent; the requests sent are logged. JSON is
  a record of functions. One reading of the clock serves a whole call, and a call says after which
  attempts its context was found cancelled and which URLs no request can be built for.
  \<open>Bao_Concurrent\<close> interleaves the token handling of concurrent calls.
\<close>

section \<open>Configuration\<close>

record bao_Config =
  bcfg_Address :: string
  bcfg_PKIMount :: string
  bcfg_CACertPEM :: string
  bcfg_AppRoleMount :: string
  bcfg_RoleID :: string
  bcfg_SecretID :: string
  bcfg_RenewThreshold :: duration
  bcfg_MaxRetries :: int

datatype reply = NetErr string | ReadErr string | Reply nat string

record baoRequest =
  brq_Method :: string
  brq_URL :: string
  brq_Payload :: "string option"
  brq_Token :: string

record baoClient =
  bc_cfg :: bao_Config
  bc_token :: string
  bc_tokenExpiry :: time
  bc_renewable :: bool
  bc_net :: "reply list"
  bc_sent :: "baoRequest list"

definition bao_New :: "(string \<Rightarrow> bool) \<Rightarrow> reply list \<Rightarrow> bao_Config \<Rightarrow> (string, baoClient) result" where
  "bao_New validPEM net cfg =
    (if bcfg_Address cfg = '''' then Err ''bao: address is required''
     else if bcfg_PKIMount cfg = '''' then Err ''bao: PKI mount is required''
     else if bcfg_RoleID cfg = '''' \<or> bcfg_SecretID cfg = '''' then Err ''bao: AppRole role_id and secret_id are required''
     else if bcfg_CACertPEM cfg \<noteq> [] \<and> \<not> validPEM (bcfg_CACertPEM cfg) then Err ''bao: no valid certificates in CACertPEM''
     else Ok
       \<lparr>bc_cfg = cfg\<lparr>bcfg_AppRoleMount := (if bcfg_AppRoleMount cfg = '''' then ''approle'' else bcfg_AppRoleMount cfg),
          bcfg_RenewThreshold := (if bcfg_RenewThreshold cfg \<le> 0 then 5 * minute else bcfg_RenewThreshold cfg),
          bcfg_MaxRetries := (if bcfg_MaxRetries cfg < 0 then 0 else bcfg_MaxRetries cfg)\<rparr>,
        bc_token = '''', bc_tokenExpiry = - 62135596800000000000, bc_renewable = False, bc_net = net, bc_sent = []\<rparr>)"

section \<open>Requests with retries\<close>

record authData =
  au_ClientToken :: string
  au_LeaseDuration :: int
  au_Renewable :: bool

record jsonlib =
  js_marshal :: "(string, jsonVal) gomap \<Rightarrow> (string, string) result"
  js_auth :: "string \<Rightarrow> (string, authData option) result"
  js_pki :: "string \<Rightarrow> (string, CertBundle) result"
  js_errors :: "string \<Rightarrow> string list option"

record bao_env =
  be_now :: time
  be_cancelled :: "nat \<Rightarrow> bool"
  be_buildErr :: "string \<Rightarrow> string option"

datatype bao_error =
    BaoText string | NetFailure string string string | ReadFailure string | TooLarge string string
  | APIError string string nat "string list" | Cancelled | BuildFailure string | MarshalFailure string | DecodeFailure string
  | LoginFailure bao_error

datatype 'a bao_result = BaoOk 'a | BaoErr bao_error | BaoPanic

definition maxResponseBytes :: nat where "maxResponseBytes = 8388608"

definition trimLeft :: "char \<Rightarrow> string \<Rightarrow> string" where "trimLeft c s = dropWhile (\<lambda>x. x = c) s"
definition trimRight :: "char \<Rightarrow> string \<Rightarrow> string" where "trimRight c s = rev (dropWhile (\<lambda>x. x = c) (rev s))"

definition apiError :: "jsonlib \<Rightarrow> string \<Rightarrow> string \<Rightarrow> nat \<Rightarrow> string \<Rightarrow> bao_error" where
  "apiError J method path status body =
    (case js_errors J body of
       Some errs \<Rightarrow> if errs \<noteq> [] then APIError method path status errs
                   else APIError method path status (if body \<noteq> [] then [trimSpace body] else [])
     | None \<Rightarrow> APIError method path status (if body \<noteq> [] then [trimSpace body] else []))"

text \<open>The messages, given what \<open>ctx.Err()\<close> says; \<open>APIError.Error\<close> is the fifth.\<close>

definition APIError_Error :: "string \<Rightarrow> string \<Rightarrow> nat \<Rightarrow> string list \<Rightarrow> string" where
  "APIError_Error method path status errs =
    (let joined = concat (case errs of [] \<Rightarrow> [] | e # es \<Rightarrow> e # map (\<lambda>x. ''; '' @ x) es);
         msg = (if joined = '''' then ''(no error detail)'' else joined)
     in ''bao: '' @ method @ '' '' @ path @ '' -> '' @ natString status @ '': '' @ msg)"

primrec errorText :: "string \<Rightarrow> bao_error \<Rightarrow> string" where
  "errorText ctxErr (BaoText s) = s"
| "errorText ctxErr (NetFailure method path err) = ''bao: '' @ method @ '' '' @ path @ '': '' @ err"
| "errorText ctxErr (ReadFailure err) = ''bao: read response: '' @ err"
| "errorText ctxErr (TooLarge method path) =
     ''bao: '' @ method @ '' '' @ path @ '': response exceeds '' @ natString maxResponseBytes @ '' bytes''"
| "errorText ctxErr (APIError method path status errs) = APIError_Error method path status errs"
| "errorText ctxErr Cancelled = ctxErr"
| "errorText ctxErr (BuildFailure err) = ''bao: build request: '' @ err"
| "errorText ctxErr (MarshalFailure err) = ''bao: marshal request: '' @ err"
| "errorText ctxErr (DecodeFailure err) = ''bao: decode response: '' @ err"
| "errorText ctxErr (LoginFailure e) = ''bao: approle login: '' @ errorText ctxErr e"

text \<open>
  \<open>backoff\<close>: the shift and the product wrap around in 64 bits, and \<open>rand.Int63n\<close> panics
  when its bound is not positive. The result is the least and the greatest delay, or none for a panic.
\<close>

definition shl64 :: "nat \<Rightarrow> int" where "shl64 k = wrap64 (if k < 64 then 2 ^ k else 0)"

definition backoffBase :: "nat \<Rightarrow> duration" where
  "backoffBase attempt =
    (let base = wrap64 (100000000 * shl64 (attempt - 1)) in if base > 5 * second then 5 * second else base)"

definition halfTrunc :: "int \<Rightarrow> int" where
  "halfTrunc x = (if x < 0 then - ((- x) div 2) else x div 2)"

definition backoff :: "nat \<Rightarrow> (duration \<times> duration) option" where
  "backoff attempt =
    (let base = backoffBase attempt; n = halfTrunc base + 1
     in if n \<le> 0 then None else Some (base, base + (n - 1)))"

definition nextReply :: "baoRequest \<Rightarrow> baoClient \<Rightarrow> reply \<times> baoClient" where
  "nextReply rq c =
    (case bc_net c of
       [] \<Rightarrow> (NetErr ''no reply'', c\<lparr>bc_sent := bc_sent c @ [rq]\<rparr>)
     | r # rs \<Rightarrow> (r, c\<lparr>bc_net := rs, bc_sent := bc_sent c @ [rq]\<rparr>))"

text \<open>
  The loop of \<open>doRequest\<close> from an attempt on, with the number of attempts that may follow it. A
  reply ends the loop, or leaves an error and is retried.
\<close>

definition onReply :: "jsonlib \<Rightarrow> string \<Rightarrow> string \<Rightarrow> reply \<Rightarrow> string bao_result + bao_error" where
  "onReply J method path r =
    (case r of
       NetErr e \<Rightarrow> Inr (NetFailure method path e)
     | ReadErr e \<Rightarrow> Inr (ReadFailure e)
     | Reply status body \<Rightarrow>
        if length body > maxResponseBytes then Inl (BaoErr (TooLarge method path))
        else if status \<ge> 500 then Inr (apiError J method path status body)
        else if status \<ge> 400 then Inl (BaoErr (apiError J method path status body))
        else Inl (BaoOk body))"

fun requestLoop :: "jsonlib \<Rightarrow> bao_env \<Rightarrow> string \<Rightarrow> baoRequest \<Rightarrow> nat \<Rightarrow> nat \<Rightarrow> baoClient \<Rightarrow> string bao_result \<times> baoClient" where
  "requestLoop J E path rq retries attempt c =
    (if attempt > 0 \<and> backoff attempt = None then (BaoPanic, c)
     else if attempt > 0 \<and> be_cancelled E attempt then (BaoErr Cancelled, c)
     else
       (case be_buildErr E (brq_URL rq) of
          Some err \<Rightarrow> (BaoErr (BuildFailure err), c)
        | None \<Rightarrow>
           (let (r, c1) = nextReply rq c in
            case onReply J (brq_Method rq) path r of
              Inl res \<Rightarrow> (res, c1)
            | Inr lastErr \<Rightarrow>
               (case retries of 0 \<Rightarrow> (BaoErr lastErr, c1) | Suc m \<Rightarrow> requestLoop J E path rq m (Suc attempt) c1))))"

declare requestLoop.simps [simp del]

definition doRequest :: "jsonlib \<Rightarrow> bao_env \<Rightarrow> string \<Rightarrow> string \<Rightarrow> string option \<Rightarrow> string \<Rightarrow> baoClient
   \<Rightarrow> string bao_result \<times> baoClient" where
  "doRequest J E method path payload token c =
    (let url = trimRight (CHR ''/'') (bcfg_Address (bc_cfg c)) @ ''/'' @ trimLeft (CHR ''/'') path
     in requestLoop J E path \<lparr>brq_Method = method, brq_URL = url, brq_Payload = payload, brq_Token = token\<rparr>
          (nat (bcfg_MaxRetries (bc_cfg c))) 0 c)"

text \<open>\<open>doRaw\<close>: the body is marshalled, the reply decoded into the given type unless it is empty.\<close>

definition doRaw :: "jsonlib \<Rightarrow> bao_env \<Rightarrow> string \<Rightarrow> string \<Rightarrow> (string, jsonVal) gomap option \<Rightarrow> string
   \<Rightarrow> (string \<Rightarrow> (string, 'o) result) \<Rightarrow> 'o \<Rightarrow> baoClient \<Rightarrow> 'o bao_result \<times> baoClient" where
  "doRaw J E method path body token decode zero c =
    (case (case body of None \<Rightarrow> Ok None | Some m \<Rightarrow> (case js_marshal J m of Inl e \<Rightarrow> Err e | Inr p \<Rightarrow> Ok (Some p))) of
       Inl err \<Rightarrow> (BaoErr (MarshalFailure err), c)
     | Inr payload \<Rightarrow>
        (case doRequest J E method path payload token c of
           (BaoOk respBody, c1) \<Rightarrow>
             (if respBody = [] then (BaoOk zero, c1)
              else (case decode respBody of Inl err \<Rightarrow> (BaoErr (DecodeFailure err), c1) | Inr out \<Rightarrow> (BaoOk out, c1)))
         | (BaoErr e, c1) \<Rightarrow> (BaoErr e, c1)
         | (BaoPanic, c1) \<Rightarrow> (BaoPanic, c1)))"

section \<open>Tokens\<close>

definition leaseExpiry :: "time \<Rightarrow> int \<Rightarrow> time" where
  "leaseExpiry now seconds =
    (if seconds \<le> 0 then now + 100 * 365 * 24 * hour else now + wrap64 (seconds * second))"

definition Login :: "jsonlib \<Rightarrow> bao_env \<Rightarrow> baoClient \<Rightarrow> unit bao_result \<times> baoClient" where
  "Login J E c =
    (let body = [(''role_id'', JStr (bcfg_RoleID (bc_cfg c))), (''secret_id'', JStr (bcfg_SecretID (bc_cfg c)))];
         path = ''v1/auth/'' @ bcfg_AppRoleMount (bc_cfg c) @ ''/login''
     in case doRaw J E ''POST'' path (Some body) '''' (js_auth J) None c of
          (BaoErr e, c1) \<Rightarrow> (BaoErr (LoginFailure e), c1)
        | (BaoPanic, c1) \<Rightarrow> (BaoPanic, c1)
        | (BaoOk None, c1) \<Rightarrow> (BaoErr (BaoText ''bao: approle login returned no token''), c1)
        | (BaoOk (Some a), c1) \<Rightarrow>
            if au_ClientToken a = '''' then (BaoErr (BaoText ''bao: approle login returned no token''), c1)
            else (BaoOk (), c1\<lparr>bc_token := au_ClientToken a, bc_renewable := au_Renewable a,
                              bc_tokenExpiry := leaseExpiry (be_now E) (au_LeaseDuration a)\<rparr>))"

definition renewSelf :: "jsonlib \<Rightarrow> bao_env \<Rightarrow> baoClient \<Rightarrow> unit bao_result \<times> baoClient" where
  "renewSelf J E c =
    (case doRaw J E ''POST'' ''v1/auth/token/renew-self'' None (bc_token c) (js_auth J) None c of
       (BaoErr e, c1) \<Rightarrow> (BaoErr e, c1)
     | (BaoPanic, c1) \<Rightarrow> (BaoPanic, c1)
     | (BaoOk None, c1) \<Rightarrow> (BaoErr (BaoText ''bao: renew-self returned no auth''), c1)
     | (BaoOk (Some a), c1) \<Rightarrow>
         (BaoOk (), c1\<lparr>bc_renewable := au_Renewable a, bc_tokenExpiry := leaseExpiry (be_now E) (au_LeaseDuration a)\<rparr>))"

definition loginToken :: "jsonlib \<Rightarrow> bao_env \<Rightarrow> baoClient \<Rightarrow> string bao_result \<times> baoClient" where
  "loginToken J E c =
    (case Login J E c of
       (BaoErr e, c1) \<Rightarrow> (BaoErr e, c1) | (BaoPanic, c1) \<Rightarrow> (BaoPanic, c1) | (BaoOk _, c1) \<Rightarrow> (BaoOk (bc_token c1), c1))"

definition ensureToken :: "jsonlib \<Rightarrow> bao_env \<Rightarrow> baoClient \<Rightarrow> string bao_result \<times> baoClient" where
  "ensureToken J E c =
    (let tok = bc_token c; left = time_Sub (bc_tokenExpiry c) (be_now E)
     in if tok \<noteq> '''' \<and> left > bcfg_RenewThreshold (bc_cfg c) then (BaoOk tok, c)
        else if tok \<noteq> '''' \<and> bc_renewable c \<and> left > 0 then
          (case renewSelf J E c of
             (BaoOk _, c1) \<Rightarrow> (BaoOk (bc_token c1), c1)
           | (BaoErr _, c1) \<Rightarrow> loginToken J E c1
           | (BaoPanic, c1) \<Rightarrow> (BaoPanic, c1))
        else loginToken J E c)"

section \<open>PKI calls\<close>

definition joinComma :: "string list \<Rightarrow> string" where
  "joinComma s = (case s of [] \<Rightarrow> [] | v # vs \<Rightarrow> v @ concat (map (\<lambda>x. '','' @ x) vs))"

definition putIf :: "bool \<Rightarrow> string \<Rightarrow> jsonVal \<Rightarrow> (string, jsonVal) gomap \<Rightarrow> (string, jsonVal) gomap" where
  "putIf b k v m = (if b then gm_put k v m else m)"

definition applyOptions :: "SignOptions \<Rightarrow> (string, jsonVal) gomap \<Rightarrow> (string, jsonVal) gomap" where
  "applyOptions opts body =
    fold (\<lambda>(k, v). gm_put k v) (so_Extra opts)
      (putIf (so_ExcludeCNFromSANs opts) ''exclude_cn_from_sans'' (JBool True)
        (putIf (so_TTL opts \<noteq> '''') ''ttl'' (JStr (so_TTL opts))
          (putIf (so_URISANs opts \<noteq> []) ''uri_sans'' (JStr (joinComma (so_URISANs opts)))
            (putIf (so_IPSANs opts \<noteq> []) ''ip_sans'' (JStr (joinComma (so_IPSANs opts)))
              (putIf (so_AltNames opts \<noteq> []) ''alt_names'' (JStr (joinComma (so_AltNames opts)))
                (putIf (so_CommonName opts \<noteq> '''') ''common_name'' (JStr (so_CommonName opts)) body))))))"

definition emptyBundle :: CertBundle where
  "emptyBundle = \<lparr>cb_Certificate = '''', cb_IssuingCA = '''', cb_CAChain = [], cb_PrivateKey = '''', cb_SerialNumber = ''''\<rparr>"

text \<open>\<open>do\<close>: a token, then the request.\<close>

definition bao_do :: "jsonlib \<Rightarrow> bao_env \<Rightarrow> string \<Rightarrow> string \<Rightarrow> (string, jsonVal) gomap \<Rightarrow> baoClient
   \<Rightarrow> CertBundle bao_result \<times> baoClient" where
  "bao_do J E method path body c =
    (case ensureToken J E c of
       (BaoErr e, c1) \<Rightarrow> (BaoErr e, c1)
     | (BaoPanic, c1) \<Rightarrow> (BaoPanic, c1)
     | (BaoOk tok, c1) \<Rightarrow> doRaw J E method path (Some body) tok (js_pki J) emptyBundle c1)"

text \<open>\<open>escape\<close> is \<open>url.PathEscape\<close>.\<close>

definition signBody :: "string \<Rightarrow> SignOptions \<Rightarrow> (string, jsonVal) gomap" where
  "signBody csrPEM opts = applyOptions opts [(''csr'', JStr csrPEM), (''format'', JStr ''pem'')]"

definition Client_Sign :: "jsonlib \<Rightarrow> (string \<Rightarrow> string) \<Rightarrow> bao_env \<Rightarrow> string \<Rightarrow> string \<Rightarrow> SignOptions \<Rightarrow> baoClient
   \<Rightarrow> CertBundle bao_result \<times> baoClient" where
  "Client_Sign J escape E role csrPEM opts c =
    (if role = '''' then (BaoErr (BaoText ''bao: sign requires a role''), c)
     else if csrPEM = '''' then (BaoErr (BaoText ''bao: sign requires a CSR''), c)
     else
       (case bao_do J E ''POST'' (''v1/'' @ bcfg_PKIMount (bc_cfg c) @ ''/sign/'' @ escape role) (signBody csrPEM opts) c of
          (BaoOk out, c1) \<Rightarrow>
            if cb_Certificate out = '''' then (BaoErr (BaoText ''bao: sign returned no certificate''), c1) else (BaoOk out, c1)
        | other \<Rightarrow> other))"

definition issueBody :: "string \<Rightarrow> SignOptions \<Rightarrow> (string, jsonVal) gomap" where
  "issueBody commonName opts =
    putIf (so_KeyBits opts > 0) ''key_bits'' (JInt (so_KeyBits opts))
      (putIf (so_KeyType opts \<noteq> '''') ''key_type'' (JStr (so_KeyType opts))
        (applyOptions opts (putIf (commonName \<noteq> '''') ''common_name'' (JStr commonName) [(''format'', JStr ''pem'')])))"

definition Client_Issue :: "jsonlib \<Rightarrow> (string \<Rightarrow> string) \<Rightarrow> bao_env \<Rightarrow> string \<Rightarrow> string \<Rightarrow> SignOptions \<Rightarrow> baoClient
   \<Rightarrow> CertBundle bao_result \<times> baoClient" where
  "Client_Issue J escape E role commonName opts c =
    (if role = '''' then (BaoErr (BaoText ''bao: issue requires a role''), c)
     else
       (case bao_do J E ''POST'' (''v1/'' @ bcfg_PKIMount (bc_cfg c) @ ''/issue/'' @ escape role) (issueBody commonName opts) c of
          (BaoOk out, c1) \<Rightarrow>
            if cb_Certificate out = '''' then (BaoErr (BaoText ''bao: issue returned no certificate''), c1)
            else if cb_PrivateKey out = '''' then (BaoErr (BaoText ''bao: issue returned no private key''), c1)
            else (BaoOk out, c1)
        | other \<Rightarrow> other))"

text \<open>\<open>doRawBytes\<close>: the same for an endpoint that does not answer in JSON.\<close>

definition doRawBytes :: "jsonlib \<Rightarrow> bao_env \<Rightarrow> string \<Rightarrow> string \<Rightarrow> baoClient \<Rightarrow> string bao_result \<times> baoClient" where
  "doRawBytes J E method path c =
    (case ensureToken J E c of
       (BaoErr e, c1) \<Rightarrow> (BaoErr e, c1)
     | (BaoPanic, c1) \<Rightarrow> (BaoPanic, c1)
     | (BaoOk tok, c1) \<Rightarrow> doRequest J E method path None tok c1)"

definition Client_CAChain :: "jsonlib \<Rightarrow> bao_env \<Rightarrow> baoClient \<Rightarrow> string bao_result \<times> baoClient" where
  "Client_CAChain J E c =
    (case doRawBytes J E ''GET'' (''v1/'' @ bcfg_PKIMount (bc_cfg c) @ ''/ca_chain'') c of
       (BaoOk pem, c1) \<Rightarrow> if pem = [] then (BaoErr (BaoText ''bao: empty CA chain''), c1) else (BaoOk pem, c1)
     | other \<Rightarrow> other)"

section \<open>Lemmas on requests\<close>

lemma nextReply_simps [simp]:
  "bc_sent (snd (nextReply rq c)) = bc_sent c @ [rq]" "bc_cfg (snd (nextReply rq c)) = bc_cfg c"
  "bc_token (snd (nextReply rq c)) = bc_token c" "bc_renewable (snd (nextReply rq c)) = bc_renewable c"
  by (simp_all add: nextReply_def split: list.split)

text \<open>What the loop leaves alone, and the requests it sends.\<close>

lemma requestLoop_step:
  "requestLoop J E path rq retries attempt c =
    (if attempt > 0 \<and> backoff attempt = None then (BaoPanic, c)
     else if attempt > 0 \<and> be_cancelled E attempt then (BaoErr Cancelled, c)
     else case be_buildErr E (brq_URL rq) of Some err \<Rightarrow> (BaoErr (BuildFailure err), c)
     | None \<Rightarrow> case onReply J (brq_Method rq) path (fst (nextReply rq c)) of
          Inl res \<Rightarrow> (res, snd (nextReply rq c))
        | Inr lastErr \<Rightarrow>
           if retries = 0 then (BaoErr lastErr, snd (nextReply rq c))
           else requestLoop J E path rq (retries - 1) (Suc attempt) (snd (nextReply rq c)))"
  by (subst requestLoop.simps) (simp add: split_def Let_def split: sum.split nat.split option.split)

lemma requestLoop_frame:
  "bc_cfg (snd (requestLoop J E path rq retries attempt c)) = bc_cfg c \<and>
   bc_token (snd (requestLoop J E path rq retries attempt c)) = bc_token c \<and>
   (\<exists>k\<le>Suc retries. bc_sent (snd (requestLoop J E path rq retries attempt c)) = bc_sent c @ replicate k rq)"
proof (induction retries arbitrary: attempt c)
  case 0
  show ?case
    by (subst (1 2 3) requestLoop_step) (auto intro: exI [of _ 0] exI [of _ "Suc 0"] split: sum.split option.split)
next
  case (Suc m)
  define c1 where "c1 = snd (nextReply rq c)"
  have c1: "bc_cfg c1 = bc_cfg c" "bc_token c1 = bc_token c" "bc_sent c1 = bc_sent c @ [rq]" by (simp_all add: c1_def)
  obtain k where k: "k \<le> Suc m" "bc_sent (snd (requestLoop J E path rq m (Suc attempt) c1)) = bc_sent c1 @ replicate k rq"
    using Suc.IH [of "Suc attempt" c1] by blast
  have loop: "requestLoop J E path rq (Suc m) attempt c \<in>
      {requestLoop J E path rq m (Suc attempt) c1} \<union> range (\<lambda>res. (res, c)) \<union> range (\<lambda>res. (res, c1))"
    by (subst requestLoop_step) (simp add: c1_def split: sum.split option.split)
  consider "snd (requestLoop J E path rq (Suc m) attempt c) = c" | "snd (requestLoop J E path rq (Suc m) attempt c) = c1"
    | "requestLoop J E path rq (Suc m) attempt c = requestLoop J E path rq m (Suc attempt) c1"
    using loop by auto
  then show ?case
  proof cases
    case 1
    then show ?thesis by (auto intro: exI [of _ 0])
  next
    case 2
    then show ?thesis using c1 by (auto intro: exI [of _ "Suc 0"])
  next
    case 3
    then show ?thesis using Suc.IH [of "Suc attempt" c1] k c1 by (auto intro!: exI [of _ "Suc k"])
  qed
qed

lemma doRequest_frame:
  assumes "doRequest J E method path payload token c = (res, c')"
  obtains k url where "bc_cfg c' = bc_cfg c" "bc_token c' = bc_token c" "k \<le> Suc (nat (bcfg_MaxRetries (bc_cfg c)))"
    "url = trimRight (CHR ''/'') (bcfg_Address (bc_cfg c)) @ ''/'' @ trimLeft (CHR ''/'') path"
    "bc_sent c' = bc_sent c @ replicate k \<lparr>brq_Method = method, brq_URL = url, brq_Payload = payload, brq_Token = token\<rparr>"
proof -
  define url where "url = trimRight (CHR ''/'') (bcfg_Address (bc_cfg c)) @ ''/'' @ trimLeft (CHR ''/'') path"
  have "requestLoop J E path \<lparr>brq_Method = method, brq_URL = url, brq_Payload = payload, brq_Token = token\<rparr>
      (nat (bcfg_MaxRetries (bc_cfg c))) 0 c = (res, c')"
    using assms by (simp add: doRequest_def url_def)
  then show thesis
    using requestLoop_frame [of J E path "\<lparr>brq_Method = method, brq_URL = url, brq_Payload = payload, brq_Token = token\<rparr>"
        "nat (bcfg_MaxRetries (bc_cfg c))" 0 c] that url_def by auto
qed

text \<open>The requests of a call: all with the given token, and none of another kind.\<close>

definition sent_since :: "baoClient \<Rightarrow> baoClient \<Rightarrow> (baoRequest \<Rightarrow> bool) \<Rightarrow> bool" where
  "sent_since c c' P = (\<exists>new. bc_sent c' = bc_sent c @ new \<and> list_all P new)"

lemma sent_since_refl [simp]: "sent_since c c P"
  by (simp add: sent_since_def)

lemma sent_since_trans: "sent_since a b P \<Longrightarrow> sent_since b c P \<Longrightarrow> sent_since a c P"
  by (auto simp: sent_since_def)

lemma sent_since_mono: "sent_since a b P \<Longrightarrow> (\<And>rq. P rq \<Longrightarrow> Q rq) \<Longrightarrow> sent_since a b Q"
  by (auto simp: sent_since_def list_all_iff)

lemma sent_since_fields [simp]:
  "sent_since c (c'\<lparr>bc_token := t\<rparr>) P = sent_since c c' P" "sent_since c (c'\<lparr>bc_renewable := b\<rparr>) P = sent_since c c' P"
  "sent_since c (c'\<lparr>bc_tokenExpiry := e\<rparr>) P = sent_since c c' P"
  by (simp_all add: sent_since_def)

lemma doRaw_frame:
  assumes "doRaw J E method path body token decode zero c = (res, c')"
  shows "bc_cfg c' = bc_cfg c \<and> bc_token c' = bc_token c \<and>
    sent_since c c' (\<lambda>rq. brq_Token rq = token \<and>
      brq_URL rq = trimRight (CHR ''/'') (bcfg_Address (bc_cfg c)) @ ''/'' @ trimLeft (CHR ''/'') path)"
proof -
  consider "c' = c" | payload r where "doRequest J E method path payload token c = (r, c')"
    using assms by (auto simp: doRaw_def split: sum.splits option.splits prod.splits bao_result.splits if_splits)
  then show ?thesis
  proof cases
    case 1
    then show ?thesis by simp
  next
    case 2
    then show ?thesis by (rule doRequest_frame) (auto simp: sent_since_def list_all_iff)
  qed
qed

section \<open>Lemmas on tokens\<close>

definition loginURL :: "bao_Config \<Rightarrow> string" where
  "loginURL cfg = trimRight (CHR ''/'') (bcfg_Address cfg) @ ''/v1/auth/'' @ bcfg_AppRoleMount cfg @ ''/login''"

text \<open>A request without a token is a login.\<close>

definition token_or_login :: "bao_Config \<Rightarrow> baoRequest \<Rightarrow> bool" where
  "token_or_login cfg rq = (brq_Token rq \<noteq> '''' \<or> brq_URL rq = loginURL cfg)"

lemma Login_frame:
  assumes "Login J E c = (res, c')"
  shows "bc_cfg c' = bc_cfg c \<and> sent_since c c' (token_or_login (bc_cfg c)) \<and> (res = BaoOk () \<longrightarrow> bc_token c' \<noteq> '''')"
proof -
  obtain r c1 where raw: "doRaw J E ''POST'' (''v1/auth/'' @ bcfg_AppRoleMount (bc_cfg c) @ ''/login'')
      (Some [(''role_id'', JStr (bcfg_RoleID (bc_cfg c))), (''secret_id'', JStr (bcfg_SecretID (bc_cfg c)))]) ''''
      (js_auth J) None c = (r, c1)" by force
  have c1: "bc_cfg c1 = bc_cfg c" "sent_since c c1 (token_or_login (bc_cfg c))"
    using doRaw_frame [OF raw] by (auto simp: token_or_login_def loginURL_def trimLeft_def elim!: sent_since_mono)
  show ?thesis
    using assms raw c1 by (auto simp: Login_def split: bao_result.splits option.splits if_splits)
qed

lemma loginToken_frame:
  assumes "loginToken J E c = (res, c')"
  shows "bc_cfg c' = bc_cfg c \<and> sent_since c c' (token_or_login (bc_cfg c)) \<and> (\<forall>tok. res = BaoOk tok \<longrightarrow> tok \<noteq> '''')"
  using assms Login_frame [of J E c] by (auto simp: loginToken_def split: prod.splits bao_result.splits)

lemma ensureToken_frame:
  assumes "ensureToken J E c = (res, c')"
  shows "bc_cfg c' = bc_cfg c \<and> sent_since c c' (token_or_login (bc_cfg c)) \<and> (\<forall>tok. res = BaoOk tok \<longrightarrow> tok \<noteq> '''')"
proof (cases "bc_token c \<noteq> '''' \<and> time_Sub (bc_tokenExpiry c) (be_now E) \<le> bcfg_RenewThreshold (bc_cfg c)
    \<and> bc_renewable c \<and> time_Sub (bc_tokenExpiry c) (be_now E) > 0")
  case False
  then show ?thesis
    using assms loginToken_frame [of J E c res c'] by (auto simp: ensureToken_def Let_def split: if_splits)
next
  case True
  obtain r c1 where renew: "renewSelf J E c = (r, c1)" by force
  obtain q c2 where raw: "doRaw J E ''POST'' ''v1/auth/token/renew-self'' None (bc_token c) (js_auth J) None c = (q, c2)" by force
  have c2: "bc_cfg c2 = bc_cfg c" "bc_token c2 = bc_token c" "sent_since c c2 (token_or_login (bc_cfg c))"
    using doRaw_frame [OF raw] True by (auto simp: token_or_login_def elim!: sent_since_mono)
  have c1: "bc_cfg c1 = bc_cfg c" "bc_token c1 = bc_token c" "sent_since c c1 (token_or_login (bc_cfg c))"
    using renew raw c2 by (auto simp: renewSelf_def split: bao_result.splits option.splits)
  show ?thesis
  proof (cases r)
    case (BaoErr e)
    then have "loginToken J E c1 = (res, c')" using assms True renew by (auto simp: ensureToken_def Let_def)
    then show ?thesis using loginToken_frame [of J E c1 res c'] c1 sent_since_trans by fastforce
  qed (use assms True renew c1 in \<open>auto simp: ensureToken_def Let_def\<close>)
qed

lemma bao_do_frame:
  assumes "bao_do J E method path body c = (res, c')"
  shows "bc_cfg c' = bc_cfg c \<and> sent_since c c' (token_or_login (bc_cfg c))"
proof -
  obtain r c1 where tok: "ensureToken J E c = (r, c1)" by force
  note c1 = ensureToken_frame [OF tok]
  show ?thesis
  proof (cases r)
    case (BaoOk t)
    then have "doRaw J E method path (Some body) t (js_pki J) emptyBundle c1 = (res, c')" "t \<noteq> ''''"
      using assms tok c1 by (auto simp: bao_do_def)
    with doRaw_frame have "bc_cfg c' = bc_cfg c1" "sent_since c1 c' (token_or_login (bc_cfg c1))"
      by (fastforce simp: token_or_login_def elim!: sent_since_mono)+
    with c1 show ?thesis using sent_since_trans by fastforce
  qed (use assms tok c1 in \<open>auto simp: bao_do_def\<close>)
qed

end
