(* ===== verification/Bao_Properties.thy ===== *)
theory Bao_Properties
  imports Bao_Client Est_Properties
begin

text \<open>
  What the OpenBao client of \<open>src/internal/bao\<close> guarantees: bounded retries that outlast transient
  failures, tokens on every request but the login, request bodies that carry the approved
  constraints and no more, and results with a certificate.
\<close>

section \<open>Retries\<close>

lemma shl64_small: "k < 63 \<Longrightarrow> shl64 k = 2 ^ k"
proof -
  assume k: "k < 63"
  then have "(2::int) ^ k < 2 ^ 63" by (intro power_strict_increasing) simp_all
  then have "(2::int) ^ k < 9223372036854775808" by simp
  moreover have "(0::int) < 2 ^ k" by simp
  ultimately have "int64 (2 ^ k)" unfolding int64_def minInt64_def maxInt64_def by linarith
  with k show ?thesis by (simp add: shl64_def wrap64_id)
qed

lemma backoffBase_range:
  assumes "1 \<le> attempt" "attempt \<le> 37"
  shows "100000000 \<le> backoffBase attempt \<and> backoffBase attempt \<le> 5 * second"
proof -
  define p where "p = (2::int) ^ (attempt - 1)"
  have "p \<le> 2 ^ 36" unfolding p_def using assms by (intro power_increasing) simp_all
  moreover have "1 \<le> p" by (simp add: p_def)
  ultimately have "int64 (100000000 * p)" "100000000 \<le> 100000000 * p"
    by (simp_all add: int64_def minInt64_def maxInt64_def)
  then have "wrap64 (100000000 * shl64 (attempt - 1)) = 100000000 * p"
    using assms by (simp add: shl64_small p_def wrap64_id)
  then show ?thesis using \<open>100000000 \<le> 100000000 * p\<close>
    by (simp add: backoffBase_def second_def Let_def)
qed

lemma backoff_some:
  assumes "1 \<le> attempt" "attempt \<le> 37"
  shows "\<exists>lo hi. backoff attempt = Some (lo, hi) \<and> 100000000 \<le> lo \<and> lo \<le> hi \<and> hi \<le> 7500000000"
proof -
  define b where "b = backoffBase attempt"
  have b: "100000000 \<le> b" "b \<le> 5000000000" using backoffBase_range [OF assms] by (simp_all add: b_def second_def)
  then have half: "halfTrunc b = b div 2" "0 \<le> b div 2" "b div 2 \<le> 2500000000" by (simp add: halfTrunc_def, linarith+)
  then have "\<not> b div 2 + 1 \<le> 0" by linarith
  then have "backoff attempt = Some (b, b + b div 2)" by (simp add: backoff_def Let_def b_def [symmetric] half(1))
  moreover have "b \<le> b + b div 2" "b + b div 2 \<le> 7500000000" using b half by linarith+
  ultimately show ?thesis using b(1) by blast
qed

text \<open>
  The delay before attempts 1 to 37 lies between 100 milliseconds and 7.5 seconds. At attempt 38 the
  product overflows 64 bits and becomes negative, and the random jitter panics.\<close>

theorem backoff_delay:
  "(\<forall>attempt\<in>{1..37}. \<exists>lo hi. backoff attempt = Some (lo, hi) \<and> 100000000 \<le> lo \<and> lo \<le> hi \<and> hi \<le> 7500000000) \<and>
   backoff 38 = None"
proof
  show "backoff 38 = None" by code_simp
qed (use backoff_some in auto)

theorem backoff_delay_witness: "\<exists>lo hi. backoff 37 = Some (lo, hi) \<and> hi \<le> 7500000000"
  using backoff_delay by fastforce

definition transient :: "jsonlib \<Rightarrow> string \<Rightarrow> string \<Rightarrow> reply \<Rightarrow> bool" where
  "transient J method path r = (case onReply J method path r of Inl _ \<Rightarrow> False | Inr _ \<Rightarrow> True)"

lemma requestLoop_outlasts:
  assumes "\<forall>r\<in>set fails. transient J (brq_Method rq) path r" "length fails \<le> retries"
    and "onReply J (brq_Method rq) path good = Inl (BaoOk body)" "attempt + length fails \<le> 37"
    and "\<forall>i. \<not> be_cancelled E i" "bc_net c = fails @ good # rest" "be_buildErr E (brq_URL rq) = None"
  shows "fst (requestLoop J E path rq retries attempt c) = BaoOk body \<and>
    bc_sent (snd (requestLoop J E path rq retries attempt c)) = bc_sent c @ replicate (Suc (length fails)) rq"
  using assms
proof (induction fails arbitrary: retries attempt c)
  case Nil
  have "attempt > 0 \<Longrightarrow> backoff attempt \<noteq> None" using Nil.prems(4) backoff_some [of attempt] by fastforce
  with Nil show ?case by (subst (1 2) requestLoop_step) (auto simp: nextReply_def)
next
  case (Cons f fs)
  have pos: "attempt > 0 \<Longrightarrow> backoff attempt \<noteq> None" using Cons.prems(4) backoff_some [of attempt] by fastforce
  define c1 where "c1 = c\<lparr>bc_net := fs @ good # rest, bc_sent := bc_sent c @ [rq]\<rparr>"
  have next_: "nextReply rq c = (f, c1)" using Cons.prems(6) by (simp add: nextReply_def c1_def)
  obtain e where e: "onReply J (brq_Method rq) path f = Inr e"
    using Cons.prems(1) by (auto simp: transient_def split: sum.splits)
  have step: "requestLoop J E path rq retries attempt c = requestLoop J E path rq (retries - 1) (Suc attempt) c1"
    using pos Cons.prems(2,5,7) by (subst requestLoop_step) (auto simp: next_ e)
  have "fst (requestLoop J E path rq (retries - 1) (Suc attempt) c1) = BaoOk body \<and>
    bc_sent (snd (requestLoop J E path rq (retries - 1) (Suc attempt) c1)) = bc_sent c1 @ replicate (Suc (length fs)) rq"
    using Cons.prems by (intro Cons.IH) (auto simp: c1_def)
  then show ?case by (simp add: step c1_def)
qed

text \<open>
  (C28) A request outlasts transient failures: while its context is not cancelled and the request can be built, after up
  to MaxRetries, and at most 37, network errors and server errors the first good reply is the result, and one
  request was sent for each reply.\<close>

theorem request_outlasts_failures:
  assumes "bc_net c = fails @ Reply status body # rest" and "\<forall>r\<in>set fails. transient J method path r"
    and "int (length fails) \<le> bcfg_MaxRetries (bc_cfg c)" and "length fails \<le> 37"
    and "status < 400" and "length body \<le> maxResponseBytes" and "\<forall>i. \<not> be_cancelled E i"
    and "\<forall>url. be_buildErr E url = None" and "doRequest J E method path payload token c = (res, c')"
  shows "res = BaoOk body \<and> length (bc_sent c') = length (bc_sent c) + length fails + 1"
proof -
  define rq where "rq = \<lparr>brq_Method = method, brq_URL = trimRight (CHR ''/'') (bcfg_Address (bc_cfg c)) @ ''/'' @ trimLeft (CHR ''/'') path,
     brq_Payload = payload, brq_Token = token\<rparr>"
  have "fst (requestLoop J E path rq (nat (bcfg_MaxRetries (bc_cfg c))) 0 c) = BaoOk body \<and>
    bc_sent (snd (requestLoop J E path rq (nat (bcfg_MaxRetries (bc_cfg c))) 0 c)) = bc_sent c @ replicate (Suc (length fails)) rq"
    using assms by (intro requestLoop_outlasts) (auto simp: rq_def onReply_def)
  moreover have "requestLoop J E path rq (nat (bcfg_MaxRetries (bc_cfg c))) 0 c = (res, c')"
    using assms(9) by (simp add: doRequest_def rq_def)
  ultimately show ?thesis by simp
qed

definition ex_json :: jsonlib where
  "ex_json = \<lparr>js_marshal = (\<lambda>m. Ok ''{}''), js_auth = (\<lambda>s. Ok (Some \<lparr>au_ClientToken = ''tok'', au_LeaseDuration = 60, au_Renewable = True\<rparr>)),
     js_pki = (\<lambda>s. Ok (emptyBundle\<lparr>cb_Certificate := s, cb_PrivateKey := s\<rparr>)), js_errors = (\<lambda>s. None)\<rparr>"

definition ex_env :: bao_env where "ex_env = \<lparr>be_now = 0, be_cancelled = (\<lambda>_. False), be_buildErr = (\<lambda>_. None)\<rparr>"

definition ex_client :: "reply list \<Rightarrow> baoClient" where
  "ex_client net = \<lparr>bc_cfg = \<lparr>bcfg_Address = ''https://bao'', bcfg_PKIMount = ''pki'', bcfg_CACertPEM = '''',
       bcfg_AppRoleMount = ''approle'', bcfg_RoleID = ''r'', bcfg_SecretID = ''s'', bcfg_RenewThreshold = 300000000000,
       bcfg_MaxRetries = 3\<rparr>,
     bc_token = '''', bc_tokenExpiry = 0, bc_renewable = False, bc_net = net, bc_sent = []\<rparr>"

theorem request_outlasts_failures_witness:
  "fst (doRequest ex_json ex_env ''GET'' ''v1/x'' None ''tok'' (ex_client [NetErr ''reset'', Reply 503 '''', Reply 200 ''pem''])) = BaoOk ''pem''"
proof -
  let ?c = "ex_client [NetErr ''reset'', Reply 503 '''', Reply 200 ''pem'']"
  have "bc_net ?c = [NetErr ''reset'', Reply 503 ''''] @ Reply 200 ''pem'' # []" by (simp add: ex_client_def)
  moreover have "\<forall>r\<in>set [NetErr ''reset'', Reply 503 '''']. transient ex_json ''GET'' ''v1/x'' r" by code_simp
  moreover have "\<forall>i. \<not> be_cancelled ex_env i" "\<forall>url. be_buildErr ex_env url = None" "length ''pem'' \<le> maxResponseBytes"
    by (simp_all add: ex_env_def maxResponseBytes_def)
  ultimately show ?thesis
    using request_outlasts_failures [of ?c _ 200 "''pem''" "[]" ex_json "''GET''" "''v1/x''" ex_env None "''tok''",
        OF _ _ _ _ _ _ _ _ prod.collapse [symmetric]]
    by (simp add: ex_client_def)
qed

text \<open>
  A request is sent at most MaxRetries + 1 times, always with the token it was given; a client error
  (4xx) ends it at once with the error of that reply.\<close>

theorem request_is_bounded:
  assumes "doRequest J E method path payload token c = (res, c')"
  shows "(\<exists>new. bc_sent c' = bc_sent c @ new \<and> length new \<le> nat (bcfg_MaxRetries (bc_cfg c)) + 1 \<and>
      (\<forall>rq\<in>set new. brq_Token rq = token \<and> brq_Method rq = method)) \<and>
    (\<forall>status body rest. bc_net c = Reply status body # rest \<and> 400 \<le> status \<and> status < 500 \<and> length body \<le> maxResponseBytes \<and>
        (\<forall>url. be_buildErr E url = None) \<longrightarrow>
      res = BaoErr (apiError J method path status body) \<and> length (bc_sent c') = length (bc_sent c) + 1)"
proof (intro conjI allI impI)
  show "\<exists>new. bc_sent c' = bc_sent c @ new \<and> length new \<le> nat (bcfg_MaxRetries (bc_cfg c)) + 1 \<and>
      (\<forall>rq\<in>set new. brq_Token rq = token \<and> brq_Method rq = method)"
    using assms by (rule doRequest_frame) fastforce
next
  fix status body rest
  assume r: "bc_net c = Reply status body # rest \<and> 400 \<le> status \<and> status < 500 \<and> length body \<le> maxResponseBytes \<and>
    (\<forall>url. be_buildErr E url = None)"
  define rq where "rq = \<lparr>brq_Method = method, brq_URL = trimRight (CHR ''/'') (bcfg_Address (bc_cfg c)) @ ''/'' @ trimLeft (CHR ''/'') path,
     brq_Payload = payload, brq_Token = token\<rparr>"
  have "requestLoop J E path rq (nat (bcfg_MaxRetries (bc_cfg c))) 0 c = (res, c')"
    using assms by (simp add: doRequest_def rq_def)
  moreover have "requestLoop J E path rq (nat (bcfg_MaxRetries (bc_cfg c))) 0 c =
      (BaoErr (apiError J method path status body), c\<lparr>bc_net := rest, bc_sent := bc_sent c @ [rq]\<rparr>)"
    using r by (subst requestLoop_step) (simp add: nextReply_def onReply_def rq_def)
  ultimately show "res = BaoErr (apiError J method path status body)" "length (bc_sent c') = length (bc_sent c) + 1"
    by auto
qed

theorem request_is_bounded_witness:
  "fst (doRequest ex_json ex_env ''GET'' ''v1/x'' None ''tok'' (ex_client [Reply 403 ''denied'', Reply 200 ''pem''])) =
    BaoErr (apiError ex_json ''GET'' ''v1/x'' 403 ''denied'')"
  using request_is_bounded [OF prod.collapse [symmetric],
      of ex_json ex_env "''GET''" "''v1/x''" None "''tok''" "ex_client [Reply 403 ''denied'', Reply 200 ''pem'']"]
  by (simp add: ex_client_def ex_env_def maxResponseBytes_def)

section \<open>Tokens\<close>

lemma Client_Sign_frame:
  assumes "Client_Sign J escape E role csrPEM opts c = (res, c')"
  shows "sent_since c c' (token_or_login (bc_cfg c)) \<and>
    (\<forall>out. res = BaoOk out \<longrightarrow> role \<noteq> '''' \<and> csrPEM \<noteq> '''' \<and> cb_Certificate out \<noteq> '''')"
proof -
  obtain r c1 where run: "bao_do J E ''POST'' (''v1/'' @ bcfg_PKIMount (bc_cfg c) @ ''/sign/'' @ escape role) (signBody csrPEM opts) c = (r, c1)"
    by force
  show ?thesis using assms run bao_do_frame [OF run] by (cases r) (auto simp: Client_Sign_def split: if_splits)
qed

lemma Client_Issue_frame:
  assumes "Client_Issue J escape E role cn opts c = (res, c')"
  shows "sent_since c c' (token_or_login (bc_cfg c)) \<and>
    (\<forall>out. res = BaoOk out \<longrightarrow> role \<noteq> '''' \<and> cb_Certificate out \<noteq> '''' \<and> cb_PrivateKey out \<noteq> '''')"
proof -
  obtain r c1 where run: "bao_do J E ''POST'' (''v1/'' @ bcfg_PKIMount (bc_cfg c) @ ''/issue/'' @ escape role) (issueBody cn opts) c = (r, c1)"
    by force
  show ?thesis using assms run bao_do_frame [OF run] by (cases r) (auto simp: Client_Issue_def split: if_splits)
qed

text \<open>
  (C29) Signing and issuing authenticate first: every request they send carries a non-empty token, the
  login itself apart. A bundle they return names a role and holds a certificate, and for Issue a
  private key.\<close>

theorem client_authenticates:
  assumes "Client_Sign J escape E role csrPEM opts c = (res1, c1)" and "Client_Issue J escape E role cn opts c = (res2, c2)"
  shows "(\<exists>new. bc_sent c1 = bc_sent c @ new \<and> (\<forall>rq\<in>set new. brq_Token rq \<noteq> '''' \<or> brq_URL rq = loginURL (bc_cfg c))) \<and>
    (\<exists>new. bc_sent c2 = bc_sent c @ new \<and> (\<forall>rq\<in>set new. brq_Token rq \<noteq> '''' \<or> brq_URL rq = loginURL (bc_cfg c))) \<and>
    (\<forall>out. res1 = BaoOk out \<longrightarrow> role \<noteq> '''' \<and> cb_Certificate out \<noteq> '''') \<and>
    (\<forall>out. res2 = BaoOk out \<longrightarrow> role \<noteq> '''' \<and> cb_Certificate out \<noteq> '''' \<and> cb_PrivateKey out \<noteq> '''')"
  using Client_Sign_frame [OF assms(1)] Client_Issue_frame [OF assms(2)]
  by (auto simp: sent_since_def token_or_login_def list_all_iff)

definition ex_signOptions :: SignOptions where
  "ex_signOptions = toSignOptions (noConstraints\<lparr>cc_CommonName := ''dev1.example.com'', cc_DNSNames := [''a'', ''b''], cc_TTL := 3600000000000\<rparr>)"

lemma ex_sign:
  "Client_Sign ex_json (\<lambda>s. s) ex_env ''role'' ''csr'' ex_signOptions (ex_client [Reply 200 ''auth'', Reply 200 ''pem'']) =
    (BaoOk (emptyBundle\<lparr>cb_Certificate := ''pem'', cb_PrivateKey := ''pem''\<rparr>),
     snd (Client_Sign ex_json (\<lambda>s. s) ex_env ''role'' ''csr'' ex_signOptions (ex_client [Reply 200 ''auth'', Reply 200 ''pem''])))"
  by code_simp

theorem client_authenticates_witness:
  "\<exists>new. bc_sent (snd (Client_Sign ex_json (\<lambda>s. s) ex_env ''role'' ''csr'' ex_signOptions (ex_client [Reply 200 ''auth'', Reply 200 ''pem'']))) = new \<and>
     (\<forall>rq\<in>set new. brq_Token rq \<noteq> '''' \<or> brq_URL rq = ''https://bao/v1/auth/approle/login'')"
proof -
  let ?c = "ex_client [Reply 200 ''auth'', Reply 200 ''pem'']"
  have "bc_sent ?c = []" "loginURL (bc_cfg ?c) = ''https://bao/v1/auth/approle/login''"
    by (simp add: ex_client_def, code_simp)
  with client_authenticates [OF ex_sign prod.collapse [symmetric], of "''cn''"] show ?thesis by simp
qed

section \<open>Request bodies\<close>

lemma gm_get_put': "gm_get (gm_put k v m) j = (if j = k then Some v else gm_get m j)"
  by (simp add: gm_get_def gm_put_def update_conv')

lemma putIf_get: "gm_get (putIf b k v m) j = (if j = k \<and> b then Some v else gm_get m j)"
  by (simp add: putIf_def gm_get_put')

text \<open>
  The body of a signing request is exactly the approved constraints next to the certificate request:
  each name type appears when the decision has it and nothing else does.\<close>

theorem sign_body_is_the_decision:
  "gm_get (signBody csrPEM (toSignOptions c)) key =
    (if key = ''csr'' then Some (JStr csrPEM)
     else if key = ''format'' then Some (JStr ''pem'')
     else if key = ''common_name'' \<and> cc_CommonName c \<noteq> '''' then Some (JStr (cc_CommonName c))
     else if key = ''alt_names'' \<and> cc_DNSNames c \<noteq> [] then Some (JStr (joinComma (cc_DNSNames c)))
     else if key = ''ip_sans'' \<and> cc_IPs c \<noteq> [] then Some (JStr (joinComma (cc_IPs c)))
     else if key = ''uri_sans'' \<and> cc_URIs c \<noteq> [] then Some (JStr (joinComma (cc_URIs c)))
     else if key = ''ttl'' \<and> cc_TTL c > 0 then Some (JStr (durString (cc_TTL c)))
     else if key = ''exclude_cn_from_sans'' \<and> cc_ExcludeCNFromSANs c then Some (JBool True)
     else None)"
proof -
  have ttl: "so_TTL (toSignOptions c) \<noteq> '''' \<longleftrightarrow> cc_TTL c > 0"
    by (simp add: toSignOptions_def durString_def durUnits_def Let_def)
  show ?thesis
    unfolding signBody_def applyOptions_def putIf_get ttl
    by (simp add: toSignOptions_def putIf_get gm_empty_def) (simp add: gm_get_def)
qed

text \<open>Splitting at commas recovers a list of names none of which contains a comma.\<close>

fun splitComma :: "string \<Rightarrow> string list" where
  "splitComma [] = [[]]"
| "splitComma (c # s) = (if c = CHR '','' then [] # splitComma s
     else (case splitComma s of w # ws \<Rightarrow> (c # w) # ws | [] \<Rightarrow> [[c]]))"

lemma splitComma_word: "CHR '','' \<notin> set w \<Longrightarrow> splitComma (w @ CHR '','' # s) = w # splitComma s"
  by (induction w) auto

lemma splitComma_last: "CHR '','' \<notin> set w \<Longrightarrow> splitComma w = [w]"
  by (induction w) auto

lemma joinComma_Cons: "joinComma (v # w # ws) = v @ CHR '','' # joinComma (w # ws)"
  by (simp add: joinComma_def)

text \<open>
  OpenBao reads the joined names as the list that was approved, provided no approved name contains a
  comma; and a name that does contain one is read as several names.\<close>

theorem joined_names:
  "(vs \<noteq> [] \<and> (\<forall>v\<in>set vs. CHR '','' \<notin> set v) \<longrightarrow> splitComma (joinComma vs) = vs) \<and>
   joinComma [a @ '','' @ b] = joinComma [a, b]"
proof (intro conjI impI)
  assume "vs \<noteq> [] \<and> (\<forall>v\<in>set vs. CHR '','' \<notin> set v)"
  then show "splitComma (joinComma vs) = vs"
  proof (induction vs)
    case (Cons v vs)
    show ?case
    proof (cases vs)
      case Nil
      then show ?thesis using Cons.prems by (simp add: joinComma_def splitComma_last)
    next
      case (Cons w ws)
      then show ?thesis using Cons.IH Cons.prems by (simp add: joinComma_Cons splitComma_word)
    qed
  qed simp
qed (simp add: joinComma_def)

theorem joined_names_witness: "splitComma (joinComma [''a.example.com'', ''b.example.com'']) = [''a.example.com'', ''b.example.com'']"
  using joined_names [of "[''a.example.com'', ''b.example.com'']"] by simp

text \<open>
  A wildcard of the inventory admits a requested name with a comma in it, and what is then sent to
  OpenBao is the list with the name before the comma, which the inventory does not admit. Only the
  check of the issued certificate stands against it.\<close>

theorem comma_name_escapes_allowlist:
  "globMatch exampleLib ''*.example.com'' ''evil.test,a.example.com'' \<and>
   \<not> globMatch exampleLib ''*.example.com'' ''evil.test'' \<and>
   joinComma [''evil.test,a.example.com''] = joinComma [''evil.test'', ''a.example.com'']"
  by code_simp

section \<open>The client as enroller\<close>

text \<open>
  The interface \<open>Enroller\<close> as a contract: a bundle is returned for a named role only, and carries
  a certificate. A handler over such an enroller delivers only under a named role, whatever its
  authorizer.
\<close>

locale enroller_contract =
  fixes e :: "'b enroller"
  assumes sign_named: "en_Sign e t role csrPEM opts b = (Ok out, b') \<Longrightarrow> role \<noteq> '''' \<and> cb_Certificate out \<noteq> ''''"
    and issue_named: "en_Issue e t role cn opts b = (Ok out, b') \<Longrightarrow> role \<noteq> '''' \<and> cb_Certificate out \<noteq> ''''"
begin

lemma enroll_named_role:
  assumes "eh_enroller h = e" and "enroll G X h r op label w = (resp, w')" and "hr_Status resp = StatusOK"
  shows "\<exists>req d. fst (eh_authz h req (bw_authz w)) = Ok d \<and> dc_Allow d \<and> dc_Role d \<noteq> ''''"
proof -
  obtain csrDER req where auth: "authorized h op req (enrollIssue G X h op csrDER req) w = (resp, w')"
    using assms(2,3) frontDoor_error_status [of G X h r op label] by (auto simp: enroll_def split: sum.splits)
  obtain d w1 where d: "eh_authz h req (bw_authz w) = (Ok d, bw_authz w1)" "dc_Allow d"
    and issue: "enrollIssue G X h op csrDER req d w1 = (resp, w')"
    using authorized_status [OF auth assms(3)] by metis
  obtain cb where "fst (en_Sign e (eh_upstream h) (dc_Role d) (pemEncode ''CERTIFICATE REQUEST'' csrDER)
       (toSignOptions (dc_Constraints d)) (bw_bao w1)) = Ok cb"
    using enrollIssue_status [OF issue assms(3)] assms(1) by metis
  then have "dc_Role d \<noteq> ''''" using sign_named by (metis prod.collapse)
  with d show ?thesis by (metis fst_conv)
qed

end

text \<open>
  The client in the shape of an enroller. The environment of a call depends on its timeout. A panic
  of the backoff, possible with 38 retries or more, has no place in the interface and is
  reported as an error here.
\<close>

definition clientResult :: "(bao_error \<Rightarrow> string) \<Rightarrow> 'a bao_result \<times> baoClient \<Rightarrow> (string, 'a) result \<times> baoClient" where
  "clientResult text p = ((case fst p of BaoOk x \<Rightarrow> Ok x | BaoErr err \<Rightarrow> Err (text err) | BaoPanic \<Rightarrow> Err ''panic''), snd p)"

definition bao_enroller :: "jsonlib \<Rightarrow> (string \<Rightarrow> string) \<Rightarrow> (bao_error \<Rightarrow> string) \<Rightarrow> (duration \<Rightarrow> bao_env) \<Rightarrow> baoClient enroller" where
  "bao_enroller J escape text env =
    \<lparr>en_Sign = (\<lambda>t role csrPEM opts c. clientResult text (Client_Sign J escape (env t) role csrPEM opts c)),
     en_Issue = (\<lambda>t role cn opts c. clientResult text (Client_Issue J escape (env t) role cn opts c)),
     en_CAChain = (\<lambda>t c. clientResult text (Client_CAChain J (env t) c))\<rparr>"

lemma clientResult_Ok: "clientResult text p = (Ok x, c') \<longleftrightarrow> p = (BaoOk x, c')"
  by (cases p; cases "fst p") (auto simp: clientResult_def)

interpretation bao_client: enroller_contract "bao_enroller J escape text env" for J escape text env
  using Client_Sign_frame Client_Issue_frame
  by unfold_locales (fastforce simp: bao_enroller_def clientResult_Ok)+

text \<open>
  EST on top of the OpenBao client delivers a certificate only under a named role, whatever
  authorizer is configured: the client refuses to sign without one.\<close>

theorem est_over_client_names_role:
  assumes "eh_enroller h = bao_enroller J escape text env" and "enroll G X h r op label w = (resp, w')"
    and "hr_Status resp = StatusOK"
  shows "\<exists>req d. fst (eh_authz h req (bw_authz w)) = Ok d \<and> dc_Allow d \<and> dc_Role d \<noteq> ''''"
  using bao_client.enroll_named_role [OF assms] .

definition ex_client_handler :: "(unit, baoClient) est_handler" where
  "ex_client_handler = \<lparr>eh_opts = \<lparr>eo_BootstrapRoots = None, eo_DeviceRoots = None,
       eo_Enroller = Some (bao_enroller ex_json (\<lambda>s. s) (\<lambda>_. ''error'') (\<lambda>_. ex_env)),
       eo_Authorizer = Some (AllowAllEcho_Authorize exampleLib ''role''), eo_AllowedKeyTypes = [], eo_CSRAttrs = [],
       eo_MaxRequestBytes = 0, eo_MinRSABits = 0, eo_MaxRSABits = 0, eo_ServerKeyGenKeyType = '''',
       eo_ServerKeyGenKeyBits = 0, eo_UpstreamTimeout = 0\<rparr>,
     eh_enroller = bao_enroller ex_json (\<lambda>s. s) (\<lambda>_. ''error'') (\<lambda>_. ex_env),
     eh_authz = AllowAllEcho_Authorize exampleLib ''role'', eh_maxReq = 262144, eh_upstream = 20000000000\<rparr>"

lemma ex_client_enroll:
  "hr_Status (fst (enroll exampleLib ex_x509 ex_client_handler (ex_post ''simpleenroll'') OpSimpleEnroll ''''
     \<lparr>bw_authz = (), bw_bao = ex_client [Reply 200 ''auth'', Reply 200 ''leaf''], bw_replay = NewReplayCache 0 0, bw_trace = []\<rparr>)) = StatusOK"
  by code_simp

theorem est_over_client_names_role_witness:
  "\<exists>req (d::Decision). fst (eh_authz ex_client_handler req ()) = Ok d \<and> dc_Allow d \<and> dc_Role d \<noteq> ''''"
proof -
  have "eh_enroller ex_client_handler = bao_enroller ex_json (\<lambda>s. s) (\<lambda>_. ''error'') (\<lambda>_. ex_env)"
    by (simp add: ex_client_handler_def)
  from est_over_client_names_role [OF this prod.collapse [symmetric] ex_client_enroll] show ?thesis by simp
qed

end
