(* ===== verification/Main_Wiring.thy ===== *)
theory Main_Wiring
  imports Broker_Config Scep_Properties Rate_Limits Bao_Properties
begin

text \<open>
  \<open>src/cmd/certbroker/main.go\<close>: how a configuration becomes the running broker. The authorizer,
  the OpenBao client, the EST handler, the rate limiter, the optional SCEP handler with its replay cache
  and the settings of the listeners are built the way \<open>run\<close> builds them; the goroutines that serve
  the listeners and the signals that stop them are the subject of \<open>Main_Lifecycle\<close>. The state
  of the authorizer is the shared secret of the static challenge backend (empty where no backend is
  configured, and then not used).
\<close>

section \<open>The authorizer\<close>

datatype startup_error =
    StartConfig config_error | StartInventory inventory_error | StartSecret secret_error | StartText string

definition buildInventory :: "golib \<Rightarrow> osEnv \<Rightarrow> (string \<Rightarrow> (string, deviceEntry list) result) \<Rightarrow> Config
   \<Rightarrow> (startup_error, inventory option) result" where
  "buildInventory G O' yaml cfg =
    (let backend = iv_Backend (cf_Inventory cfg) in
     if backend = '''' \<or> backend = ''none'' then Ok (Some NoInventory_Lookup)
     else if backend = ''file'' then
       (if iv_Path (cf_Inventory cfg) = '''' then Err (StartText ''inventory.path is required for the file backend'')
        else (case NewFileInventory (os_ReadFile O') yaml (iv_Path (cf_Inventory cfg)) of
                Inl err \<Rightarrow> Err (StartInventory err)
              | Inr f \<Rightarrow> Ok (Some (FileInventory_Lookup G f))))
     else Err (StartText (''unsupported inventory backend: '' @ backend)))"

definition getenv :: "osEnv \<Rightarrow> string \<Rightarrow> string" where
  "getenv O' name = (case os_LookupEnv O' name of None \<Rightarrow> '''' | Some v \<Rightarrow> v)"

definition buildChallenge :: "osEnv \<Rightarrow> Config \<Rightarrow> (startup_error, StaticSecret validator option \<times> StaticSecret) result" where
  "buildChallenge O' cfg =
    (let backend = ch_Backend (cf_Challenge cfg) in
     if backend = '''' \<or> backend = ''none'' then Ok (None, \<lparr>ss_secret = ''''\<rparr>)
     else if backend = ''static'' then
       (if ch_StaticSecretEnv (cf_Challenge cfg) = ''''
        then Err (StartText ''challenge.static_secret_env is required for the static backend'')
        else (case NewStaticSecret (getenv O' (ch_StaticSecretEnv (cf_Challenge cfg))) of
                Inl err \<Rightarrow> Err (StartSecret err)
              | Inr s \<Rightarrow> Ok (Some StaticSecret_Validate, s)))
     else Err (StartText (''unsupported challenge backend: '' @ backend)))"

definition configPipeline :: "golib \<Rightarrow> Config \<Rightarrow> inventory option \<Rightarrow> StaticSecret validator option \<Rightarrow> StaticSecret Pipeline" where
  "configPipeline G cfg iv ch =
    standardPipeline G iv ch
      (NewRuleSelector (map (\<lambda>(m, r). \<lparr>rl_Match = m, rl_Role = r\<rparr>) (rm_Rules (cf_RoleMap cfg))) (rm_Default (cf_RoleMap cfg)))
      (NewStandardConstraints (po_SANConstraint (cf_Policy cfg)) (po_MaxValidity (cf_Policy cfg)))
      (po_RequireCPP (cf_Policy cfg)) (po_AllowUnauthenticated (cf_Policy cfg))"

definition selectAuthorizer :: "golib \<Rightarrow> osEnv \<Rightarrow> (string \<Rightarrow> (string, deviceEntry list) result) \<Rightarrow> Config \<Rightarrow> bool \<Rightarrow> string
   \<Rightarrow> (startup_error, StaticSecret authorizer \<times> StaticSecret) result" where
  "selectAuthorizer G O' yaml cfg devAllowAll devRole =
    (if devAllowAll then
       (let role = (if devRole = '''' then rm_Default (cf_RoleMap cfg) else devRole)
        in if role = '''' then Err (StartText ''-dev-insecure-allow-all requires -dev-role or role_map.default'')
           else Ok (AllowAllEcho_Authorize G role, \<lparr>ss_secret = ''''\<rparr>))
     else
       (case buildInventory G O' yaml cfg of
          Inl err \<Rightarrow> Err err
        | Inr iv \<Rightarrow>
           (case buildChallenge O' cfg of
              Inl err \<Rightarrow> Err err
            | Inr (ch, s) \<Rightarrow> Ok (Pipeline_Authorize G (configPipeline G cfg iv ch), s))))"

section \<open>Handlers and limits\<close>

definition clientConfig :: "Config \<Rightarrow> string \<Rightarrow> string \<Rightarrow> bao_Config" where
  "clientConfig cfg secretID caCert =
    \<lparr>bcfg_Address = ob_Address (cf_OpenBao cfg), bcfg_PKIMount = ob_Mount (cf_OpenBao cfg), bcfg_CACertPEM = caCert,
     bcfg_AppRoleMount = ar_MountPath (ob_AppRole (cf_OpenBao cfg)), bcfg_RoleID = ar_RoleID (ob_AppRole (cf_OpenBao cfg)),
     bcfg_SecretID = secretID, bcfg_RenewThreshold = ar_RenewThreshold (ob_AppRole (cf_OpenBao cfg)),
     bcfg_MaxRetries = ob_MaxRetries (cf_OpenBao cfg)\<rparr>"

definition estOptions :: "Config \<Rightarrow> certPool option \<Rightarrow> certPool option \<Rightarrow> 'b enroller \<Rightarrow> 's authorizer \<Rightarrow> ('s, 'b) est_Options" where
  "estOptions cfg bootstrapRoots deviceRoots e az =
    \<lparr>eo_BootstrapRoots = bootstrapRoots, eo_DeviceRoots = deviceRoots, eo_Enroller = Some e, eo_Authorizer = Some az,
     eo_AllowedKeyTypes = po_AllowedKeyTypes (cf_Policy cfg), eo_CSRAttrs = [],
     eo_MaxRequestBytes = sv_MaxRequestBytes (cf_Server cfg), eo_MinRSABits = po_MinRSABits (cf_Policy cfg),
     eo_MaxRSABits = po_MaxRSABits (cf_Policy cfg), eo_ServerKeyGenKeyType = po_ServerKeyGenKeyType (cf_Policy cfg),
     eo_ServerKeyGenKeyBits = po_ServerKeyGenKeyBits (cf_Policy cfg), eo_UpstreamTimeout = li_UpstreamTimeout (cf_Limits cfg)\<rparr>"

definition limitsConfig :: "Config \<Rightarrow> limits_Config" where
  "limitsConfig cfg =
    \<lparr>lc_PerClientRate = li_PerClientRate (cf_Limits cfg), lc_PerClientBurst = li_PerClientBurst (cf_Limits cfg),
     lc_GlobalRate = li_GlobalRate (cf_Limits cfg), lc_GlobalBurst = li_GlobalBurst (cf_Limits cfg),
     lc_MaxConcurrent = li_MaxConcurrent (cf_Limits cfg), lc_AcquireTimeout = li_AcquireTimeout (cf_Limits cfg),
     lc_MaxClients = li_MaxTrackedClients (cf_Limits cfg)\<rparr>"

definition scepDigests :: "Config \<Rightarrow> objectID list" where
  "scepDigests cfg = (if sc_AllowSHA1 (cf_SCEP cfg) then SHA1 # DefaultDigests else DefaultDigests)"

definition scepOptions :: "golib \<Rightarrow> x509lib \<Rightarrow> Config \<Rightarrow> certificate \<Rightarrow> string \<Rightarrow> certPool option \<Rightarrow> 'b enroller \<Rightarrow> 's authorizer
   \<Rightarrow> ('s, 'b) scep_Options" where
  "scepOptions G X cfg raCert raKey deviceRoots e az =
    \<lparr>sp_RACert = Some raCert, sp_RAKey = Some raKey, sp_DeviceRoots = deviceRoots, sp_Enroller = Some e,
     sp_Authorizer = Some az,
     sp_ParseCSR = Some (\<lambda>der. ParseCSRLimited X der (po_MinRSABits (cf_Policy cfg)) (po_MaxRSABits (cf_Policy cfg))),
     sp_ChallengePassword = Some (ChallengePassword X), sp_VerifyIssued = Some (VerifyIssued G),
     sp_Digests = scepDigests cfg, sp_hasReplayCache = True,
     sp_MaxRequestBytes = sc_MaxRequestBytes (cf_SCEP cfg), sp_UpstreamTimeout = li_UpstreamTimeout (cf_Limits cfg)\<rparr>"

text \<open>
  The TLS settings of the EST listener, \<open>src/internal/est/server.go\<close>: client certificates are asked
  for and not verified in the handshake, each endpoint verifies against its own anchor.
\<close>

datatype clientAuthType = NoClientCert | RequestClientCert | RequireAnyClientCert | VerifyClientCertIfGiven | RequireAndVerifyClientCert

definition VersionTLS12 :: int where "VersionTLS12 = 0x0303"

record tlsConfig =
  tc_MinVersion :: int
  tc_Certificates :: "(string list \<times> string) list"
  tc_ClientAuth :: clientAuthType

definition TLSConfig :: "string list \<times> string \<Rightarrow> tlsConfig" where
  "TLSConfig serverCert = \<lparr>tc_MinVersion = VersionTLS12, tc_Certificates = [serverCert], tc_ClientAuth = RequestClientCert\<rparr>"

text \<open>
  The settings of a listener. Which handler serves it, and that it runs behind the shared limiter,
  shows in the fields of \<open>broker\<close>.
\<close>

record httpServer =
  hs_Addr :: string
  hs_TLSConfig :: "tlsConfig option"
  hs_ReadTimeout :: duration
  hs_ReadHeaderTimeout :: duration
  hs_WriteTimeout :: duration
  hs_IdleTimeout :: duration
  hs_MaxHeaderBytes :: int

definition listenerFor :: "Config \<Rightarrow> string \<Rightarrow> httpServer" where
  "listenerFor cfg addr =
    \<lparr>hs_Addr = addr, hs_TLSConfig = None, hs_ReadTimeout = sv_ReadTimeout (cf_Server cfg), hs_ReadHeaderTimeout = sv_ReadHeaderTimeout (cf_Server cfg),
     hs_WriteTimeout = sv_WriteTimeout (cf_Server cfg), hs_IdleTimeout = sv_IdleTimeout (cf_Server cfg),
     hs_MaxHeaderBytes = sv_MaxHeaderBytes (cf_Server cfg)\<rparr>"

definition buildSCEPServer :: "golib \<Rightarrow> osEnv \<Rightarrow> x509lib \<Rightarrow> Config \<Rightarrow> certPool option \<Rightarrow> 'b enroller \<Rightarrow> 's authorizer
   \<Rightarrow> (startup_error, ('s, 'b) scep_handler \<times> ReplayCache \<times> httpServer) result" where
  "buildSCEPServer G O' X cfg deviceRoots e az =
    (case SCEPRAIdentity O' X cfg of
       Inl err \<Rightarrow> Err (StartConfig err)
     | Inr (raCert, raKey) \<Rightarrow>
        (case scep_NewHandler (scepOptions G X cfg raCert raKey deviceRoots e az) of
           Inl err \<Rightarrow> Err (StartText err)
         | Inr h \<Rightarrow> Ok (h, NewReplayCache (sc_ReplayTTL (cf_SCEP cfg)) (sc_ReplayMaxEntries (cf_SCEP cfg)),
                       listenerFor cfg (sc_ListenAddr (cf_SCEP cfg)))))"

section \<open>The broker\<close>

text \<open>
  What the OpenBao client needs of its surroundings: the network, JSON, path escaping, the text of a
  cancelled context, and the environment of a call with a given timeout.
\<close>

record baoRuntime =
  rt_validPEM :: "string \<Rightarrow> bool"
  rt_net :: "reply list"
  rt_json :: jsonlib
  rt_escape :: "string \<Rightarrow> string"
  rt_ctxErr :: string
  rt_env :: "duration \<Rightarrow> bao_env"

definition brokerEnroller :: "baoRuntime \<Rightarrow> baoClient enroller" where
  "brokerEnroller R = bao_enroller (rt_json R) (rt_escape R) (errorText (rt_ctxErr R)) (rt_env R)"

record broker =
  br_est :: "(StaticSecret, baoClient) est_handler"
  br_estSrv :: httpServer
  br_healthSrv :: httpServer
  br_scep :: "((StaticSecret, baoClient) scep_handler \<times> httpServer) option"
  br_limiter :: Limiter
  br_world :: "(StaticSecret, baoClient) broker_world"

text \<open>
  \<open>run\<close> up to the start of the listeners. Until the SCEP listener is built there is no replay
  cache; the world has an unused one in its place.
\<close>

definition startup :: "golib \<Rightarrow> osEnv \<Rightarrow> x509lib \<Rightarrow> (string \<Rightarrow> (string, deviceEntry list) result)
   \<Rightarrow> baoRuntime \<Rightarrow> string \<Rightarrow> bool \<Rightarrow> string \<Rightarrow> (startup_error, broker) result" where
  "startup G O' X yaml R configPath devAllowAll devRole =
    (case Load O' configPath of
       Inl err \<Rightarrow> Err (StartConfig err)
     | Inr cfg \<Rightarrow>
    (case ResolveSecretID O' cfg of
       Inl err \<Rightarrow> Err (StartConfig err)
     | Inr secretID \<Rightarrow>
    (case OpenBaoCACert O' cfg of
       Inl err \<Rightarrow> Err (StartConfig err)
     | Inr caCert \<Rightarrow>
    (case bao_New (rt_validPEM R) (rt_net R) (clientConfig cfg secretID caCert) of
       Inl err \<Rightarrow> Err (StartText err)
     | Inr client \<Rightarrow>
    (case TrustPools O' cfg of
       Inl err \<Rightarrow> Err (StartConfig err)
     | Inr (bootstrapRoots, deviceRoots) \<Rightarrow>
    (case ServerTLSCertificate O' cfg of
       Inl err \<Rightarrow> Err (StartConfig err)
     | Inr serverCert \<Rightarrow>
    (case selectAuthorizer G O' yaml cfg devAllowAll devRole of
       Inl err \<Rightarrow> Err err
     | Inr (az, s) \<Rightarrow>
    (case est_NewHandler (estOptions cfg bootstrapRoots deviceRoots (brokerEnroller R) az) of
       Inl err \<Rightarrow> Err (StartText err)
     | Inr h \<Rightarrow>
       (let br = \<lparr>br_est = h,
                  br_estSrv = (listenerFor cfg (sv_ListenAddr (cf_Server cfg)))\<lparr>hs_TLSConfig := Some (TLSConfig serverCert)\<rparr>,
                  br_healthSrv = listenerFor cfg (sv_HealthAddr (cf_Server cfg)), br_scep = None,
                  br_limiter = limits_New (limitsConfig cfg),
                  br_world = \<lparr>bw_authz = s, bw_bao = client, bw_replay = NewReplayCache 0 0, bw_trace = []\<rparr>\<rparr>
        in if \<not> sc_Enabled (cf_SCEP cfg) then Ok br
           else (case buildSCEPServer G O' X cfg deviceRoots (brokerEnroller R) az of
                   Inl err \<Rightarrow> Err err
                 | Inr (sh, cache, srv) \<Rightarrow>
                    Ok (br\<lparr>br_scep := Some (sh, srv), br_world := (br_world br)\<lparr>bw_replay := cache\<rparr>\<rparr>)))))))))))"

text \<open>The time \<open>run\<close> gives the listeners to drain once a signal arrives.\<close>

definition shutdownTimeout :: "Config \<Rightarrow> duration" where
  "shutdownTimeout cfg =
    (if sv_ShutdownTimeout (cf_Server cfg) \<le> 0 then 10 * second else sv_ShutdownTimeout (cf_Server cfg))"

section \<open>Health\<close>

definition readyz :: "'b enroller \<Rightarrow> ('s, 'b) broker_world \<Rightarrow> http_response \<times> ('s, 'b) broker_world" where
  "readyz e w =
    (let (res, w1) = callCAChain e (5 * second) w
     in (case res of
           Inl err \<Rightarrow> httpError (''not ready: '' @ err) StatusServiceUnavailable
         | Inr _ \<Rightarrow> \<lparr>hr_Status = StatusOK, hr_Header = [], hr_Body = ''ready''\<rparr>, w1))"

definition healthz :: http_response where
  "healthz = \<lparr>hr_Status = StatusOK, hr_Header = [], hr_Body = ''ok''\<rparr>"

text \<open>The two patterns have no method and no wildcard; the redirect of an unclean path is not modelled.\<close>

definition healthHandler :: "'b enroller \<Rightarrow> http_request \<Rightarrow> ('s, 'b) broker_world \<Rightarrow> http_response \<times> ('s, 'b) broker_world" where
  "healthHandler e r w =
    (if hq_Path r = ''/healthz'' then (healthz, w)
     else if hq_Path r = ''/readyz'' then readyz e w
     else (httpNotFound, w))"

section \<open>Lemmas\<close>

lemma buildChallenge_Ok:
  assumes "buildChallenge O' cfg = Ok (ch, s)"
  shows "if noBackend (ch_Backend (cf_Challenge cfg)) then ch = None
    else ch = Some StaticSecret_Validate \<and> ss_secret s \<noteq> '''' \<and> ss_secret s = getenv O' (ch_StaticSecretEnv (cf_Challenge cfg))"
  using assms by (auto simp: buildChallenge_def noBackend_def NewStaticSecret_def Let_def split: if_splits sum.splits)

lemma selectAuthorizer_Ok:
  assumes "selectAuthorizer G O' yaml cfg False devRole = Ok (az, s)"
  obtains iv ch where "buildInventory G O' yaml cfg = Ok iv" "buildChallenge O' cfg = Ok (ch, s)"
    "az = Pipeline_Authorize G (configPipeline G cfg iv ch)"
  using assms by (auto simp: selectAuthorizer_def split: sum.splits)

lemma StaticSecret_Validate_Ok: "fst (StaticSecret_Validate i x s) = Ok () \<longleftrightarrow> x = ss_secret s"
  by (simp add: StaticSecret_Validate_def constantTimeCompare_def)

end
