(* ===== verification/Broker_System.thy ===== *)
theory Broker_System
  imports Main_Wiring
begin

text \<open>
  The running broker: the EST, SCEP and health listeners over one process state, and what holds over
  every history of requests that reach them. A request is served whole before the next one; requests
  that interleave, in the handlers and behind the rate limiter, are the subject of \<open>Broker_Concurrent\<close>.
\<close>

section \<open>Histories\<close>

datatype broker_input =
    EstIn string http_request
  | ScepIn time "(string, string) result" http_request
  | HealthIn http_request

definition broker_step :: "golib \<Rightarrow> pkcs7lib \<Rightarrow> x509lib \<Rightarrow> baoRuntime \<Rightarrow> broker \<Rightarrow> broker_input
   \<Rightarrow> (StaticSecret, baoClient) broker_world \<Rightarrow> scep_outcome option \<times> (StaticSecret, baoClient) broker_world" where
  "broker_step G L X R br i w =
    (case i of
       EstIn boundary r \<Rightarrow> (case est_ServeHTTP G X (br_est br) boundary r w of (resp, w1) \<Rightarrow> (Some (Responded resp), w1))
     | ScepIn now nonce r \<Rightarrow>
        (case br_scep br of
           None \<Rightarrow> (None, w)
         | Some (h, _) \<Rightarrow> (case scep_ServeHTTP G L X h now nonce r w of (out, w1) \<Rightarrow> (Some out, w1)))
     | HealthIn r \<Rightarrow> (case healthHandler (brokerEnroller R) r w of (resp, w1) \<Rightarrow> (Some (Responded resp), w1)))"

definition broker_run :: "golib \<Rightarrow> pkcs7lib \<Rightarrow> x509lib \<Rightarrow> baoRuntime \<Rightarrow> broker \<Rightarrow> broker_input list
   \<Rightarrow> (StaticSecret, baoClient) broker_world" where
  "broker_run G L X R br inputs = fold (\<lambda>i w. snd (broker_step G L X R br i w)) inputs (br_world br)"

interpretation broker: issuing_handler "broker_step G L X R br" for G L X R br
proof
  fix i w
  show "\<exists>new. bw_trace (snd (broker_step G L X R br i w)) = bw_trace w @ new \<and> issuance_gated None new"
  proof (cases i)
    case (EstIn boundary r)
    then show ?thesis using est_ServeHTTP_gated [of w G X "br_est br" boundary r]
      by (simp add: broker_step_def split_def extends_gated_def)
  next
    case (ScepIn now nonce r)
    then show ?thesis using scep_ServeHTTP_gated [of w G L X _ now nonce r]
      by (simp add: broker_step_def split_def extends_gated_def split: option.split)
  next
    case (HealthIn r)
    then show ?thesis by (simp add: broker_step_def healthHandler_def readyz_def split_def Let_def)
  qed
qed

section \<open>Who is authorized\<close>

text \<open>
  The events a handler adds: every authorization among them is the authorizer's answer, in the state
  it was configured with, to a request that satisfies \<open>P\<close>.
\<close>

definition decides :: "'s authorizer \<Rightarrow> (Request \<Rightarrow> bool) \<Rightarrow> 's \<Rightarrow> ('s, 'b) broker_world \<Rightarrow> ('s, 'b) broker_world \<Rightarrow> bool" where
  "decides az P s w w' = (bw_authz w' = s \<and>
    (\<exists>new. bw_trace w' = bw_trace w @ new \<and> (\<forall>req res. AuthorizeEv req res \<in> set new \<longrightarrow> P req \<and> res = fst (az req s))))"

lemma decides_refl [simp]: "decides az P s w w \<longleftrightarrow> bw_authz w = s"
  by (simp add: decides_def)

lemma decides_trans: "decides az P s w w1 \<Longrightarrow> decides az P s w1 w2 \<Longrightarrow> decides az P s w w2"
  unfolding decides_def by (metis append.assoc set_append Un_iff)

lemma decides_mono: "decides az P s w w' \<Longrightarrow> (\<And>req. P req \<Longrightarrow> Q req) \<Longrightarrow> decides az Q s w w'"
  unfolding decides_def by blast

lemma decides_callAuthorize:
  "bw_authz w = s \<Longrightarrow> P req \<Longrightarrow> snd (az req s) = s \<Longrightarrow> decides az P s w (snd (callAuthorize az req w))"
  by (simp add: decides_def)

text \<open>A stage that adds no authorization.\<close>

definition undecided :: "('s, 'b) broker_world \<Rightarrow> ('s, 'b) broker_world \<Rightarrow> bool" where
  "undecided w w' = (bw_authz w' = bw_authz w \<and>
    (\<exists>new. bw_trace w' = bw_trace w @ new \<and> (\<forall>req res. AuthorizeEv req res \<notin> set new)))"

lemma undecided_decides: "bw_authz w = s \<Longrightarrow> undecided w w' \<Longrightarrow> decides az P s w w'"
  by (auto simp: undecided_def decides_def)

lemma undecided_stage:
  "undecided w (est_audit op req d outcome err w)" "undecided w (scep_audit sreq d outcome remote err w)"
  by (simp_all add: undecided_def est_audit_def scep_audit_def)

lemma enrollIssue_undecided: "undecided w (snd (enrollIssue G X h op csrDER req d w))"
  by (simp add: enrollIssue_def undecided_def split_def Let_def est_audit_def split: sum.split option.split)

lemma keyGenIssue_undecided: "undecided w (snd (keyGenIssue G X h boundary req d w))"
  by (simp add: keyGenIssue_def undecided_def split_def Let_def est_audit_def split: sum.split option.split)

lemma scep_issue_undecided: "undecided w (snd (scep_issue L X h nonce remote req d w))"
  by (simp add: scep_issue_def undecided_def split_def Let_def scep_audit_def split: sum.split)


lemma authorized_decides:
  assumes "bw_authz w = s" "P req" "snd (eh_authz h req s) = s" "\<And>d w1. undecided w1 (snd (issue d w1))"
  shows "decides (eh_authz h) P s w (snd (authorized h op req issue w))"
proof -
  define p where "p = callAuthorize (eh_authz h) req w"
  have first: "decides (eh_authz h) P s w (snd p)" unfolding p_def using assms(1-3) by (rule decides_callAuthorize)
  then have s: "bw_authz (snd p) = s" by (simp add: decides_def)
  have "undecided (snd p) (snd (authorized h op req issue w))"
    unfolding authorized_def Let_def p_def [symmetric]
    by (simp add: split_def undecided_stage assms(4) split: sum.split)
  from decides_trans [OF first undecided_decides [OF s this]] show ?thesis .
qed

text \<open>A client certificate that one of the configured anchors vouches for.\<close>

definition anchored :: "pkcs7lib \<Rightarrow> x509lib \<Rightarrow> certPool option \<Rightarrow> certPool option \<Rightarrow> Request \<Rightarrow> bool" where
  "anchored L X bootstrap device req = (case rq_ClientCert req of
     None \<Rightarrow> True
   | Some leaf \<Rightarrow> (\<exists>pool. device = Some pool \<and>
       ((\<exists>rest. xl_verify X leaf pool rest = None) \<or>
        (\<exists>p7. pl_VerifyWithChain L p7 pool = None \<and> pl_GetOnlySigner L p7 = Some leaf))) \<or>
     (\<exists>pool rest. rq_Operation req \<noteq> OpSimpleReenroll \<and> bootstrap = Some pool \<and> xl_verify X leaf pool rest = None))"

lemma VerifyPeer_verified:
  "VerifyPeer X peer roots = Ok leaf \<Longrightarrow> \<exists>pool rest. roots = Some pool \<and> xl_verify X leaf pool rest = None"
  by (auto simp: VerifyPeer_def split: option.splits list.splits)

lemma frontDoor_anchored:
  assumes "frontDoor G X h r op label = Ok (csrDER, req)"
  shows "anchored L X (eo_BootstrapRoots (eh_opts h)) (eo_DeviceRoots (eh_opts h)) req"
proof (cases "rq_ClientCert req")
  case (Some leaf)
  with assms have ident: "clientIdentity X h r op = Ok (Some leaf)" and op: "rq_Operation req = op" by (auto elim: frontDoor_Ok)
  consider "VerifyPeer X (hq_PeerCertificates r) (eo_DeviceRoots (eh_opts h)) = Ok leaf"
    | "op \<noteq> OpSimpleReenroll" "VerifyPeer X (hq_PeerCertificates r) (eo_BootstrapRoots (eh_opts h)) = Ok leaf"
    using ident by (auto simp: clientIdentity_def Let_def split: if_splits sum.splits)
  then show ?thesis using Some op by cases (auto simp: anchored_def dest!: VerifyPeer_verified)
qed (simp add: anchored_def)

section \<open>Both protocols decide alike\<close>

locale deciding_handler =
  fixes handle :: "'r \<Rightarrow> ('s, 'b) broker_world \<Rightarrow> 'a \<times> ('s, 'b) broker_world"
    and az :: "'s authorizer" and P :: "Request \<Rightarrow> bool"
  assumes handle_decides: "(\<And>req. snd (az req s) = s) \<Longrightarrow> bw_authz w = s \<Longrightarrow> decides az P s w (snd (handle r w))"
begin

lemma fold_decides:
  assumes "\<And>req. snd (az req s) = s" and "bw_authz w = s"
  shows "decides az P s w (fold (\<lambda>r w. snd (handle r w)) rs w)"
  using assms(2)
proof (induction rs arbitrary: w)
  case (Cons r rs)
  have first: "decides az P s w (snd (handle r w))" using handle_decides [OF assms(1) Cons.prems] .
  then have "bw_authz (snd (handle r w)) = s" by (simp add: decides_def)
  from decides_trans [OF first Cons.IH [OF this]] show ?case by simp
qed simp

end

lemma enroll_decides:
  assumes "\<And>req. snd (eh_authz h req s) = s" "bw_authz w = s"
  shows "decides (eh_authz h) (anchored L X (eo_BootstrapRoots (eh_opts h)) (eo_DeviceRoots (eh_opts h))) s w
      (snd (enroll G X h r op label w))"
    and "decides (eh_authz h) (anchored L X (eo_BootstrapRoots (eh_opts h)) (eo_DeviceRoots (eh_opts h))) s w
      (snd (serverKeyGen G X h boundary r label w))"
  by (simp_all add: enroll_def serverKeyGen_def assms frontDoor_anchored authorized_decides enrollIssue_undecided
      keyGenIssue_undecided split: sum.split prod.split)

lemma est_ServeHTTP_decides:
  assumes "\<And>req. snd (eh_authz h req s) = s" "bw_authz w = s"
  shows "decides (eh_authz h) (anchored L X (eo_BootstrapRoots (eh_opts h)) (eo_DeviceRoots (eh_opts h))) s w
      (snd (est_ServeHTTP G X h boundary r w))"
proof -
  let ?P = "anchored L X (eo_BootstrapRoots (eh_opts h)) (eo_DeviceRoots (eh_opts h))"
  have "decides (eh_authz h) ?P s w (snd (caCerts X h w))"
    by (rule undecided_decides [OF assms(2)]) (simp add: undecided_def caCerts_def split_def Let_def)
  then show ?thesis
    using enroll_decides [OF assms] by (simp add: est_ServeHTTP_def methodGuard_def assms(2) split: option.split)
qed

interpretation est_decides: deciding_handler "\<lambda>(boundary, r) w. est_ServeHTTP G X h boundary r w" "eh_authz h"
  "anchored L X (eo_BootstrapRoots (eh_opts h)) (eo_DeviceRoots (eh_opts h))" for G L X h
  by unfold_locales (auto simp: est_ServeHTTP_decides)

text \<open>An authorizer that a SCEP handler lacks is never asked.\<close>

definition scep_authorizer :: "('s, 'b) scep_handler \<Rightarrow> 's authorizer" where
  "scep_authorizer h = (case sp_Authorizer (sh_opts h) of None \<Rightarrow> DenyAll_Authorize | Some az \<Rightarrow> az)"

lemma Parse_anchored:
  assumes "Parse L (sh_parser h) body = Ok req"
  shows "anchored L X bootstrap (pr_DeviceRoots (sh_parser h)) (authzRequest h req r)"
proof (cases "sr_SignerAuthenticated req")
  case True
  obtain chained where "VerifyChain L (pr_Verifier (sh_parser h)) body (pr_DeviceRoots (sh_parser h)) = Ok chained"
    "sr_Signer req = sg_Signer chained"
    using Parse_Ok [OF assms] True by metis
  with True show ?thesis by (auto simp: anchored_def authzRequest_def dest!: VerifyChain_Ok)
qed (simp add: anchored_def authzRequest_def)

lemma scep_process_decides:
  assumes "\<And>req. snd (scep_authorizer h req s) = s" "bw_authz w = s" "P (authzRequest h req r)"
  shows "decides (scep_authorizer h) P s w (snd (scep_process G L X h now nonce r req w))"
proof -
  obtain fresh cache where check: "ReplayCache_Check G now (at_TransactionID (sr_Attributes req))
      (at_SenderNonce (sr_Attributes req)) (bw_replay w) = (fresh, cache)" by force
  define w0 where "w0 = w\<lparr>bw_replay := cache\<rparr>"
  have w0: "undecided w w0" "bw_authz w0 = s" using assms(2) by (simp_all add: w0_def undecided_def)
  show ?thesis
  proof (cases "fresh \<and> sp_Authorizer (sh_opts h) \<noteq> None")
    case False
    then have "snd (scep_process G L X h now nonce r req w) = w0"
      by (auto simp: scep_process_def check w0_def Let_def split: option.split)
    with w0 assms(2) show ?thesis by (simp add: undecided_decides)
  next
    case True
    then have az: "sp_Authorizer (sh_opts h) = Some (scep_authorizer h)" by (auto simp: scep_authorizer_def)
    define p where "p = callAuthorize (scep_authorizer h) (authzRequest h req r) w0"
    have dec: "decides (scep_authorizer h) P s w0 (snd p)"
      unfolding p_def using w0(2) assms(3,1) by (rule decides_callAuthorize)
    then have s: "bw_authz (snd p) = s" by (simp add: decides_def)
    have "undecided (snd p) (snd (scep_process G L X h now nonce r req w))"
      unfolding scep_process_def check Let_def prod.case w0_def [symmetric] az option.case p_def [symmetric]
      using True by (simp add: split_def undecided_stage scep_issue_undecided split: sum.split)
    from decides_trans [OF undecided_decides [OF assms(2) w0(1)] decides_trans [OF dec undecided_decides [OF s this]]]
    show ?thesis .
  qed
qed

lemma scep_ServeHTTP_decides:
  assumes "\<And>req. snd (scep_authorizer h req s) = s" "bw_authz w = s"
  shows "decides (scep_authorizer h) (anchored L X bootstrap (pr_DeviceRoots (sh_parser h))) s w
      (snd (scep_ServeHTTP G L X h now nonce r w))"
proof -
  let ?P = "anchored L X bootstrap (pr_DeviceRoots (sh_parser h))"
  have "decides (scep_authorizer h) ?P s w (snd (pkiOperation G L X h now nonce r w))"
    by (simp add: pkiOperation_def assms scep_process_decides Parse_anchored split: sum.split prod.split)
  moreover have "decides (scep_authorizer h) ?P s w (snd (getCACert L X h w))"
    by (rule undecided_decides [OF assms(2)]) (simp add: undecided_def getCACert_def caChainCerts_def split_def Let_def)
  ultimately show ?thesis by (simp add: scep_ServeHTTP_def Let_def split_def assms(2))
qed

interpretation scep_decides: deciding_handler "\<lambda>(now, nonce, r) w. scep_ServeHTTP G L X h now nonce r w" "scep_authorizer h"
  "anchored L X bootstrap (pr_DeviceRoots (sh_parser h))" for G L X h bootstrap
  by unfold_locales (auto simp: scep_ServeHTTP_decides)

end
