(* ===== verification/Broker_Requests.thy ===== *)
theory Broker_Requests
  imports Broker_System
begin

text \<open>
  What reaches OpenBao. The events of the handlers record calls of the client; a call may send its
  request several times, since \<open>doRequest\<close> (\<open>src/internal/bao/client.go\<close>) retries network errors and server
  errors without regard to what OpenBao already did. Here the requests for a certificate are counted
  where they are sent, in the log of the client, and traced back to the call and to the decision
  behind them: a call sends at most one more than the configured number of retries, and every one of
  them is the request that was decided.
\<close>

section \<open>Requests for a certificate\<close>

definition certURL :: "bao_Config \<Rightarrow> string \<Rightarrow> string" where
  "certURL cfg kind = trimRight (CHR ''/'') (bcfg_Address cfg) @ ''/v1/'' @ bcfg_PKIMount cfg @ kind"

text \<open>A POST below the sign or the issue endpoint of the mount; a login, which has no token, is not one.\<close>

definition certPost :: "bao_Config \<Rightarrow> baoRequest \<Rightarrow> bool" where
  "certPost cfg q = (brq_Method q = ''POST'' \<and> brq_Token q \<noteq> '''' \<and>
    (hasPrefix (brq_URL q) (certURL cfg ''/sign/'') \<or> hasPrefix (brq_URL q) (certURL cfg ''/issue/'')))"

definition cert_posts :: "baoClient \<Rightarrow> baoRequest list" where
  "cert_posts c = filter (certPost (bc_cfg c)) (bc_sent c)"

text \<open>The request that a call sends: the URL of its role, and its body.\<close>

fun posted :: "jsonlib \<Rightarrow> (string \<Rightarrow> string) \<Rightarrow> bao_Config \<Rightarrow> event \<Rightarrow> baoRequest \<Rightarrow> bool" where
  "posted J escape cfg (SignEv role csrPEM opts) q =
    (brq_URL q = certURL cfg ''/sign/'' @ escape role \<and> (\<exists>p. js_marshal J (signBody csrPEM opts) = Ok p \<and> brq_Payload q = Some p))"
| "posted J escape cfg (IssueEv role cn opts) q =
    (brq_URL q = certURL cfg ''/issue/'' @ escape role \<and> (\<exists>p. js_marshal J (issueBody cn opts) = Ok p \<and> brq_Payload q = Some p))"
| "posted J escape cfg _ q = False"

text \<open>The request that a decision stands for: its role and its names, for signing or for a generated key.\<close>

definition decided_post :: "jsonlib \<Rightarrow> (string \<Rightarrow> string) \<Rightarrow> bao_Config \<Rightarrow> Decision \<Rightarrow> baoRequest \<Rightarrow> bool" where
  "decided_post J escape cfg d q =
    ((\<exists>csrPEM. posted J escape cfg (SignEv (dc_Role d) csrPEM (toSignOptions (dc_Constraints d))) q) \<or>
     (\<exists>keyType keyBits. posted J escape cfg (IssueEv (dc_Role d) (cc_CommonName (dc_Constraints d))
        ((toSignOptions (dc_Constraints d))\<lparr>so_KeyType := keyType, so_KeyBits := keyBits\<rparr>)) q))"

fun is_ask :: "event \<Rightarrow> bool" where
  "is_ask (SignEv role csr opts) = True"
| "is_ask (IssueEv role cn opts) = True"
| "is_ask _ = False"

fun is_allow :: "event \<Rightarrow> bool" where
  "is_allow (AuthorizeEv req res) = (grantOf res \<noteq> None)"
| "is_allow _ = False"

definition count_ev :: "(event \<Rightarrow> bool) \<Rightarrow> event list \<Rightarrow> nat" where
  "count_ev P es = length (filter P es)"

lemma count_ev_simps [simp]:
  "count_ev P [] = 0" "count_ev P (e # es) = (if P e then 1 else 0) + count_ev P es"
  "count_ev P (es @ fs) = count_ev P es + count_ev P fs"
  by (simp_all add: count_ev_def)

lemma count_ev_pos: "0 < count_ev P es \<longleftrightarrow> (\<exists>e\<in>set es. P e)"
  by (induction es) auto

section \<open>What a call sends\<close>

definition call_sends :: "jsonlib \<Rightarrow> (string \<Rightarrow> string) \<Rightarrow> event list \<Rightarrow> baoClient \<Rightarrow> baoClient \<Rightarrow> bool" where
  "call_sends J escape es c c' = (bc_cfg c' = bc_cfg c \<and> (\<exists>new. bc_sent c' = bc_sent c @ new \<and>
    length (filter (certPost (bc_cfg c)) new) \<le> Suc (nat (bcfg_MaxRetries (bc_cfg c))) * count_ev is_ask es \<and>
    (\<forall>q\<in>set new. certPost (bc_cfg c) q \<longrightarrow> (\<exists>e\<in>set es. posted J escape (bc_cfg c) e q))))"

lemma call_sends_trans:
  assumes "call_sends J escape es c c1" "call_sends J escape fs c1 c2"
  shows "call_sends J escape (es @ fs) c c2"
proof -
  let ?P = "certPost (bc_cfg c)" and ?k = "Suc (nat (bcfg_MaxRetries (bc_cfg c)))"
  obtain a where a: "bc_sent c1 = bc_sent c @ a" "length (filter ?P a) \<le> ?k * count_ev is_ask es"
    "\<forall>q\<in>set a. ?P q \<longrightarrow> (\<exists>e\<in>set es. posted J escape (bc_cfg c) e q)" and cfg: "bc_cfg c1 = bc_cfg c"
    using assms(1) by (auto simp: call_sends_def)
  obtain b where b: "bc_sent c2 = bc_sent c1 @ b" "length (filter ?P b) \<le> ?k * count_ev is_ask fs"
    "\<forall>q\<in>set b. ?P q \<longrightarrow> (\<exists>e\<in>set fs. posted J escape (bc_cfg c) e q)" "bc_cfg c2 = bc_cfg c"
    using assms(2) by (auto simp: call_sends_def cfg)
  from a(2) b(2) have "length (filter ?P (a @ b)) \<le> ?k * count_ev is_ask (es @ fs)"
    unfolding filter_append length_append count_ev_simps distrib_left by (rule add_mono)
  with a b show ?thesis unfolding call_sends_def by (intro conjI exI [of _ "a @ b"]) auto
qed

lemma call_sends_quiet:
  assumes "bc_cfg c' = bc_cfg c" "sent_since c c' (\<lambda>q. \<not> certPost (bc_cfg c) q)"
  shows "call_sends J escape es c c'"
proof -
  obtain new where new: "bc_sent c' = bc_sent c @ new" "\<forall>q\<in>set new. \<not> certPost (bc_cfg c) q"
    using assms(2) by (auto simp: sent_since_def list_all_iff)
  then have "filter (certPost (bc_cfg c)) new = []" by (simp add: filter_empty_conv)
  with new assms(1) show ?thesis unfolding call_sends_def by (intro conjI exI [of _ new]) auto
qed

lemma call_sends_refl: "call_sends J escape es c c"
  by (rule call_sends_quiet) simp_all

text \<open>Logins, renewals and reads of the chain are not requests for a certificate.\<close>

lemma renew_path:
  "''auth/token/renew-self'' = xs @ CHR ''/'' # CHR ''s'' # ys \<Longrightarrow> False" "''auth/token/renew-self'' = xs @ CHR ''/'' # CHR ''i'' # ys \<Longrightarrow> False"
  by (auto simp: Cons_eq_append_conv)

lemma doRaw_quiet:
  assumes "doRaw J E meth path body token decode zero c = (res, c')"
    and "\<And>q. brq_Method q = meth \<Longrightarrow> brq_Token q = token \<Longrightarrow>
      brq_URL q = trimRight (CHR ''/'') (bcfg_Address (bc_cfg c)) @ ''/'' @ trimLeft (CHR ''/'') path \<Longrightarrow> \<not> certPost (bc_cfg c) q"
  shows "bc_cfg c' = bc_cfg c \<and> sent_since c c' (\<lambda>q. \<not> certPost (bc_cfg c) q)"
proof -
  consider "c' = c" | payload r where "doRequest J E meth path payload token c = (r, c')"
    using assms(1) by (auto simp: doRaw_def split: sum.splits option.splits prod.splits bao_result.splits if_splits)
  then show ?thesis
  proof cases
    case 2
    then show ?thesis by (rule doRequest_frame) (auto simp: sent_since_def list_all_iff assms(2))
  qed simp
qed

lemma loginToken_quiet:
  assumes "loginToken J E c = (res, c')"
  shows "bc_cfg c' = bc_cfg c \<and> sent_since c c' (\<lambda>q. \<not> certPost (bc_cfg c) q)"
proof -
  obtain r c1 where raw: "doRaw J E ''POST'' (''v1/auth/'' @ bcfg_AppRoleMount (bc_cfg c) @ ''/login'')
      (Some [(''role_id'', JStr (bcfg_RoleID (bc_cfg c))), (''secret_id'', JStr (bcfg_SecretID (bc_cfg c)))]) ''''
      (js_auth J) None c = (r, c1)" by force
  have "bc_cfg c1 = bc_cfg c \<and> sent_since c c1 (\<lambda>q. \<not> certPost (bc_cfg c) q)"
    by (rule doRaw_quiet [OF raw]) (simp add: certPost_def)
  with assms raw show ?thesis by (auto simp: loginToken_def Login_def split: bao_result.splits option.splits if_splits prod.splits)
qed

lemma ensureToken_quiet:
  assumes "ensureToken J E c = (res, c')"
  shows "bc_cfg c' = bc_cfg c \<and> sent_since c c' (\<lambda>q. \<not> certPost (bc_cfg c) q)"
proof -
  obtain r c1 where renew: "renewSelf J E c = (r, c1)" by force
  obtain p c2 where raw: "doRaw J E ''POST'' ''v1/auth/token/renew-self'' None (bc_token c) (js_auth J) None c = (p, c2)" by force
  have "bc_cfg c2 = bc_cfg c \<and> sent_since c c2 (\<lambda>q. \<not> certPost (bc_cfg c) q)"
    by (rule doRaw_quiet [OF raw]) (auto simp: certPost_def certURL_def trimLeft_def hasPrefix_iff dest: renew_path)
  then have c1: "bc_cfg c1 = bc_cfg c" "sent_since c c1 (\<lambda>q. \<not> certPost (bc_cfg c) q)"
    using renew raw by (auto simp: renewSelf_def split: bao_result.splits option.splits)
  consider "c' = c" | "c' = c1" | "loginToken J E c1 = (res, c')" | "loginToken J E c = (res, c')"
    using assms renew by (auto simp: ensureToken_def Let_def split: if_splits bao_result.splits)
  then show ?thesis
    using c1 loginToken_quiet [of J E _ res c'] sent_since_trans by cases fastforce+
qed

text \<open>A request for a certificate: a token, then the same POST again and again.\<close>

lemma bao_do_sends:
  assumes "bao_do J E ''POST'' (''v1/'' @ bcfg_PKIMount (bc_cfg c) @ path) body c = (res, c')" "is_ask e"
    and "\<And>q p. brq_URL q = certURL (bc_cfg c) path \<Longrightarrow> js_marshal J body = Ok p \<Longrightarrow> brq_Payload q = Some p
      \<Longrightarrow> posted J escape (bc_cfg c) e q"
  shows "call_sends J escape [e] c c'"
proof -
  obtain r c1 where tok: "ensureToken J E c = (r, c1)" by force
  note c1 = ensureToken_quiet [OF tok]
  have quiet: "call_sends J escape [] c c1" using c1 by (intro call_sends_quiet) simp_all
  consider "c' = c1" | t p r where "js_marshal J body = Ok p"
      "doRequest J E ''POST'' (''v1/'' @ bcfg_PKIMount (bc_cfg c) @ path) (Some p) t c1 = (r, c')"
    using assms(1) tok by (auto simp: bao_do_def doRaw_def split: bao_result.splits sum.splits prod.splits if_splits)
  then have "call_sends J escape [e] c1 c'"
  proof cases
    case 2
    let ?q = "\<lparr>brq_Method = ''POST'', brq_URL = certURL (bc_cfg c) path, brq_Payload = Some p, brq_Token = t\<rparr>"
    obtain k where k: "bc_cfg c' = bc_cfg c1" "k \<le> Suc (nat (bcfg_MaxRetries (bc_cfg c1)))" "bc_sent c' = bc_sent c1 @ replicate k ?q"
      using 2(2) by (rule doRequest_frame) (auto simp: certURL_def trimLeft_def c1)
    moreover have "posted J escape (bc_cfg c) e ?q" using assms(3) 2(1) by simp
    moreover have "length (filter (certPost (bc_cfg c1)) (replicate k ?q)) \<le> k" by (metis length_filter_le length_replicate)
    ultimately show ?thesis using assms(2) c1 unfolding call_sends_def by (intro conjI exI [of _ "replicate k ?q"]) auto
  qed (simp add: call_sends_refl)
  from call_sends_trans [OF quiet this] show ?thesis by simp
qed

lemma Client_Sign_sends:
  assumes "Client_Sign J escape E role csrPEM opts c = (res, c')"
  shows "call_sends J escape [SignEv role csrPEM opts] c c'"
proof -
  consider "c' = c" | r where "bao_do J E ''POST'' (''v1/'' @ bcfg_PKIMount (bc_cfg c) @ ''/sign/'' @ escape role) (signBody csrPEM opts) c = (r, c')"
    using assms by (auto simp: Client_Sign_def split: if_splits bao_result.splits prod.splits)
  then show ?thesis
  proof cases
    case 2
    show ?thesis by (rule bao_do_sends [OF 2]) (simp_all add: certURL_def)
  qed (simp add: call_sends_refl)
qed

lemma Client_Issue_sends:
  assumes "Client_Issue J escape E role cn opts c = (res, c')"
  shows "call_sends J escape [IssueEv role cn opts] c c'"
proof -
  consider "c' = c" | r where "bao_do J E ''POST'' (''v1/'' @ bcfg_PKIMount (bc_cfg c) @ ''/issue/'' @ escape role) (issueBody cn opts) c = (r, c')"
    using assms by (auto simp: Client_Issue_def split: if_splits bao_result.splits prod.splits)
  then show ?thesis
  proof cases
    case 2
    show ?thesis by (rule bao_do_sends [OF 2]) (simp_all add: certURL_def)
  qed (simp add: call_sends_refl)
qed

lemma Client_CAChain_sends:
  assumes "Client_CAChain J E c = (res, c')"
  shows "call_sends J escape [] c c'"
proof -
  obtain r c1 where tok: "ensureToken J E c = (r, c1)" by force
  note c1 = ensureToken_quiet [OF tok]
  consider "c' = c1" | q t where "doRequest J E ''GET'' (''v1/'' @ bcfg_PKIMount (bc_cfg c) @ ''/ca_chain'') None t c1 = (q, c')"
    using assms tok by (auto simp: Client_CAChain_def doRawBytes_def split: bao_result.splits prod.splits if_splits)
  then have "bc_cfg c' = bc_cfg c1 \<and> sent_since c1 c' (\<lambda>q. \<not> certPost (bc_cfg c) q)"
  proof cases
    case 2
    then show ?thesis by (rule doRequest_frame) (auto simp: sent_since_def list_all_iff certPost_def)
  qed simp
  with c1 show ?thesis by (intro call_sends_quiet) (auto intro: sent_since_trans)
qed

section \<open>What a handler sends\<close>

text \<open>
  A stage of a handler over the OpenBao client: the events it adds account for the requests for a
  certificate that it sends.
\<close>

definition requests :: "baoRuntime \<Rightarrow> ('s, baoClient) broker_world \<Rightarrow> ('s, baoClient) broker_world \<Rightarrow> bool" where
  "requests R w w' = (\<exists>es. bw_trace w' = bw_trace w @ es \<and> call_sends (rt_json R) (rt_escape R) es (bw_bao w) (bw_bao w'))"

lemma requests_refl [simp]: "requests R w w"
  by (auto simp: requests_def intro: call_sends_refl)

lemma requests_trans: "requests R w w1 \<Longrightarrow> requests R w1 w2 \<Longrightarrow> requests R w w2"
  unfolding requests_def by (metis append.assoc call_sends_trans)

lemma requests_same: "bw_trace w' = bw_trace w \<Longrightarrow> bw_bao w' = bw_bao w \<Longrightarrow> requests R w w'"
  by (auto simp: requests_def intro: call_sends_refl)

lemma requests_event: "bw_trace w' = bw_trace w @ [e] \<Longrightarrow> bw_bao w' = bw_bao w \<Longrightarrow> requests R w w'"
  by (auto simp: requests_def intro: call_sends_refl)

lemma requests_audit [intro]:
  assumes "requests R w w1"
  shows "requests R w (est_audit op req d outcome err w1)" "requests R w (scep_audit sreq d outcome remote err w1)"
proof -
  have "requests R w (emit e w1)" for e by (rule requests_trans [OF assms], rule requests_event) simp_all
  then show "requests R w (est_audit op req d outcome err w1)" "requests R w (scep_audit sreq d outcome remote err w1)"
    by (simp_all add: est_audit_def scep_audit_def)
qed

lemma requests_callAuthorize: "requests R w (snd (callAuthorize az req w))"
  by (rule requests_event) simp_all

lemma requests_calls:
  "requests R w (snd (callSign (brokerEnroller R) t role csrPEM opts w))"
  "requests R w (snd (callIssue (brokerEnroller R) t role cn opts w))"
  "requests R w (snd (callCAChain (brokerEnroller R) t w))"
  using Client_Sign_sends [OF prod.collapse [symmetric]] Client_Issue_sends [OF prod.collapse [symmetric]]
    Client_CAChain_sends [OF prod.collapse [symmetric]]
  by (simp_all add: requests_def callSign_def callIssue_def callCAChain_def brokerEnroller_def bao_enroller_def clientResult_def split_def)

lemma requests_issue:
  "eh_enroller h = brokerEnroller R \<Longrightarrow> requests R w (snd (enrollIssue G X h op csrDER req d w))"
  "eh_enroller h = brokerEnroller R \<Longrightarrow> requests R w (snd (keyGenIssue G X h boundary req d w))"
  "sh_enroller sh = brokerEnroller R \<Longrightarrow> requests R w (snd (scep_issue L X sh nonce remote sreq d w))"
  by (auto simp: enrollIssue_def keyGenIssue_def scep_issue_def Let_def split_def requests_calls split: sum.split option.split)

lemma requests_chain:
  "eh_enroller h = brokerEnroller R \<Longrightarrow> requests R w (snd (caCerts X h w))"
  "sh_enroller sh = brokerEnroller R \<Longrightarrow> requests R w (snd (getCACert L X sh w))"
  "requests R w (snd (healthHandler (brokerEnroller R) r w))"
  by (simp_all add: caCerts_def getCACert_def caChainCerts_def healthHandler_def readyz_def Let_def split_def requests_calls)

lemma requests_authorized:
  assumes "\<And>d w1. requests R w1 (snd (issue d w1))"
  shows "requests R w (snd (authorized h op req issue w))"
proof -
  define p where "p = callAuthorize (eh_authz h) req w"
  have p: "requests R w (snd p)" unfolding p_def by (rule requests_callAuthorize)
  have "requests R (snd p) (snd (authorized h op req issue w))"
    unfolding authorized_def Let_def p_def [symmetric] by (auto simp: split_def assms split: sum.split)
  with p show ?thesis by (rule requests_trans)
qed

lemma est_requests:
  assumes "eh_enroller h = brokerEnroller R"
  shows "requests R w (snd (est_ServeHTTP G X h boundary r w))"
proof -
  have "requests R w (snd (enroll G X h r op label w))" "requests R w (snd (serverKeyGen G X h boundary r label w))" for op label
    using requests_issue(1,2) [OF assms] by (auto simp: enroll_def serverKeyGen_def requests_authorized split: sum.split)
  then show ?thesis
    using requests_chain(1) [OF assms] by (auto simp: est_ServeHTTP_def methodGuard_def split: option.split)
qed

lemma scep_requests:
  assumes "sh_enroller h = brokerEnroller R"
  shows "requests R w (snd (scep_ServeHTTP G L X h now nonce r w))"
proof -
  have "requests R w (snd (scep_process G L X h now nonce r req w))" for req
  proof -
    define w0 where "w0 = w\<lparr>bw_replay := snd (ReplayCache_Check G now (at_TransactionID (sr_Attributes req))
        (at_SenderNonce (sr_Attributes req)) (bw_replay w))\<rparr>"
    have w0: "requests R w w0" by (rule requests_same) (simp_all add: w0_def)
    have w1: "requests R w (snd (callAuthorize az req' w0))" for az req' by (rule requests_trans [OF w0 requests_callAuthorize])
    show ?thesis
      unfolding scep_process_def Let_def split_def w0_def [symmetric]
      using w0 w1 requests_trans [OF w1 requests_issue(3) [OF assms]] by (auto split: option.split sum.split)
  qed
  then show ?thesis
    using requests_chain(2) [OF assms] by (auto simp: scep_ServeHTTP_def pkiOperation_def Let_def split_def split: sum.split)
qed

lemma broker_requests:
  assumes "eh_enroller (br_est br) = brokerEnroller R" "\<And>h srv. br_scep br = Some (h, srv) \<Longrightarrow> sh_enroller h = brokerEnroller R"
  shows "requests R w (snd (broker_step G L X R br i w))"
  using est_requests [OF assms(1)] scep_requests [OF assms(2)] requests_chain(3)
  by (auto simp: broker_step_def split_def split: broker_input.split option.split)

lemma broker_run_requests:
  assumes "eh_enroller (br_est br) = brokerEnroller R" "\<And>h srv. br_scep br = Some (h, srv) \<Longrightarrow> sh_enroller h = brokerEnroller R"
  shows "requests R (br_world br) (broker_run G L X R br inputs)"
proof -
  have "requests R w (fold (\<lambda>i w. snd (broker_step G L X R br i w)) inputs w)" for w
  proof (induction inputs arbitrary: w)
    case (Cons i inputs)
    show ?case using requests_trans [OF broker_requests [OF assms] Cons.IH] by simp
  qed simp
  then show ?thesis by (simp add: broker_run_def)
qed

section \<open>From requests to decisions\<close>

text \<open>From a client that has sent nothing: its requests for a certificate, against the calls.\<close>

lemma requests_posts:
  assumes "requests R w w'" "bw_trace w = []" "bc_sent (bw_bao w) = []"
  shows "bc_cfg (bw_bao w') = bc_cfg (bw_bao w)"
    and "length (cert_posts (bw_bao w')) \<le> Suc (nat (bcfg_MaxRetries (bc_cfg (bw_bao w)))) * count_ev is_ask (bw_trace w')"
    and "\<forall>q\<in>set (cert_posts (bw_bao w')). \<exists>e\<in>set (bw_trace w'). posted (rt_json R) (rt_escape R) (bc_cfg (bw_bao w)) e q"
  using assms by (auto simp: requests_def call_sends_def cert_posts_def)

text \<open>Under a gated trace every call uses up a decision of its own, and asks for what it allowed.\<close>

lemma gated_asks: "issuance_gated g es \<Longrightarrow> count_ev is_ask es \<le> count_ev is_allow es + (if g = None then 0 else 1)"
proof (induction g es rule: issuance_gated.induct)
  case (2 g req res es)
  then show ?case by (cases "grantOf res") auto
qed (auto split: option.splits)

definition decided_ask :: "Decision \<Rightarrow> event \<Rightarrow> bool" where
  "decided_ask d e = (case e of
      SignEv role csr opts \<Rightarrow> role = dc_Role d \<and> opts = toSignOptions (dc_Constraints d)
    | IssueEv role cn opts \<Rightarrow> role = dc_Role d \<and> cn = cc_CommonName (dc_Constraints d)
        \<and> opts\<lparr>so_KeyType := '''', so_KeyBits := 0\<rparr> = toSignOptions (dc_Constraints d)
    | _ \<Rightarrow> False)"

lemma gated_decided:
  "issuance_gated g es \<Longrightarrow> e \<in> set es \<Longrightarrow> is_ask e \<Longrightarrow>
    (\<exists>d. g = Some d \<and> decided_ask d e) \<or> (\<exists>req d. AuthorizeEv req (Ok d) \<in> set es \<and> dc_Allow d \<and> decided_ask d e)"
proof (induction g es rule: issuance_gated.induct)
  case (2 g req res es)
  then show ?case by (auto simp: grantOf_def split: sum.splits if_splits)
qed (auto simp: decided_ask_def split: option.splits)

lemma posted_is_ask: "posted J escape cfg e q \<Longrightarrow> is_ask e"
  by (cases e) auto

lemma decided_ask_post:
  assumes "decided_ask d e" "posted J escape cfg e q"
  shows "decided_post J escape cfg d q"
proof (cases e)
  case (IssueEv role cn opts)
  have "opts = (opts\<lparr>so_KeyType := '''', so_KeyBits := 0\<rparr>)\<lparr>so_KeyType := so_KeyType opts, so_KeyBits := so_KeyBits opts\<rparr>" by simp
  also have "\<dots> = (toSignOptions (dc_Constraints d))\<lparr>so_KeyType := so_KeyType opts, so_KeyBits := so_KeyBits opts\<rparr>"
    using assms(1) IssueEv by (simp add: decided_ask_def)
  finally have "e = IssueEv (dc_Role d) (cc_CommonName (dc_Constraints d))
      ((toSignOptions (dc_Constraints d))\<lparr>so_KeyType := so_KeyType opts, so_KeyBits := so_KeyBits opts\<rparr>)"
    using assms(1) IssueEv by (simp add: decided_ask_def)
  then show ?thesis using assms(2) unfolding decided_post_def by blast
qed (use assms in \<open>auto simp: decided_post_def decided_ask_def\<close>)

end
