(* ===== verification/Main_Properties.thy ===== *)
theory Main_Properties
  imports Broker_Requests
begin

text \<open>
  Properties of the configured broker: what a validated configuration guarantees of the authorizer
  built from it, and what the two protocols deliver end to end.
\<close>

section \<open>Lemmas on the start of the broker\<close>

lemma startup_Ok:
  assumes "startup G O' X yaml R path dev devRole = Ok br"
  obtains cfg secretID caCert client bootstrapRoots deviceRoots az s where "Load O' path = Ok cfg"
    "bao_New (rt_validPEM R) (rt_net R) (clientConfig cfg secretID caCert) = Ok client"
    "TrustPools O' cfg = Ok (bootstrapRoots, deviceRoots)"
    "selectAuthorizer G O' yaml cfg dev devRole = Ok (az, s)"
    "est_NewHandler (estOptions cfg bootstrapRoots deviceRoots (brokerEnroller R) az) = Ok (br_est br)"
    "bw_authz (br_world br) = s" "bw_bao (br_world br) = client" "bw_trace (br_world br) = []"
    "br_limiter br = limits_New (limitsConfig cfg)"
    "\<And>sh srv. br_scep br = Some (sh, srv) \<Longrightarrow> sc_Enabled (cf_SCEP cfg) \<and>
      buildSCEPServer G O' X cfg deviceRoots (brokerEnroller R) az = Ok (sh, bw_replay (br_world br), srv)"
  using assms
  by (auto simp: startup_def Let_def intro: that split: sum.splits if_splits)

lemma est_NewHandler_authz:
  assumes "est_NewHandler (estOptions cfg bootstrapRoots deviceRoots e az) = Ok h"
  shows "eh_authz h = az" "eo_DeviceRoots (eh_opts h) = deviceRoots" "eh_enroller h = e"
    "eo_AllowedKeyTypes (eh_opts h) = po_AllowedKeyTypes (cf_Policy cfg)" "eo_BootstrapRoots (eh_opts h) = bootstrapRoots"
  using assms by (auto simp: est_NewHandler_def estOptions_def)

lemma buildSCEPServer_Ok:
  assumes "buildSCEPServer G O' X cfg deviceRoots e az = Ok (h, cache, srv)"
  obtains raCert raKey where "scep_NewHandler (scepOptions G X cfg raCert raKey deviceRoots e az) = Ok h"
    "cache = NewReplayCache (sc_ReplayTTL (cf_SCEP cfg)) (sc_ReplayMaxEntries (cf_SCEP cfg))"
  using assms by (auto simp: buildSCEPServer_def intro: that split: sum.splits)

lemma bao_New_Ok:
  "bao_New validPEM net cfg = Ok c \<Longrightarrow> bc_sent c = [] \<and> nat (bcfg_MaxRetries (bc_cfg c)) = nat (bcfg_MaxRetries cfg)"
  by (auto simp: bao_New_def split: if_splits)

text \<open>Both handlers call the client that was built, which has sent nothing yet.\<close>

lemma startup_requests:
  assumes "startup G O' X yaml R path dev devRole = Ok br" "Load O' path = Ok cfg"
  shows "eh_enroller (br_est br) = brokerEnroller R" "\<And>h srv. br_scep br = Some (h, srv) \<Longrightarrow> sh_enroller h = brokerEnroller R"
    "bw_trace (br_world br) = []" "bc_sent (bw_bao (br_world br)) = []"
    "nat (bcfg_MaxRetries (bc_cfg (bw_bao (br_world br)))) = nat (ob_MaxRetries (cf_OpenBao cfg))"
proof -
  obtain secretID caCert deviceRoots bootstrapRoots az where
    new: "bao_New (rt_validPEM R) (rt_net R) (clientConfig cfg secretID caCert) = Ok (bw_bao (br_world br))"
    and est: "est_NewHandler (estOptions cfg bootstrapRoots deviceRoots (brokerEnroller R) az) = Ok (br_est br)"
    and scep: "\<And>sh srv. br_scep br = Some (sh, srv) \<Longrightarrow>
      \<exists>cache. buildSCEPServer G O' X cfg deviceRoots (brokerEnroller R) az = Ok (sh, cache, srv)"
    and trace: "bw_trace (br_world br) = []"
    using assms(2) by (auto intro: startup_Ok [OF assms(1)])
  show "eh_enroller (br_est br) = brokerEnroller R" by (rule est_NewHandler_authz(3) [OF est])
  show "bw_trace (br_world br) = []" by (rule trace)
  from bao_New_Ok [OF new] show "bc_sent (bw_bao (br_world br)) = []"
    "nat (bcfg_MaxRetries (bc_cfg (bw_bao (br_world br)))) = nat (ob_MaxRetries (cf_OpenBao cfg))"
    by (simp_all add: clientConfig_def)
  fix h srv assume "br_scep br = Some (h, srv)"
  then obtain cache where "buildSCEPServer G O' X cfg deviceRoots (brokerEnroller R) az = Ok (h, cache, srv)" using scep by blast
  then obtain raCert raKey where "scep_NewHandler (scepOptions G X cfg raCert raKey deviceRoots (brokerEnroller R) az) = Ok h"
    by (rule buildSCEPServer_Ok)
  from scep_NewHandler_Ok(3) [OF this] show "sh_enroller h = brokerEnroller R" by (simp add: scepOptions_def)
qed

section \<open>Authentication from the configuration\<close>

lemma pipeline_secret:
  assumes "Pipeline_Authorize G (configPipeline G cfg iv ch) req s = (Ok d, s')" "dc_Allow d"
    and "buildChallenge O' cfg = Ok (ch, s)"
    and "po_RequireCPP (cf_Policy cfg) \<or> rq_ClientCert req = None \<and> \<not> po_AllowUnauthenticated (cf_Policy cfg)"
    and "po_RequireCPP (cf_Policy cfg) \<Longrightarrow> \<not> noBackend (ch_Backend (cf_Challenge cfg))"
  shows "rq_ChallengePassword req = getenv O' (ch_StaticSecretEnv (cf_Challenge cfg)) \<and> rq_ChallengePassword req \<noteq> ''''"
proof -
  let ?p = "configPipeline G cfg iv ch" and ?i = "resolveIdentity G req"
  obtain rec v where stage: "challengeStage ?p ?i rec (rq_ChallengePassword req) s = (Inr v, s')"
    and d: "d = grantStage ?p ?i rec v"
    using assms(1,2) by (rule Authorize_Allow)
  have cfgp: "pl_Challenge ?p = ch" "pl_RequireChallenge ?p = po_RequireCPP (cf_Policy cfg)"
    "pl_AllowUnauthenticated ?p = po_AllowUnauthenticated (cf_Policy cfg)"
    by (simp_all add: configPipeline_def)
  obtain validate where val: "ch = Some validate" "validate ?i (rq_ChallengePassword req) s = (Ok (), s')"
  proof (cases "po_RequireCPP (cf_Policy cfg)")
    case True
    then show thesis using challengeStage_required [OF stage] cfgp that by auto
  next
    case False
    with assms(4) have "rq_ClientCert req = None" "\<not> po_AllowUnauthenticated (cf_Policy cfg)" by auto
    with grantStage_Allow(1) [OF assms(2) [unfolded d]] cfgp have v by auto
    with stage have "challengeStage ?p ?i rec (rq_ChallengePassword req) s = (Inr True, s')" by simp
    from challengeStage_validated [OF this] show thesis using cfgp(1) that by auto
  qed
  then have "\<not> noBackend (ch_Backend (cf_Challenge cfg))" and
    secret: "ch = Some StaticSecret_Validate" "ss_secret s \<noteq> ''''" "ss_secret s = getenv O' (ch_StaticSecretEnv (cf_Challenge cfg))"
    using buildChallenge_Ok [OF assms(3)] by (auto split: if_splits)
  have "fst (StaticSecret_Validate ?i (rq_ChallengePassword req) s) = Ok ()" using val secret(1) by auto
  then show ?thesis using secret by (simp add: StaticSecret_Validate_Ok)
qed

text \<open>
  (C3) A broker that starts without the development flag holds what its configuration says: where the
  challenge password is required, and for every request without a verified client certificate unless
  unauthenticated enrollment was switched on, an allowed request carried the secret from the configured
  environment variable, and that secret is not empty.\<close>

theorem configured_secret_is_enforced:
  assumes "Load O' path = Ok cfg" and "selectAuthorizer G O' yaml cfg False devRole = Ok (az, s)"
    and "az req s = (Ok d, s')" and "dc_Allow d"
    and "po_RequireCPP (cf_Policy cfg) \<or> rq_ClientCert req = None \<and> \<not> po_AllowUnauthenticated (cf_Policy cfg)"
  shows "rq_ChallengePassword req = getenv O' (ch_StaticSecretEnv (cf_Challenge cfg)) \<and> rq_ChallengePassword req \<noteq> ''''"
proof -
  obtain iv ch where "buildChallenge O' cfg = Ok (ch, s)" "az = Pipeline_Authorize G (configPipeline G cfg iv ch)"
    using assms(2) by (rule selectAuthorizer_Ok)
  then show ?thesis
    using pipeline_secret assms(3,4,5) Validate_Ok(1) [OF Load_Ok [OF assms(1)]] by blast
qed

section \<open>Histories of the configured broker\<close>

lemma challengeStage_static_state:
  assumes "pl_Challenge p = None \<or> pl_Challenge p = Some StaticSecret_Validate"
  shows "snd (challengeStage p i rec x s) = s"
proof -
  have "snd (StaticSecret_Validate i x s) = s" by (simp add: StaticSecret_Validate_def)
  then obtain res where "StaticSecret_Validate i x s = (res, s)" by (metis prod.collapse)
  with assms show ?thesis by (elim disjE) (simp_all add: challengeStage_def split: sum.split)
qed

lemma configPipeline_state:
  assumes "buildChallenge O' cfg = Ok (ch, s)"
  shows "snd (Pipeline_Authorize G (configPipeline G cfg iv ch) req s') = s'"
proof -
  have "ch = None \<or> ch = Some StaticSecret_Validate" using buildChallenge_Ok [OF assms] by (auto split: if_splits)
  then show ?thesis
    by (simp add: Authorize_stages Let_def challengeStage_static_state configPipeline_def split: sum.split)
qed

lemma broker_decides:
  assumes "startup G O' X yaml R path False devRole = Ok br" "Load O' path = Ok cfg"
    and "TrustPools O' cfg = Ok (bootstrapRoots, deviceRoots)"
  shows "decides (eh_authz (br_est br)) (anchored L X bootstrapRoots deviceRoots) (bw_authz (br_world br)) (br_world br)
    (broker_run G L X R br inputs)"
proof -
  obtain az s where sel: "selectAuthorizer G O' yaml cfg False devRole = Ok (az, s)"
    and est: "est_NewHandler (estOptions cfg bootstrapRoots deviceRoots (brokerEnroller R) az) = Ok (br_est br)"
    and s: "bw_authz (br_world br) = s"
    and scep: "\<And>sh srv. br_scep br = Some (sh, srv) \<Longrightarrow>
      \<exists>cache. buildSCEPServer G O' X cfg deviceRoots (brokerEnroller R) az = Ok (sh, cache, srv)"
    using assms(2,3) by (auto intro: startup_Ok [OF assms(1)])
  have az: "eh_authz (br_est br) = az" "eo_DeviceRoots (eh_opts (br_est br)) = deviceRoots"
    "eo_BootstrapRoots (eh_opts (br_est br)) = bootstrapRoots"
    using est_NewHandler_authz [OF est] by simp_all
  have stable: "snd (az req s') = s'" for req s'
    using selectAuthorizer_Ok [OF sel] configPipeline_state by metis
  have sh: "scep_authorizer h = az \<and> pr_DeviceRoots (sh_parser h) = deviceRoots" if some: "br_scep br = Some (h, srv)" for h srv
  proof -
    obtain cache where "buildSCEPServer G O' X cfg deviceRoots (brokerEnroller R) az = Ok (h, cache, srv)"
      using scep [OF some] by blast
    then obtain raCert raKey where "scep_NewHandler (scepOptions G X cfg raCert raKey deviceRoots (brokerEnroller R) az) = Ok h"
      by (rule buildSCEPServer_Ok)
    from scep_NewHandler_Ok [OF this] show ?thesis by (simp add: scep_authorizer_def scepOptions_def)
  qed
  have "deciding_handler (broker_step G L X R br) az (anchored L X bootstrapRoots deviceRoots)"
  proof (unfold_locales, goal_cases)
    case (1 s w i)
    show ?case
    proof (cases i)
      case (EstIn boundary r)
      then show ?thesis using est_ServeHTTP_decides [of "br_est br" s w L X G boundary r] 1 az
        by (simp add: broker_step_def split_def)
    next
      case (ScepIn now nonce r)
      have "decides az (anchored L X bootstrapRoots deviceRoots) s w (snd (scep_ServeHTTP G L X h now nonce r w))"
        if "br_scep br = Some (h, srv)" for h srv
        using scep_ServeHTTP_decides [of h s w L X bootstrapRoots G now nonce r] 1 sh [OF that] by simp
      with ScepIn 1 show ?thesis by (auto simp: broker_step_def split_def split: option.split)
    next
      case (HealthIn r)
      then show ?thesis using 1
        by (auto simp: broker_step_def healthHandler_def readyz_def split_def Let_def undecided_def intro!: undecided_decides)
    qed
  qed
  from deciding_handler.fold_decides [OF this stable refl, of "br_world br" inputs] az show ?thesis
    by (simp add: broker_run_def)
qed

text \<open>
  (C1) Over every history of EST, SCEP and health requests to a broker started from its configuration,
  without the development flag and with unauthenticated enrollment off: the client is called for a
  certificate only under a decision that allowed, once per decision and with its role and names; because it
  retries, it sends OpenBao at most MaxRetries + 1 requests for a certificate for each decision that allowed, every one of
  them with the role and the names of such a decision; and a decision allows only a request whose client
  certificate one of the configured anchors vouches for, a renewal's the device anchor, or that carried the
  configured secret, which is not empty.\<close>

theorem broker_issues_to_authenticated:
  assumes "startup G O' X yaml R path False devRole = Ok br" and "Load O' path = Ok cfg"
    and "TrustPools O' cfg = Ok (bootstrapRoots, deviceRoots)" and "\<not> po_AllowUnauthenticated (cf_Policy cfg)"
    and "w = broker_run G L X R br inputs"
  shows "issuance_gated None (bw_trace w) \<and>
    length (cert_posts (bw_bao w)) \<le> Suc (nat (ob_MaxRetries (cf_OpenBao cfg))) * count_ev is_allow (bw_trace w) \<and>
    (\<forall>q\<in>set (cert_posts (bw_bao w)). \<exists>req d. AuthorizeEv req (Ok d) \<in> set (bw_trace w) \<and> dc_Allow d \<and>
       decided_post (rt_json R) (rt_escape R) (bc_cfg (bw_bao w)) d q) \<and>
    (\<forall>req d. AuthorizeEv req (Ok d) \<in> set (bw_trace w) \<and> dc_Allow d \<longrightarrow>
       anchored L X bootstrapRoots deviceRoots req \<and>
       (rq_ClientCert req \<noteq> None \<or>
        rq_ChallengePassword req = getenv O' (ch_StaticSecretEnv (cf_Challenge cfg)) \<and> rq_ChallengePassword req \<noteq> ''''))"
proof -
  note start = startup_requests [OF assms(1,2)]
  obtain az s where sel: "selectAuthorizer G O' yaml cfg False devRole = Ok (az, s)"
    and est: "est_NewHandler (estOptions cfg bootstrapRoots deviceRoots (brokerEnroller R) az) = Ok (br_est br)"
    and s: "bw_authz (br_world br) = s" and empty: "bw_trace (br_world br) = []"
    using assms(2,3) by (auto intro: startup_Ok [OF assms(1)])
  have gated: "issuance_gated None (bw_trace w)"
    using broker.fold_gated [of G L X R br inputs "br_world br"] by (auto simp: broker_run_def empty assms(5))
  have sent: "requests R (br_world br) w" unfolding assms(5) by (rule broker_run_requests [OF start(1,2)])
  note posts = requests_posts [OF sent start(3,4), unfolded start(5)]
  have few: "length (cert_posts (bw_bao w)) \<le> Suc (nat (ob_MaxRetries (cf_OpenBao cfg))) * count_ev is_allow (bw_trace w)"
    using order_trans [OF posts(2) mult_le_mono2 [OF gated_asks [OF gated]]] by simp
  have decided: "\<exists>req d. AuthorizeEv req (Ok d) \<in> set (bw_trace w) \<and> dc_Allow d \<and> decided_post (rt_json R) (rt_escape R) (bc_cfg (bw_bao w)) d q"
    if "q \<in> set (cert_posts (bw_bao w))" for q
    using posts(3) that gated_decided [OF gated] posted_is_ask decided_ask_post unfolding posts(1) by (metis option.distinct(1))
  have dec: "anchored L X bootstrapRoots deviceRoots req \<and> res = fst (az req s)"
    if "AuthorizeEv req res \<in> set (bw_trace w)" for req res
    using broker_decides [OF assms(1-3), of L inputs] that est_NewHandler_authz(1) [OF est]
    by (auto simp: decides_def empty s assms(5))
  obtain iv ch where ch: "buildChallenge O' cfg = Ok (ch, s)" "az = Pipeline_Authorize G (configPipeline G cfg iv ch)"
    using sel by (rule selectAuthorizer_Ok)
  have "rq_ChallengePassword req = getenv O' (ch_StaticSecretEnv (cf_Challenge cfg)) \<and> rq_ChallengePassword req \<noteq> ''''"
    if "fst (az req s) = Ok d" "dc_Allow d" "rq_ClientCert req = None" for req d
    using pipeline_secret [of G cfg iv ch req s d s O'] that assms(4) ch configPipeline_state [OF ch(1)]
      Validate_Ok(1) [OF Load_Ok [OF assms(2)]] by (metis prod.collapse)
  with gated few decided dec show ?thesis by metis
qed

section \<open>Concrete inputs\<close>

text \<open>A configuration with both protocols, the static challenge backend and one device anchor.\<close>

definition ex_config :: Config where
  "ex_config = Default
    \<lparr>cf_Server := (cf_Server Default)\<lparr>sv_TLSCertFile := ''tls.crt'', sv_TLSKeyFile := ''tls.key''\<rparr>,
     cf_OpenBao := (cf_OpenBao Default)\<lparr>ob_Address := ''https://bao'',
       ob_AppRole := (ob_AppRole (cf_OpenBao Default))\<lparr>ar_RoleID := ''broker''\<rparr>\<rparr>,
     cf_Trust := \<lparr>tr_BootstrapCAFile = '''', tr_DeviceCAFile = ''device.pem''\<rparr>,
     cf_RoleMap := \<lparr>rm_Default = ''device'', rm_Rules = []\<rparr>,
     cf_Policy := (cf_Policy Default)\<lparr>po_RequireCPP := True\<rparr>,
     cf_Challenge := \<lparr>ch_Backend = ''static'', ch_StaticSecretEnv = ''CHALLENGE''\<rparr>,
     cf_SCEP := (cf_SCEP Default)\<lparr>sc_Enabled := True, sc_RACertFile := ''ra.crt'', sc_RAKeyFile := ''ra.key''\<rparr>\<rparr>"

definition ex_os :: osEnv where
  "ex_os = \<lparr>os_LookupEnv = (\<lambda>name. if name = ''CHALLENGE'' then Some ''s3cret'' else Some ''secret-id''),
     os_ReadFile = (\<lambda>path. Ok path), os_AppendCerts = (\<lambda>pem. Some [ex_cert]),
     os_LoadKeyPair = (\<lambda>crt key. Ok ([''leaf''], key)), os_IsRSAKey = (\<lambda>_. True),
     os_YamlDecode = (\<lambda>raw c. Ok ex_config)\<rparr>"

definition ex_runtime :: "reply list \<Rightarrow> baoRuntime" where
  "ex_runtime net = \<lparr>rt_validPEM = (\<lambda>_. True), rt_net = net, rt_json = ex_json, rt_escape = (\<lambda>s. s),
     rt_ctxErr = ''context deadline exceeded'', rt_env = (\<lambda>_. ex_env)\<rparr>"

lemma ex_load: "Load ex_os ''config.yaml'' = Ok ex_config"
  by (simp add: Load_def ex_os_def ex_config_def Default_def Validate_def validateSecretSource_def validateSCEP_def noBackend_def)

lemma ex_pools: "TrustPools ex_os ex_config = Ok (None, Some [ex_cert])"
  by code_simp

lemma ex_select:
  "selectAuthorizer exampleLib ex_os yaml ex_config False '''' =
    Ok (Pipeline_Authorize exampleLib (configPipeline exampleLib ex_config (Some NoInventory_Lookup) (Some StaticSecret_Validate)),
        \<lparr>ss_secret = ''s3cret''\<rparr>)"
  by (simp add: selectAuthorizer_def buildInventory_def buildChallenge_def NewStaticSecret_def getenv_def ex_os_def
      ex_config_def Default_def)

lemma ex_startup:
  obtains br where "startup exampleLib ex_os ex_x509 yaml (ex_runtime net) ''config.yaml'' False '''' = Ok br"
proof -
  have steps: "ResolveSecretID ex_os ex_config = Ok ''secret-id''" "OpenBaoCACert ex_os ex_config = Ok []"
    "ServerTLSCertificate ex_os ex_config = Ok ([''leaf''], ''tls.key'')" "SCEPRAIdentity ex_os ex_x509 ex_config = Ok (ex_cert, ''ra.key'')"
    "sc_Enabled (cf_SCEP ex_config)"
    by code_simp+
  have client: "\<exists>c. bao_New (rt_validPEM (ex_runtime net)) (rt_net (ex_runtime net)) (clientConfig ex_config ''secret-id'' []) = Ok c"
    by (simp add: bao_New_def clientConfig_def ex_config_def Default_def)
  let ?az = "Pipeline_Authorize exampleLib (configPipeline exampleLib ex_config (Some NoInventory_Lookup) (Some StaticSecret_Validate))"
  obtain h where h: "est_NewHandler (estOptions ex_config None (Some [ex_cert]) (brokerEnroller (ex_runtime net)) ?az) = Ok h"
    by (simp add: est_NewHandler_def estOptions_def)
  obtain sh where "scep_NewHandler (scepOptions exampleLib ex_x509 ex_config ex_cert ''ra.key'' (Some [ex_cert])
      (brokerEnroller (ex_runtime net)) ?az) = Ok sh"
    by (simp add: scep_NewHandler_def scepOptions_def)
  with h client steps that show thesis
    by (auto simp: startup_def buildSCEPServer_def ex_load ex_pools ex_select Let_def)
qed


lemma ex_reenrollment_allowed:
  "case fst (Pipeline_Authorize exampleLib (configPipeline exampleLib ex_config (Some NoInventory_Lookup) (Some StaticSecret_Validate))
     (ex_req OpSimpleReenroll (Some ex_cert) ''s3cret'') \<lparr>ss_secret = ''s3cret''\<rparr>) of Inl _ \<Rightarrow> False | Inr d \<Rightarrow> dc_Allow d"
  by code_simp

theorem configured_secret_is_enforced_witness:
  "rq_ChallengePassword (ex_req OpSimpleReenroll (Some ex_cert) ''s3cret'') = getenv ex_os ''CHALLENGE''"
proof -
  let ?az = "Pipeline_Authorize exampleLib (configPipeline exampleLib ex_config (Some NoInventory_Lookup) (Some StaticSecret_Validate))"
    and ?req = "ex_req OpSimpleReenroll (Some ex_cert) ''s3cret''"
  obtain d where d: "fst (?az ?req \<lparr>ss_secret = ''s3cret''\<rparr>) = Ok d" "dc_Allow d"
    using ex_reenrollment_allowed by (auto split: sum.splits)
  have "po_RequireCPP (cf_Policy ex_config)" "ch_StaticSecretEnv (cf_Challenge ex_config) = ''CHALLENGE''" by code_simp+
  with configured_secret_is_enforced [OF ex_load ex_select _ d(2), of ?req] d(1) show ?thesis
    by (metis prod.collapse)
qed


section \<open>Renewals end to end\<close>

text \<open>Names a certificate already has, or that one of its names matches as a pattern.\<close>

definition name_of :: "golib \<Rightarrow> certificate \<Rightarrow> string \<Rightarrow> bool" where
  "name_of G leaf n = (n \<in> set (nm_CommonName (crt_Subject leaf) # crt_DNSNames leaf) \<or>
    (\<exists>p\<in>set (nm_CommonName (crt_Subject leaf) # crt_DNSNames leaf). globMatch G p n))"

text \<open>
  (C2) Identity continuity, end to end. Whatever a broker configured for identity mode delivers from
  simplereenroll, the device presented a certificate that the device anchor vouches for, and the new
  certificate has its common name up to case, where it has one, only DNS names that the presented certificate has or
  matches, and no IP address or URI.\<close>

theorem renewal_keeps_identity:
  assumes "startup G O' X yaml R path False devRole = Ok br" and "Load O' path = Ok cfg"
    and "po_SANConstraint (cf_Policy cfg) = SANModeIdentity"
    and "enroll G X (br_est br) r OpSimpleReenroll label w = (resp, w')" and "hr_Status resp = StatusOK"
  shows "\<exists>leaf rest pool leafDER cert p7.
    hq_PeerCertificates r = Some (leaf # rest) \<and> eo_DeviceRoots (eh_opts (br_est br)) = Some pool \<and>
    xl_verify X leaf pool rest = None \<and>
    DegenerateCertsOnly [leafDER] = Ok p7 \<and> hr_Body resp = base64Lines p7 \<and> xl_parseCert X leafDER = Ok cert \<and>
    (nm_CommonName (crt_Subject leaf) \<noteq> '''' \<longrightarrow>
       equalFoldASCII (nm_CommonName (crt_Subject cert)) (nm_CommonName (crt_Subject leaf))) \<and>
    (\<forall>n\<in>set (crt_DNSNames cert). \<exists>m. equalFoldASCII m n \<and> name_of G leaf m) \<and>
    crt_IPAddresses cert = [] \<and> crt_URIs cert = []"
proof -
  obtain az s bootstrapRoots deviceRoots where sel: "selectAuthorizer G O' yaml cfg False devRole = Ok (az, s)"
    and est: "est_NewHandler (estOptions cfg bootstrapRoots deviceRoots (brokerEnroller R) az) = Ok (br_est br)"
    using assms(2) by (auto intro: startup_Ok [OF assms(1)])
  note az = est_NewHandler_authz(1) [OF est]
  obtain iv ch where pipe: "az = Pipeline_Authorize G (configPipeline G cfg iv ch)" using sel by (rule selectAuthorizer_Ok)
  obtain req d leafDER cert p7 where ident: "clientIdentity X (br_est br) r OpSimpleReenroll = Ok (rq_ClientCert req)"
    and d: "Pipeline_Authorize G (configPipeline G cfg iv ch) req (bw_authz w) = (Ok d, snd (az req (bw_authz w)))" "dc_Allow d"
    and cert: "xl_parseCert X leafDER = Ok cert" "VerifyIssued G (Some cert) (dc_Constraints d) = Ok ()"
    and p7: "DegenerateCertsOnly [leafDER] = Ok p7" "hr_Body resp = base64Lines p7"
    using enroll_delivered [OF assms(4,5)] az pipe by metis
  obtain leaf where leaf: "VerifyPeer X (hq_PeerCertificates r) (eo_DeviceRoots (eh_opts (br_est br))) = Ok leaf"
    "rq_ClientCert req = Some leaf"
    using ident by (auto simp: clientIdentity_def Let_def split: sum.splits)
  note d' = d [unfolded configPipeline_def]
  have names: "verifyNames G cert (dc_Constraints d) = Ok ()"
    using pipe.allow_named [OF d'] cert(2) by (auto simp: VerifyIssued_Ok_iff)
  have mode: "sc_Mode (NewStandardConstraints (po_SANConstraint (cf_Policy cfg)) (po_MaxValidity (cf_Policy cfg))) = SANModeIdentity"
    using assms(3) by (simp add: NewStandardConstraints_def SANModeIdentity_def)
  note pins = identity_mode_pins [OF d' mode leaf(2)]
  have "name_of G leaf m" if "m \<in> set (permittedDNS (dc_Constraints d))" for m
    using that pins by (auto simp: permittedDNS_def name_of_def split: if_splits)
  with names pins show ?thesis
    using leaf(1) cert(1) p7 by (fastforce simp: verifyNames_Ok_iff containsFold_iff VerifyPeer_Ok)
qed


definition ex_authorizer :: "StaticSecret authorizer" where
  "ex_authorizer = Pipeline_Authorize exampleLib
    (configPipeline exampleLib ex_config (Some NoInventory_Lookup) (Some StaticSecret_Validate))"

definition ex_broker_est :: "(StaticSecret, baoClient) est_handler" where
  "ex_broker_est = \<lparr>eh_opts = estOptions ex_config None (Some [ex_cert]) (brokerEnroller (ex_runtime [])) ex_authorizer,
     eh_enroller = brokerEnroller (ex_runtime []), eh_authz = ex_authorizer, eh_maxReq = 262144, eh_upstream = 20 * second\<rparr>"

lemma ex_startup_est:
  assumes "startup exampleLib ex_os ex_x509 yaml (ex_runtime []) ''config.yaml'' False '''' = Ok br"
  shows "br_est br = ex_broker_est"
proof -
  have est: "est_NewHandler (estOptions ex_config None (Some [ex_cert]) (brokerEnroller (ex_runtime [])) ex_authorizer) = Ok (br_est br)"
    using assms by (rule startup_Ok) (auto simp: ex_load ex_pools ex_select ex_authorizer_def)
  have "sv_MaxRequestBytes (cf_Server ex_config) = 0" "li_UpstreamTimeout (cf_Limits ex_config) = 20 * second" "\<not> 20 * second \<le> 0"
    by code_simp+
  with est show ?thesis
    by (simp add: est_NewHandler_def ex_broker_est_def defaultMaxRequestBytes_def estOptions_def)
qed

lemma ex_broker_delivers:
  "hr_Status (fst (enroll exampleLib ex_x509 ex_broker_est (ex_post ''simplereenroll'') OpSimpleReenroll ''''
     \<lparr>bw_authz = \<lparr>ss_secret = ''s3cret''\<rparr>, bw_bao = ex_client [Reply 200 ''auth'', Reply 200 ''leaf''],
      bw_replay = NewReplayCache 0 0, bw_trace = []\<rparr>)) = StatusOK"
  by code_simp

theorem renewal_keeps_identity_witness:
  "\<exists>(leaf::certificate) (cert::certificate). equalFoldASCII (nm_CommonName (crt_Subject cert)) (nm_CommonName (crt_Subject leaf)) \<and>
     hq_PeerCertificates (ex_post ''simplereenroll'') = Some [leaf] \<and> crt_IPAddresses cert = []"
proof -
  obtain br where br: "startup exampleLib ex_os ex_x509 (\<lambda>_. Ok []) (ex_runtime []) ''config.yaml'' False '''' = Ok br"
    by (rule ex_startup)
  have mode: "po_SANConstraint (cf_Policy ex_config) = SANModeIdentity" by code_simp
  have cn: "nm_CommonName (crt_Subject ex_cert) \<noteq> ''''" "hq_PeerCertificates (ex_post ''simplereenroll'') = Some [ex_cert]"
    by (simp_all add: ex_cert_def ex_post_def)
  from renewal_keeps_identity [OF br ex_load mode, unfolded ex_startup_est [OF br], OF prod.collapse [symmetric] ex_broker_delivers] cn
  show ?thesis by auto
qed

text \<open>One renewal, whose first answer from OpenBao is lost: one decision, and the request is sent twice.\<close>

definition ex_lost :: baoRuntime where
  "ex_lost = ex_runtime [Reply 200 ''auth'', NetErr ''connection reset'', Reply 200 ''leaf'']"

definition ex_broker_world :: "(StaticSecret, baoClient) broker_world" where
  "ex_broker_world = \<lparr>bw_authz = \<lparr>ss_secret = ''s3cret''\<rparr>,
     bw_bao = projr (bao_New (\<lambda>_. True) (rt_net ex_lost) (clientConfig ex_config ''secret-id'' [])),
     bw_replay = NewReplayCache (sc_ReplayTTL (cf_SCEP ex_config)) (sc_ReplayMaxEntries (cf_SCEP ex_config)), bw_trace = []\<rparr>"

lemma ex_startup_lost:
  assumes "startup exampleLib ex_os ex_x509 (\<lambda>_. Ok []) ex_lost ''config.yaml'' False '''' = Ok br"
  shows "br_est br = ex_broker_est" "br_world br = ex_broker_world"
proof -
  have steps: "ResolveSecretID ex_os ex_config = Ok ''secret-id''" "OpenBaoCACert ex_os ex_config = Ok []"
    "ServerTLSCertificate ex_os ex_config = Ok ([''leaf''], ''tls.key'')" "SCEPRAIdentity ex_os ex_x509 ex_config = Ok (ex_cert, ''ra.key'')"
    "sc_Enabled (cf_SCEP ex_config)" "sv_MaxRequestBytes (cf_Server ex_config) = 0" "li_UpstreamTimeout (cf_Limits ex_config) = 20 * second"
    "\<not> 20 * second \<le> 0"
    by code_simp+
  have same: "brokerEnroller ex_lost = brokerEnroller (ex_runtime [])" by (simp add: brokerEnroller_def ex_lost_def ex_runtime_def)
  have client: "bao_New (rt_validPEM ex_lost) (rt_net ex_lost) (clientConfig ex_config ''secret-id'' []) = Ok (bw_bao ex_broker_world)"
    by (simp add: ex_broker_world_def bao_New_def clientConfig_def ex_config_def Default_def ex_lost_def ex_runtime_def)
  have est: "est_NewHandler (estOptions ex_config None (Some [ex_cert]) (brokerEnroller (ex_runtime [])) ex_authorizer) = Ok ex_broker_est"
    using steps by (simp add: est_NewHandler_def ex_broker_est_def defaultMaxRequestBytes_def estOptions_def)
  show "br_est br = ex_broker_est" "br_world br = ex_broker_world"
    using assms client steps est
    by (auto simp: startup_def buildSCEPServer_def ex_load ex_pools ex_select same ex_authorizer_def ex_broker_world_def Let_def split: sum.splits)
qed

lemma ex_lost_run:
  "let w = snd (est_ServeHTTP exampleLib ex_x509 ex_broker_est ''b'' (ex_post ''simplereenroll'') ex_broker_world)
   in length (cert_posts (bw_bao w)) = 2 \<and> count_ev is_ask (bw_trace w) = 1 \<and> count_ev is_allow (bw_trace w) = 1"
  by code_simp

theorem broker_issues_to_authenticated_witness:
  "\<exists>br w. startup exampleLib ex_os ex_x509 (\<lambda>_. Ok []) ex_lost ''config.yaml'' False '''' = Ok br \<and>
     w = broker_run exampleLib (ex_pkcs7 PKCSReq) ex_x509 ex_lost br [EstIn ''b'' (ex_post ''simplereenroll'')] \<and>
     length (cert_posts (bw_bao w)) = 2 \<and> count_ev is_allow (bw_trace w) = 1 \<and>
     (\<exists>req d. AuthorizeEv req (Ok d) \<in> set (bw_trace w) \<and> dc_Allow d \<and>
        decided_post (rt_json ex_lost) (rt_escape ex_lost) (bc_cfg (bw_bao w)) d (hd (cert_posts (bw_bao w))))"
proof -
  obtain br where br: "startup exampleLib ex_os ex_x509 (\<lambda>_. Ok []) ex_lost ''config.yaml'' False '''' = Ok br"
    unfolding ex_lost_def by (rule ex_startup)
  define w where "w = broker_run exampleLib (ex_pkcs7 PKCSReq) ex_x509 ex_lost br [EstIn ''b'' (ex_post ''simplereenroll'')]"
  have run: "length (cert_posts (bw_bao w)) = 2" "count_ev is_allow (bw_trace w) = 1"
    using ex_lost_run ex_startup_lost [OF br] by (simp_all add: w_def broker_run_def broker_step_def split_def Let_def)
  have "\<not> po_AllowUnauthenticated (cf_Policy ex_config)" by code_simp
  from broker_issues_to_authenticated [OF br ex_load ex_pools this w_def]
  have "\<forall>q\<in>set (cert_posts (bw_bao w)). \<exists>req d. AuthorizeEv req (Ok d) \<in> set (bw_trace w) \<and> dc_Allow d \<and>
      decided_post (rt_json ex_lost) (rt_escape ex_lost) (bc_cfg (bw_bao w)) d q" by blast
  moreover have "hd (cert_posts (bw_bao w)) \<in> set (cert_posts (bw_bao w))" using run(1) by (intro hd_in_set) auto
  ultimately show ?thesis using run br w_def by blast
qed

section \<open>SCEP as configured\<close>

lemma startup_scep:
  assumes "startup G O' X yaml R path dev devRole = Ok br" "Load O' path = Ok cfg" "br_scep br = Some (h, srv)"
  obtains raCert raKey deviceRoots az where
    "scep_NewHandler (scepOptions G X cfg raCert raKey deviceRoots (brokerEnroller R) az) = Ok h"
    "eh_authz (br_est br) = az"
proof (rule startup_Ok [OF assms(1)])
  fix cfg' bootstrapRoots deviceRoots az
  assume "Load O' path = Ok cfg'" and est: "est_NewHandler (estOptions cfg' bootstrapRoots deviceRoots (brokerEnroller R) az) = Ok (br_est br)"
    and "\<And>sh srv. br_scep br = Some (sh, srv) \<Longrightarrow> sc_Enabled (cf_SCEP cfg') \<and>
      buildSCEPServer G O' X cfg' deviceRoots (brokerEnroller R) az = Ok (sh, bw_replay (br_world br), srv)"
  with assms(2,3) have "buildSCEPServer G O' X cfg deviceRoots (brokerEnroller R) az = Ok (h, bw_replay (br_world br), srv)"
    by simp
  then obtain raCert raKey where "scep_NewHandler (scepOptions G X cfg raCert raKey deviceRoots (brokerEnroller R) az) = Ok h"
    by (rule buildSCEPServer_Ok)
  then show thesis using est_NewHandler_authz(1) [OF est] by (rule that)
qed

text \<open>
  (C23) Unless the configuration allows SHA-1, the SCEP endpoint accepts only messages with one signature
  over SHA-256, SHA-384 or SHA-512.\<close>

theorem scep_refuses_sha1:
  assumes "startup G O' X yaml R path dev devRole = Ok br" and "Load O' path = Ok cfg"
    and "br_scep br = Some (h, srv)" and "\<not> sc_AllowSHA1 (cf_SCEP cfg)" and "Parse L (sh_parser h) body = Ok req"
  shows "\<exists>p7 alg. pl_Parse L body = Ok p7 \<and> p7_Signers p7 = [alg] \<and> alg \<in> set DefaultDigests \<and> alg \<noteq> SHA1"
proof -
  obtain raCert raKey deviceRoots az where
    new: "scep_NewHandler (scepOptions G X cfg raCert raKey deviceRoots (brokerEnroller R) az) = Ok h"
    using startup_scep [OF assms(1-3)] by metis
  obtain signed where "VerifySignature L (pr_Verifier (sh_parser h)) body = Ok signed" using Parse_Ok [OF assms(5)] by metis
  then have "cms_parse L (pr_Verifier (sh_parser h)) body = Ok (sg_p7 signed)" using VerifySignature_Ok by metis
  moreover have "pr_Verifier (sh_parser h) = \<lparr>vf_Digests = DefaultDigests\<rparr>"
    using scep_NewHandler_Ok(6) [OF new] assms(4) by (simp add: scepOptions_def scepDigests_def)
  ultimately show ?thesis by (auto simp: cms_parse_Ok DefaultDigests_def SHA1_def SHA256_def SHA384_def SHA512_def)
qed


lemma startup_scep_enabled:
  assumes "startup G O' X yaml R path dev devRole = Ok br" "Load O' path = Ok cfg" "sc_Enabled (cf_SCEP cfg)"
  shows "\<exists>h srv. br_scep br = Some (h, srv)"
  using assms by (auto simp: startup_def Let_def split: sum.splits if_splits)

definition ex_broker_parser :: Parser where
  "ex_broker_parser = \<lparr>pr_RACert = Some ex_cert, pr_RAKey = Some ''ra.key'', pr_DeviceRoots = Some [ex_cert],
     pr_Verifier = \<lparr>vf_Digests = DefaultDigests\<rparr>, pr_ParseCSR = Some (\<lambda>der. ParseCSRLimited ex_x509 der 2048 8192)\<rparr>"

lemma ex_startup_scep:
  obtains br h srv where "startup exampleLib ex_os ex_x509 (\<lambda>_. Ok []) (ex_runtime []) ''config.yaml'' False '''' = Ok br"
    "br_scep br = Some (h, srv)" "sh_parser h = ex_broker_parser"
proof -
  obtain br where br: "startup exampleLib ex_os ex_x509 (\<lambda>_. Ok []) (ex_runtime []) ''config.yaml'' False '''' = Ok br"
    by (rule ex_startup)
  have facts: "sc_Enabled (cf_SCEP ex_config)" "\<not> sc_AllowSHA1 (cf_SCEP ex_config)"
    "po_MinRSABits (cf_Policy ex_config) = 2048" "po_MaxRSABits (cf_Policy ex_config) = 8192"
    "SCEPRAIdentity ex_os ex_x509 ex_config = Ok (ex_cert, ''ra.key'')" by code_simp+
  obtain h srv where h: "br_scep br = Some (h, srv)" using startup_scep_enabled [OF br ex_load facts(1)] by blast
  have "sh_parser h = ex_broker_parser"
    using br by (rule startup_Ok) (use h facts in \<open>auto simp: ex_load ex_pools ex_select buildSCEPServer_def scep_NewHandler_def
        scepOptions_def scepDigests_def ex_broker_parser_def split: if_splits sum.splits\<close>)
  with br h show thesis by (rule that)
qed

lemma ex_broker_parse: "\<not> isl (Parse (ex_pkcs7 PKCSReq) ex_broker_parser ''message'')"
  by code_simp

theorem scep_refuses_sha1_witness:
  "\<exists>p7 alg. pl_Parse (ex_pkcs7 PKCSReq) ''message'' = Ok p7 \<and> p7_Signers p7 = [alg] \<and> alg \<noteq> SHA1"
proof -
  obtain br h srv where br: "startup exampleLib ex_os ex_x509 (\<lambda>_. Ok []) (ex_runtime []) ''config.yaml'' False '''' = Ok br"
    "br_scep br = Some (h, srv)" "sh_parser h = ex_broker_parser" by (rule ex_startup_scep)
  obtain req where "Parse (ex_pkcs7 PKCSReq) (sh_parser h) ''message'' = Ok req"
    using ex_broker_parse br(3) by (metis sum.collapse(2))
  moreover have "\<not> sc_AllowSHA1 (cf_SCEP ex_config)" by code_simp
  ultimately show ?thesis using scep_refuses_sha1 [OF br(1) ex_load br(2)] by blast
qed


text \<open>
  (C24) The list of allowed key types binds EST only. An EST request reaches the policy only with a key of
  an allowed type; the parser the SCEP endpoint is wired with accepts every certificate request that
  proves possession and whose RSA key, if it is one, is within the bounds, whatever its key type.\<close>

theorem scep_ignores_key_types:
  assumes "startup G O' X yaml R path dev devRole = Ok br" and "Load O' path = Ok cfg" and "br_scep br = Some (h, srv)"
  shows "(\<forall>r op label der req csr. frontDoor G X (br_est br) r op label = Ok (der, req) \<and> rq_CSR req = Some csr \<longrightarrow>
      ValidateKeyType csr (po_AllowedKeyTypes (cf_Policy cfg)) = Ok ()) \<and>
    (\<exists>parse. pr_ParseCSR (sh_parser h) = Some parse \<and>
      (\<forall>der csr. xl_parseCSR X der = Ok csr \<and> xl_checkSig X csr = None \<and>
        rsa_within (po_MinRSABits (cf_Policy cfg)) (po_MaxRSABits (cf_Policy cfg)) (csr_PublicKey csr) \<longrightarrow> parse der = Ok csr))"
proof
  obtain az bootstrapRoots deviceRoots where
    "est_NewHandler (estOptions cfg bootstrapRoots deviceRoots (brokerEnroller R) az) = Ok (br_est br)"
    using assms(2) by (auto intro: startup_Ok [OF assms(1)])
  from est_NewHandler_authz(4) [OF this]
  show "\<forall>r op label der req csr. frontDoor G X (br_est br) r op label = Ok (der, req) \<and> rq_CSR req = Some csr \<longrightarrow>
      ValidateKeyType csr (po_AllowedKeyTypes (cf_Policy cfg)) = Ok ()"
    by (metis frontDoor_Ok option.inject)
next
  obtain raCert raKey deviceRoots az where
    new: "scep_NewHandler (scepOptions G X cfg raCert raKey deviceRoots (brokerEnroller R) az) = Ok h"
    using startup_scep [OF assms(1-3)] by metis
  show "\<exists>parse. pr_ParseCSR (sh_parser h) = Some parse \<and>
      (\<forall>der csr. xl_parseCSR X der = Ok csr \<and> xl_checkSig X csr = None \<and>
        rsa_within (po_MinRSABits (cf_Policy cfg)) (po_MaxRSABits (cf_Policy cfg)) (csr_PublicKey csr) \<longrightarrow> parse der = Ok csr)"
    using scep_NewHandler_Ok(5) [OF new] by (simp add: scepOptions_def ParseCSRLimited_Ok)
qed

theorem scep_ignores_key_types_witness:
  "\<exists>parse. pr_ParseCSR ex_broker_parser = Some parse \<and> parse ''csr'' = Ok ex_csr"
proof -
  obtain br h srv where br: "startup exampleLib ex_os ex_x509 (\<lambda>_. Ok []) (ex_runtime []) ''config.yaml'' False '''' = Ok br"
    "br_scep br = Some (h, srv)" "sh_parser h = ex_broker_parser" by (rule ex_startup_scep)
  have "xl_parseCSR ex_x509 ''csr'' = Ok ex_csr" "xl_checkSig ex_x509 ex_csr = None"
    "rsa_within (po_MinRSABits (cf_Policy ex_config)) (po_MaxRSABits (cf_Policy ex_config)) (csr_PublicKey ex_csr)"
    by (simp_all add: ex_x509_def) code_simp
  with scep_ignores_key_types [OF br(1) ex_load br(2)] br(3) show ?thesis by metis
qed

section \<open>Listeners and settings\<close>

text \<open>Only the EST listener speaks TLS, with the configured key pair; the other two are plain HTTP.\<close>

lemma listener_transport:
  assumes "startup G O' X yaml R path dev devRole = Ok br" "Load O' path = Ok cfg"
  shows "\<exists>serverCert. ServerTLSCertificate O' cfg = Ok serverCert \<and> hs_TLSConfig (br_estSrv br) = Some (TLSConfig serverCert)"
    and "hs_TLSConfig (br_healthSrv br) = None"
    and "br_scep br = Some (h, srv) \<Longrightarrow> hs_TLSConfig srv = None"
  using assms by (auto simp: startup_def buildSCEPServer_def listenerFor_def Let_def split: sum.splits if_splits)

text \<open>The surroundings of the process, with another audit path in the configuration file.\<close>

definition with_audit_path :: "string \<Rightarrow> osEnv \<Rightarrow> osEnv" where
  "with_audit_path a O' = O'\<lparr>os_YamlDecode := \<lambda>raw c. map_sum id (\<lambda>c. c\<lparr>cf_AuditPath := a\<rparr>) (os_YamlDecode O' raw c)\<rparr>"

lemma with_audit_path_sels [simp]:
  "os_LookupEnv (with_audit_path a O') = os_LookupEnv O'" "os_ReadFile (with_audit_path a O') = os_ReadFile O'"
  "os_AppendCerts (with_audit_path a O') = os_AppendCerts O'" "os_LoadKeyPair (with_audit_path a O') = os_LoadKeyPair O'"
  "os_IsRSAKey (with_audit_path a O') = os_IsRSAKey O'"
  by (simp_all add: with_audit_path_def)



end
