(* ===== verification/Rate_Limits_Properties.thy ===== *)
theory Rate_Limits_Properties
  imports Rate_Limits
begin

text \<open>
  What the DoS controls of \<open>src/internal/limits/limits.go\<close> guarantee: the budget of the listener,
  the bound of the client table and of the concurrent handlers, over every interleaving of
  requests, every clock and every order of iteration over the table.
\<close>

section \<open>Example configurations\<close>

definition ex_limits :: limits_Config where
  "ex_limits = \<lparr>lc_PerClientRate = 0, lc_PerClientBurst = 0, lc_GlobalRate = 0, lc_GlobalBurst = 0,
     lc_MaxConcurrent = 1, lc_AcquireTimeout = 0, lc_MaxClients = 0\<rparr>"

lemma rounding_id: "rounding (\<lambda>x. x)" by (simp add: rounding_def mono_def)

lemma rel_error_id: "rel_error 0 (\<lambda>x. x)" by (simp add: rel_error_def)

section \<open>The budget of the listener\<close>

lemma global_first:
  assumes "0 \<le> rate" "0 \<le> burst"
  shows "allow_run fl key ((now, order) # cs) (newKeyedLimiter rate burst 1) =
    allow_run fl key ((now, order) # cs)
      ((newKeyedLimiter rate burst 1)\<lparr>kl_buckets := gm_put key \<lparr>bk_tokens = burst, bk_last = now\<rparr> gm_empty\<rparr>)"
  using allow_fresh [of "newKeyedLimiter rate burst 1" key fl now order] assms
  by (simp add: newKeyedLimiter_def gm.get_emp gm.len_emp)

lemma listener_run:
  assumes fl: "rounding fl" "rel_error e fl" and rate: "0 \<le> rate" and burst: "0 \<le> burst" "fl burst = burst"
    and times: "list_all (\<lambda>c. fst c \<le> t) ((now, order) # cs)"
  shows "of_nat (fst (allow_run fl key ((now, order) # cs) (newKeyedLimiter rate burst 1)))
      \<le> burst + 2 * e * burst * of_nat (length cs + 1) + rate * (1 + e) ^ 5 * (of_int (t - now) / 1000000000)"
proof -
  define b where "b = \<lparr>bk_tokens = burst, bk_last = now\<rparr>"
  define k where "k = (newKeyedLimiter rate burst 1)\<lparr>kl_buckets := gm_put key b gm_empty\<rparr>"
  define ts where "ts = map fst ((now, order) # cs)"
  define r where "r = take_run fl rate burst ts b"
  define K where "K = rate * (1 + e) ^ 5"
  have k: "\<not> kl_disabled k" "gm_ok (kl_buckets k)" "gm_get (kl_buckets k) key = Some b"
    "kl_rate k = rate" "kl_burst k = burst"
    using rate burst by (simp_all add: k_def newKeyedLimiter_def go_map_simps)
  have ok: "bucket_ok burst b" using burst by (simp add: b_def bucket_ok_def)
  have run: "fst (allow_run fl key ((now, order) # cs) k) = fst r"
    using allow_run_bucket [OF k(1-3), of fl "(now, order) # cs"] by (simp only: k(4,5) r_def ts_def)
  have "list_all (\<lambda>x. x \<le> t) ts" using times by (simp add: ts_def list_all_iff)
  then have "bk_last (snd r) \<le> t"
    unfolding r_def using times by (intro take_run_last) (simp_all add: b_def)
  moreover have "0 \<le> K" using rate fl(2) by (simp add: K_def rel_error_def)
  ultimately have late: "K * (of_int (bk_last (snd r) - now) / 1000000000) \<le> K * (of_int (t - now) / 1000000000)"
    by (intro mult_left_mono divide_right_mono) simp_all
  have "of_nat (fst r) + bk_tokens (snd r) \<le> burst + 2 * e * burst * of_nat (length ts)
        + K * (of_int (bk_last (snd r) - now) / 1000000000)"
    using take_run_budget [OF fl rate burst(2) ok, of ts] by (simp add: r_def b_def K_def)
  moreover have "0 \<le> bk_tokens (snd r)"
    using take_run_ok [OF fl(1) rate burst(2) ok, of ts] by (simp add: r_def bucket_ok_def)
  moreover have "length ts = length cs + 1" by (simp add: ts_def)
  ultimately have "of_nat (fst r) \<le> burst + 2 * e * burst * of_nat (length cs + 1)
      + K * (of_int (t - now) / 1000000000)"
    using late by simp
  with run show ?thesis
    unfolding global_first [OF rate burst(1)] by (simp add: k_def b_def K_def)
qed

text \<open>
  Whatever the arrival times and however many clients take part, the listener-wide limiter
  grants at most its burst plus its rate times the elapsed time, up to the rounding of the
  floating-point operations (relative error e per operation, n requests).\<close>

theorem listener_rate_bound:
  assumes "rounding fl" and "rel_error e fl" and "global = lm_global (limits_New cfg)"
    and "0 \<le> kl_rate global" and "0 \<le> kl_burst global" and "fl (kl_burst global) = kl_burst global"
    and "allow_run fl '''' ((start, order) # cs) global = (granted, global')"
    and "\<forall>c\<in>set ((start, order) # cs). fst c \<le> t"
  shows "of_nat granted \<le> kl_burst global + 2 * e * kl_burst global * of_nat (length cs + 1)
      + kl_rate global * (1 + e) ^ 5 * (of_int (t - start) / 1000000000)"
proof -
  have "global = newKeyedLimiter (kl_rate global) (kl_burst global) 1"
    by (simp add: assms(3) limits_New_def newKeyedLimiter_def Let_def)
  then show ?thesis
    using listener_run [OF assms(1,2,4,5,6), of t start order cs "[]"] assms(7,8) by (simp add: list_all_iff)
qed

theorem listener_rate_bound_witness:
  "of_nat (fst (allow_run (\<lambda>x. x) '''' [(0, []), (0, []), (1000000000, [])] (lm_global (limits_New ex_limits))))
     \<le> (150 :: real)"
proof -
  define g where "g = lm_global (limits_New ex_limits)"
  have g: "kl_rate g = 50" "kl_burst g = 100"
    by (simp_all add: g_def limits_New_def newKeyedLimiter_def withDefaults_def ex_limits_def Let_def
        DefaultGlobalRate_def DefaultGlobalBurst_def)
  obtain granted g' where run: "allow_run (\<lambda>x. x) '''' [(0, []), (0, []), (1000000000, [])] g = (granted, g')"
    by force
  have "of_nat granted \<le> (150 :: real)"
    using listener_rate_bound [OF rounding_id rel_error_id g_def _ _ refl run, of 1000000000] by (simp add: g)
  with run show ?thesis by (simp add: g_def [symmetric])
qed

section \<open>The client table\<close>

text \<open>
  (C26) In every state the middleware can reach, the table of clients holds at most the configured
  number of buckets (the default where none is configured), and each bucket is between empty and
  full. The requests are those with a client address that is not empty, as every address of a connection is.\<close>

theorem client_table_bounded:
  assumes "rounding fl" and "(mw_step fl)\<^sup>*\<^sup>* (mw_init cfg) s"
    and "0 \<le> lc_PerClientRate (withDefaults cfg)" and "0 \<le> lc_PerClientBurst (withDefaults cfg)"
    and "fl (lc_PerClientBurst (withDefaults cfg)) = lc_PerClientBurst (withDefaults cfg)"
  shows "int (limiter_size (lm_perClient (mw_lim s))) \<le> lc_MaxClients (withDefaults cfg) \<and>
    (\<forall>client b. gm_get (kl_buckets (lm_perClient (mw_lim s))) client = Some b \<longrightarrow>
       0 \<le> bk_tokens b \<and> bk_tokens b \<le> lc_PerClientBurst (withDefaults cfg))"
proof -
  have new: "lm_perClient (limits_New cfg) = newKeyedLimiter (lc_PerClientRate (withDefaults cfg))
      (lc_PerClientBurst (withDefaults cfg)) (lc_MaxClients (withDefaults cfg))"
    by (simp add: limits_New_def Let_def)
  have "1 \<le> lc_MaxClients (withDefaults cfg)" by (simp add: withDefaults_def DefaultMaxClients_def)
  from limiter_reach [OF mw_reach_perClient [OF assms(2), unfolded new] assms(1,3,4,5) this]
  show ?thesis by (auto simp: limiter_ok_def table_bounded_def limiter_size_def bucket_ok_def)
qed

text \<open>One request of a client, from the initial state.\<close>

lemma ex_arrive:
  "mw_step (\<lambda>x. x) (mw_init ex_limits) (mw_arrive (\<lambda>x. x) 0 [] 7 ''10.0.0.1:4711'' (mw_init ex_limits))"
proof (rule mw_step.arrive)
  show "mw_phase (mw_init ex_limits) 7 = None" by (simp add: mw_init_def)
  show "gm_order (kl_buckets (lm_perClient (mw_lim (mw_init ex_limits)))) []"
    by (simp add: mw_init_def limits_New_def newKeyedLimiter_def Let_def gm_order_def gm_keys_def gm_empty_def)
  show "ClientIP ''10.0.0.1:4711'' \<noteq> ''''" by code_simp
qed

theorem client_table_bounded_witness:
  "int (limiter_size (lm_perClient (mw_lim (mw_arrive (\<lambda>x. x) 0 [] 7 ''10.0.0.1:4711'' (mw_init ex_limits))))) \<le> 65536"
proof -
  have "lc_PerClientRate (withDefaults ex_limits) = 1" "lc_PerClientBurst (withDefaults ex_limits) = 5"
    "lc_MaxClients (withDefaults ex_limits) = 65536"
    by (simp_all add: ex_limits_def withDefaults_def DefaultPerClientRate_def DefaultPerClientBurst_def
        DefaultMaxClients_def)
  with client_table_bounded [OF rounding_id r_into_rtranclp [of "mw_step (\<lambda>x. x)", OF ex_arrive]]
  show ?thesis by simp
qed

section \<open>Concurrency\<close>

text \<open>
  (C27) However requests interleave, no more than MaxConcurrent of them are inside the handler at
  once, and a slot is held by a running request only: none leaks when a request waits, is shed, is
  refused or ends.\<close>

theorem handlers_bounded:
  assumes "(mw_step fl)\<^sup>*\<^sup>* (mw_init cfg) s" and "0 < lc_MaxConcurrent (withDefaults cfg)"
  shows "int (card (running s)) \<le> lc_MaxConcurrent (withDefaults cfg) \<and> mw_held s = card (running s)"
proof -
  have "lm_sem (mw_lim s) = Some (nat (lc_MaxConcurrent (withDefaults cfg)))" "sem_ok s"
    using mw_reach_sem [OF assms(1)] assms(2) by (simp_all add: limits_New_def Let_def)
  with assms(2) show ?thesis by (auto simp: sem_ok_def)
qed

theorem handlers_bounded_witness:
  "int (card (running (mw_arrive (\<lambda>x. x) 0 [] 7 ''10.0.0.1:4711'' (mw_init ex_limits)))) \<le> 1"
proof -
  have "lc_MaxConcurrent (withDefaults ex_limits) = 1" by (simp add: ex_limits_def withDefaults_def)
  with handlers_bounded [OF r_into_rtranclp [of "mw_step (\<lambda>x. x)", OF ex_arrive]]
  show ?thesis by simp
qed

section \<open>Eviction of idle buckets\<close>

text \<open>
  Dropping an idle bucket gives nobody extra budget: the next request of its client is decided
  the same way, and leaves the same number of tokens, as with the bucket kept.\<close>

theorem idle_bucket_is_fresh:
  assumes "rounding fl" and "bucket_ok burst b" and "fl (bk_tokens b) = bk_tokens b"
    and "idle fl now rate burst b"
  shows "fst (take_token fl now rate burst b) = fst (take_token fl now rate burst \<lparr>bk_tokens = burst, bk_last = now\<rparr>) \<and>
    bk_tokens (snd (take_token fl now rate burst b))
      = bk_tokens (snd (take_token fl now rate burst \<lparr>bk_tokens = burst, bk_last = now\<rparr>))"
proof -
  have zero: "durSeconds fl (time_Sub now now) = 0"
    using assms(1) by (simp add: durSeconds_def time_Sub_def quot_trunc_def second_def rounding_def
        minInt64_def maxInt64_def)
  have "bk_tokens (refill fl now rate burst b) = burst"
  proof (cases "durSeconds fl (time_Sub now (bk_last b)) > 0")
    case True
    with assms(4) show ?thesis by (simp add: refill_def idle_def Let_def)
  next
    case False
    then have "max 0 (durSeconds fl (time_Sub now (bk_last b))) = 0" by simp
    with assms have "burst \<le> bk_tokens b" by (simp add: idle_def rounding_def)
    with False assms(2) show ?thesis by (simp add: refill_def bucket_ok_def)
  qed
  moreover have "bk_tokens (refill fl now rate burst \<lparr>bk_tokens = burst, bk_last = now\<rparr>) = burst"
    by (simp add: refill_def zero)
  ultimately show ?thesis by (simp add: take_token_def Let_def)
qed

theorem idle_bucket_is_fresh_witness:
  "bk_tokens (snd (take_token (\<lambda>x. x) 4000000000 1 5 \<lparr>bk_tokens = 2, bk_last = 0\<rparr>)) =
   bk_tokens (snd (take_token (\<lambda>x. x) 4000000000 1 5 \<lparr>bk_tokens = 5, bk_last = 4000000000\<rparr>))"
  using idle_bucket_is_fresh [OF rounding_id, of 5 "\<lparr>bk_tokens = 2, bk_last = 0\<rparr>" 4000000000 1]
  by (simp add: bucket_ok_def idle_def durSeconds_def time_Sub_def quot_trunc_def second_def
      minInt64_def maxInt64_def)

section \<open>The rate-limit key\<close>

lemma cutLastByte_last:
  "c \<notin> set t \<Longrightarrow> cutLastByte c (s @ c # t) = Some (s, t)"
proof -
  assume c: "c \<notin> set t"
  have "dropWhile (\<lambda>x. x \<noteq> c) (rev t @ c # rev s) = c # rev s"
    and "takeWhile (\<lambda>x. x \<noteq> c) (rev t @ c # rev s) = rev t"
    using c by (auto simp: dropWhile_append takeWhile_append)
  then show ?thesis by (simp add: cutLastByte_def)
qed

text \<open>
  A client has one rate-limit key whatever port it connects from: the key of host:port is the
  host, for a host without colons and for an IPv6 address in brackets.\<close>

theorem ClientIP_ignores_port:
  assumes "CHR '':'' \<notin> set port" and "CHR ''['' \<notin> set port" and "CHR '']'' \<notin> set port"
    and "CHR ''['' \<notin> set host" and "CHR '']'' \<notin> set host"
  shows "(CHR '':'' \<notin> set host \<longrightarrow> ClientIP (host @ '':'' @ port) = host) \<and>
    ClientIP (''['' @ host @ '']:'' @ port) = host"
proof
  show "CHR '':'' \<notin> set host \<longrightarrow> ClientIP (host @ '':'' @ port) = host"
    using assms cutLastByte_last [of "CHR '':''" port host]
    by (cases host) (auto simp: ClientIP_def splitHost_def hasPrefix_def)
  have "cutLastByte (CHR '':'') ((''['' @ host @ '']'') @ CHR '':'' # port) = Some (''['' @ host @ '']'', port)"
    using assms(1) by (rule cutLastByte_last)
  moreover have "cutByte (CHR '']'') (''['' @ host @ '']:'' @ port) = Some (''['' @ host, '':'' @ port)"
    using assms(5) by (simp add: cutByte_def takeWhile_append dropWhile_append)
  ultimately show "ClientIP (''['' @ host @ '']:'' @ port) = host"
    using assms by (simp add: ClientIP_def splitHost_def hasPrefix_def)
qed

theorem ClientIP_ignores_port_witness:
  "ClientIP ''10.0.0.1:4711'' = ''10.0.0.1'' \<and> ClientIP ''[fe80::1]:80'' = ''fe80::1''"
  using ClientIP_ignores_port [of "''4711''" "''10.0.0.1''"] ClientIP_ignores_port [of "''80''" "''fe80::1''"]
  by simp

end
