(* ===== verification/Broker_Concurrent.thy ===== *)
theory Broker_Concurrent
  imports Main_Properties Rate_Limits_Properties
begin

text \<open>
  The broker under concurrent requests: the handlers of \<open>src/internal/est/handler.go\<close> and
  \<open>src/internal/scep/handler.go\<close> behind the middleware of \<open>src/internal/limits/limits.go\<close>, as
  \<open>src/cmd/certbroker/main.go\<close> puts them together.

  A handler is a \<open>job\<close>: actions on the shared state, one after the other. An action is what the code does
  under one lock or in one call of a collaborator: the replay check, the authorization with its audit record,
  the issuance with its own. The actions of different requests interleave; a request acts only
  while it holds a slot of the limiter. Run without interleaving, the job of a request is the handler.
\<close>

section \<open>Handlers as jobs\<close>

datatype ('w, 'a) job = Finished 'a | Act "'w \<Rightarrow> ('w, 'a) job \<times> 'w"

primrec run_job :: "('w, 'a) job \<Rightarrow> 'w \<Rightarrow> 'a \<times> 'w" where
  "run_job (Finished a) = (\<lambda>w. (a, w))"
| "run_job (Act f) = (\<lambda>w. case map_prod run_job id (f w) of (rest, w') \<Rightarrow> rest w')"

text \<open>The last action of a job.\<close>

definition lastly :: "('w \<Rightarrow> 'a \<times> 'w) \<Rightarrow> ('w, 'a) job" where
  "lastly f = Act (\<lambda>w. case f w of (a, w') \<Rightarrow> (Finished a, w'))"

abbreviation responded :: "http_response \<Rightarrow> scep_outcome option" where "responded resp \<equiv> Some (Responded resp)"

definition authorized_job :: "('s, 'b) est_handler \<Rightarrow> Operation \<Rightarrow> Request
   \<Rightarrow> (Decision \<Rightarrow> ('s, 'b) broker_world \<Rightarrow> http_response \<times> ('s, 'b) broker_world)
   \<Rightarrow> (('s, 'b) broker_world, scep_outcome option) job" where
  "authorized_job h op req issue =
    Act (\<lambda>w. let (res, w1) = callAuthorize (eh_authz h) req w in
      case res of
        Inl err \<Rightarrow> (Finished (responded (httpError ''authorization error'' StatusInternalServerError)),
                   est_audit op req zeroDecision ''error'' (Some (AText err)) w1)
      | Inr d \<Rightarrow>
         if \<not> dc_Allow d
         then (Finished (responded (httpError ''not authorized'' StatusForbidden)), est_audit op req d ''deny'' None w1)
         else (lastly (\<lambda>w. map_prod responded id (issue d w)), w1))"

definition enroll_job :: "golib \<Rightarrow> x509lib \<Rightarrow> ('s, 'b) est_handler \<Rightarrow> http_request \<Rightarrow> Operation \<Rightarrow> string
   \<Rightarrow> (('s, 'b) broker_world, scep_outcome option) job" where
  "enroll_job G X h r op label =
    (case frontDoor G X h r op label of
       Inl resp \<Rightarrow> Finished (responded resp)
     | Inr (csrDER, req) \<Rightarrow> authorized_job h op req (enrollIssue G X h op csrDER req))"

definition serverKeyGen_job :: "golib \<Rightarrow> x509lib \<Rightarrow> ('s, 'b) est_handler \<Rightarrow> string \<Rightarrow> http_request \<Rightarrow> string
   \<Rightarrow> (('s, 'b) broker_world, scep_outcome option) job" where
  "serverKeyGen_job G X h boundary r label =
    (case frontDoor G X h r OpServerKeyGen label of
       Inl resp \<Rightarrow> Finished (responded resp)
     | Inr (csrDER, req) \<Rightarrow> authorized_job h OpServerKeyGen req (keyGenIssue G X h boundary req))"

text \<open>The rest of EST, and of SCEP, makes at most one call of OpenBao: one action.\<close>

definition est_job :: "golib \<Rightarrow> x509lib \<Rightarrow> ('s, 'b) est_handler \<Rightarrow> string \<Rightarrow> http_request
   \<Rightarrow> (('s, 'b) broker_world, scep_outcome option) job" where
  "est_job G X h boundary r =
    (case estRoute (hq_Path r) of
       Some (label, op) \<Rightarrow>
        if hq_Method r = ''POST'' \<and> op = ''simpleenroll'' then enroll_job G X h r OpSimpleEnroll label
        else if hq_Method r = ''POST'' \<and> op = ''simplereenroll'' then enroll_job G X h r OpSimpleReenroll label
        else if hq_Method r = ''POST'' \<and> op = ''serverkeygen'' then serverKeyGen_job G X h boundary r label
        else lastly (\<lambda>w. map_prod responded id (est_ServeHTTP G X h boundary r w))
     | None \<Rightarrow> Finished (responded httpNotFound))"

definition scepPolicy_job :: "golib \<Rightarrow> pkcs7lib \<Rightarrow> x509lib \<Rightarrow> ('s, 'b) scep_handler \<Rightarrow> (string, string) result \<Rightarrow> http_request
   \<Rightarrow> scep_Request \<Rightarrow> 's authorizer \<Rightarrow> (('s, 'b) broker_world, scep_outcome option) job" where
  "scepPolicy_job G L X h nonce r req az =
    Act (\<lambda>w. let (res, w1) = callAuthorize az (authzRequest h req r) w in
      case res of
        Inl err \<Rightarrow> (Finished (responded (scep_fail L h nonce req FailBadRequest)),
                   scep_audit req zeroDecision ''error'' (hq_RemoteAddr r) (Some (AText err)) w1)
      | Inr d \<Rightarrow>
         if \<not> dc_Allow d
         then (Finished (responded (scep_fail L h nonce req FailBadRequest)), scep_audit req d ''deny'' (hq_RemoteAddr r) None w1)
         else (lastly (\<lambda>w. map_prod responded id (scep_issue L X h nonce (hq_RemoteAddr r) req d w)), w1))"

definition scepProcess_job :: "golib \<Rightarrow> pkcs7lib \<Rightarrow> x509lib \<Rightarrow> ('s, 'b) scep_handler \<Rightarrow> time \<Rightarrow> (string, string) result
   \<Rightarrow> http_request \<Rightarrow> scep_Request \<Rightarrow> (('s, 'b) broker_world, scep_outcome option) job" where
  "scepProcess_job G L X h now nonce r req =
    Act (\<lambda>w. let (fresh, cache) = ReplayCache_Check G now (at_TransactionID (sr_Attributes req)) (at_SenderNonce (sr_Attributes req)) (bw_replay w)
      in (if \<not> fresh then Finished (responded (scep_fail L h nonce req FailBadRequest))
          else (case sp_Authorizer (sh_opts h) of
                  None \<Rightarrow> Finished (Some Panicked)
                | Some az \<Rightarrow> scepPolicy_job G L X h nonce r req az), w\<lparr>bw_replay := cache\<rparr>))"

definition scep_job :: "golib \<Rightarrow> pkcs7lib \<Rightarrow> x509lib \<Rightarrow> ('s, 'b) scep_handler \<Rightarrow> time \<Rightarrow> (string, string) result \<Rightarrow> http_request
   \<Rightarrow> (('s, 'b) broker_world, scep_outcome option) job" where
  "scep_job G L X h now nonce r =
    (if hq_Query r ''operation'' \<noteq> ''PKIOperation'' then lastly (\<lambda>w. map_prod Some id (scep_ServeHTTP G L X h now nonce r w))
     else (case readMessage h r of
       Inl (status, msg) \<Rightarrow> Finished (responded (httpError msg status))
     | Inr body \<Rightarrow>
        (case Parse L (sh_parser h) body of
           Inl _ \<Rightarrow> Finished (responded (httpError ''bad request'' StatusBadRequest))
         | Inr req \<Rightarrow> scepProcess_job G L X h now nonce r req)))"

definition input_job :: "golib \<Rightarrow> pkcs7lib \<Rightarrow> x509lib \<Rightarrow> baoRuntime \<Rightarrow> broker \<Rightarrow> broker_input
   \<Rightarrow> ((StaticSecret, baoClient) broker_world, scep_outcome option) job" where
  "input_job G L X R br i =
    (case i of
       EstIn boundary r \<Rightarrow> est_job G X (br_est br) boundary r
     | ScepIn now nonce r \<Rightarrow> (case br_scep br of None \<Rightarrow> Finished None | Some (h, _) \<Rightarrow> scep_job G L X h now nonce r)
     | HealthIn r \<Rightarrow> lastly (\<lambda>w. map_prod responded id (healthHandler (brokerEnroller R) r w)))"

section \<open>A job alone is the handler\<close>

lemma run_job_Act [simp]: "run_job (Act f) w = run_job (fst (f w)) (snd (f w))"
  by (simp add: split_def)

declare run_job.simps(2) [simp del]

lemma run_job_lastly [simp]: "run_job (lastly f) w = f w"
  by (simp add: lastly_def split_def)

lemma run_authorized_job:
  "run_job (authorized_job h op req issue) w = map_prod responded id (authorized h op req issue w)"
  by (simp add: authorized_job_def authorized_def Let_def split_def split: sum.split)

lemma run_est_job: "run_job (est_job G X h boundary r) w = map_prod responded id (est_ServeHTTP G X h boundary r w)"
proof (cases "estRoute (hq_Path r)")
  case (Some route)
  obtain label op where "route = (label, op)" by force
  with Some show ?thesis
    by (simp add: est_job_def est_ServeHTTP_def methodGuard_def enroll_job_def enroll_def serverKeyGen_job_def serverKeyGen_def
        run_authorized_job split: sum.split prod.split)
qed (simp add: est_job_def est_ServeHTTP_def)

lemma map_prod_fst_snd: "map_prod f g p = (f (fst p), g (snd p))"
  by (cases p) simp

lemma run_scepProcess_job:
  "run_job (scepProcess_job G L X h now nonce r req) w = map_prod Some id (scep_process G L X h now nonce r req w)"
  by (simp add: scepProcess_job_def scepPolicy_job_def scep_process_def Let_def split_def map_prod_fst_snd
      split: option.split sum.split)

lemma run_scep_job: "run_job (scep_job G L X h now nonce r) w = map_prod Some id (scep_ServeHTTP G L X h now nonce r w)"
  by (simp add: scep_job_def scep_ServeHTTP_def pkiOperation_def run_scepProcess_job Let_def split: sum.split prod.split)

text \<open>
  The interleaved model is the same program: the job of a request, run without interleaving, gives
  the outcome and the state of the handler that serves the request, for every input of the broker.\<close>

theorem jobs_are_handlers:
  "run_job (input_job G L X R br i) w = broker_step G L X R br i w"
  by (cases i) (simp_all add: input_job_def broker_step_def run_est_job run_scep_job split_def map_prod_fst_snd
      split: option.split)

section \<open>What a job may do\<close>

text \<open>
  A decision that is still to be used, after the given events: every event takes it where \<open>issuance_gated\<close>
  says, and there is none where an event is not allowed.
\<close>

fun gate :: "Decision option \<Rightarrow> event list \<Rightarrow> Decision option option" where
  "gate g [] = Some g"
| "gate g (AuthorizeEv req res # es) = gate (grantOf res) es"
| "gate g (SignEv role csr opts # es) =
    (case g of None \<Rightarrow> None
     | Some d \<Rightarrow> if role = dc_Role d \<and> opts = toSignOptions (dc_Constraints d) then gate None es else None)"
| "gate g (IssueEv role cn opts # es) =
    (case g of None \<Rightarrow> None
     | Some d \<Rightarrow> if role = dc_Role d \<and> cn = cc_CommonName (dc_Constraints d)
         \<and> opts\<lparr>so_KeyType := '''', so_KeyBits := 0\<rparr> = toSignOptions (dc_Constraints d) then gate None es else None)"
| "gate g (AuditEv a # es) = gate g es"

lemma gate_gated: "issuance_gated g es \<longleftrightarrow> (\<exists>g'. gate g es = Some g')"
  by (induction g es rule: gate.induct) (auto split: option.splits)

lemma gate_grant:
  "gate g es = Some (Some d) \<Longrightarrow> g = Some d \<or> (\<exists>req. AuthorizeEv req (Ok d) \<in> set es \<and> dc_Allow d)"
proof (induction g es rule: gate.induct)
  case (2 g req res es)
  then show ?case by (auto simp: grantOf_def split: sum.splits if_splits)
qed (auto split: option.splits if_splits)

text \<open>The calls for a certificate whose role and options are among the given ones, and the decisions that allow such a call.\<close>

fun asks_for :: "(string \<times> SignOptions) set \<Rightarrow> event \<Rightarrow> bool" where
  "asks_for K (SignEv role csr opts) = ((role, opts) \<in> K)"
| "asks_for K (IssueEv role cn opts) = ((role, opts\<lparr>so_KeyType := '''', so_KeyBits := 0\<rparr>) \<in> K)"
| "asks_for K _ = False"

definition grant_for :: "(string \<times> SignOptions) set \<Rightarrow> Decision option \<Rightarrow> bool" where
  "grant_for K g = (case g of None \<Rightarrow> False | Some d \<Rightarrow> (dc_Role d, toSignOptions (dc_Constraints d)) \<in> K)"

fun allows_for :: "(string \<times> SignOptions) set \<Rightarrow> event \<Rightarrow> bool" where
  "allows_for K (AuthorizeEv req res) = grant_for K (grantOf res)"
| "allows_for K _ = False"


text \<open>A grant is used at most once, and only for what it allows.\<close>

lemma gate_count:
  "gate g es = Some g' \<Longrightarrow>
    count_ev (asks_for k) es + (if grant_for k g' then 1 else 0) \<le> count_ev (allows_for k) es + (if grant_for k g then 1 else 0)"
proof (induction g es rule: gate.induct)
  case (2 g req res es)
  then show ?case by (cases "grant_for k g") auto
qed (auto simp: grant_for_def split: option.splits if_splits)

text \<open>
  A job that keeps the order of authorization and issuance: with the decision it may still use and the
  number of requests for a certificate it may still make. Its authorizations are the authorizer's answers, in the
  state it was configured with, to requests that satisfy \<open>P\<close>.
\<close>

inductive safe_job :: "'s authorizer \<Rightarrow> (Request \<Rightarrow> bool) \<Rightarrow> 's \<Rightarrow> Decision option \<Rightarrow> nat \<Rightarrow> (('s, 'b) broker_world, 'a) job \<Rightarrow> bool"
  for az P s where
  finished: "safe_job az P s g n (Finished a)"
| act: "(\<And>w. bw_authz w = s \<Longrightarrow> decides az P s w (snd (f w)) \<and>
      (\<exists>new g' m. bw_trace (snd (f w)) = bw_trace w @ new \<and> gate g new = Some g' \<and> count_ev is_ask new + m \<le> n \<and>
        safe_job az P s g' m (fst (f w)))) \<Longrightarrow> safe_job az P s g n (Act f)"

inductive_cases safe_job_ActE: "safe_job az P s g n (Act f)"

lemma safe_lastly:
  fixes f :: "('s, 'b) broker_world \<Rightarrow> 'a \<times> ('s, 'b) broker_world"
  assumes "\<And>w. bw_authz w = s \<Longrightarrow> decides az P s w (snd (f w))"
    and "\<And>w. \<exists>new. bw_trace (snd (f w)) = bw_trace w @ new \<and> issuance_gated g new \<and> count_ev is_ask new \<le> n"
  shows "safe_job az P s g n (lastly f)"
  unfolding lastly_def
proof (rule safe_job.act, goal_cases)
  case (1 w)
  obtain new where new: "bw_trace (snd (f w)) = bw_trace w @ new" "issuance_gated g new" "count_ev is_ask new \<le> n"
    using assms(2) by blast
  then obtain g' where "gate g new = Some g'" by (auto simp: gate_gated)
  with new show ?case using assms(1) [OF 1]
    by (simp add: split_def) (intro exI [of _ 0] conjI safe_job.finished, simp)
qed

text \<open>The shape of an authorizing action: the decision, and the record of a refusal or the next action.\<close>

definition deciding :: "'s authorizer \<Rightarrow> Request \<Rightarrow> ((string, Decision) result \<Rightarrow> 'a)
   \<Rightarrow> ((string, Decision) result \<Rightarrow> ('s, 'b) broker_world \<Rightarrow> ('s, 'b) broker_world)
   \<Rightarrow> (Decision \<Rightarrow> (('s, 'b) broker_world, 'a) job) \<Rightarrow> ('s, 'b) broker_world
   \<Rightarrow> (('s, 'b) broker_world, 'a) job \<times> ('s, 'b) broker_world" where
  "deciding az req answer refused issue w =
    (let (res, w1) = callAuthorize az req w
     in case grantOf res of None \<Rightarrow> (Finished (answer res), refused res w1) | Some d \<Rightarrow> (issue d, w1))"

lemma safe_deciding:
  fixes refused :: "(string, Decision) result \<Rightarrow> ('s, 'b) broker_world \<Rightarrow> ('s, 'b) broker_world"
  assumes "\<And>req'. snd (az req' s) = s" "P req"
    and "\<And>res w. undecided w (refused res w)" "\<And>res w. \<exists>a. bw_trace (refused res w) = bw_trace w @ [AuditEv a]"
    and "\<And>d. safe_job az P s (Some d) n (issue d)"
  shows "safe_job az P s g n (Act (deciding az req answer refused issue))"
proof (rule safe_job.act)
  fix w :: "('s, 'b) broker_world"
  assume s: "bw_authz w = s"
  obtain res w1 where p: "callAuthorize az req w = (res, w1)" by force
  have first: "decides az P s w w1" using decides_callAuthorize [OF s, of P req az, OF assms(2,1)] p by simp
  then have s1: "bw_authz w1 = s" by (simp add: decides_def)
  have trace: "bw_trace w1 = bw_trace w @ [AuthorizeEv req res]" using callAuthorize_trace(1) [of az req w] p by simp
  let ?r = "deciding az req answer refused issue w"
  show "decides az P s w (snd ?r) \<and> (\<exists>new g' m. bw_trace (snd ?r) = bw_trace w @ new \<and> gate g new = Some g' \<and>
      count_ev is_ask new + m \<le> n \<and> safe_job az P s g' m (fst ?r))"
  proof (cases "grantOf res")
    case (Some d)
    then have "?r = (issue d, w1)" by (simp add: deciding_def p)
    moreover have "gate g [AuthorizeEv req res] = Some (Some d)" by (simp add: Some)
    ultimately show ?thesis using first trace assms(5)
      by (intro conjI exI [of _ "[AuthorizeEv req res]"] exI [of _ "Some d"] exI [of _ n]) simp_all
  next
    case None
    then have r: "?r = (Finished (answer res), refused res w1)" by (simp add: deciding_def p)
    obtain a where "bw_trace (refused res w1) = bw_trace w @ [AuthorizeEv req res, AuditEv a]"
      using assms(4) [of res w1] trace by auto
    moreover have "decides az P s w (refused res w1)"
      using decides_trans [OF first undecided_decides [OF s1 assms(3)]] .
    moreover have "gate g [AuthorizeEv req res, AuditEv a] = Some None" by (simp add: None)
    ultimately show ?thesis unfolding r
      by (intro conjI exI [of _ "[AuthorizeEv req res, AuditEv a]"] exI [of _ None] exI [of _ 0]) (simp_all add: safe_job.finished)
  qed
qed

section \<open>The jobs of the broker are safe\<close>

lemma audit_trace:
  "\<exists>a. bw_trace (est_audit op req d outcome err w) = bw_trace w @ [AuditEv a]"
  "\<exists>a. bw_trace (scep_audit sreq d outcome remote err w) = bw_trace w @ [AuditEv a]"
  by (simp_all add: est_audit_def scep_audit_def)

definition refusal :: "(string, Decision) result \<Rightarrow> (Decision \<Rightarrow> string \<Rightarrow> audit_val option \<Rightarrow> 'w \<Rightarrow> 'w) \<Rightarrow> 'w \<Rightarrow> 'w" where
  "refusal res audit = (case res of Inl err \<Rightarrow> audit zeroDecision ''error'' (Some (AText err)) | Inr d \<Rightarrow> audit d ''deny'' None)"

lemma authorized_job_deciding:
  "authorized_job h op req issue = Act (deciding (eh_authz h) req
     (\<lambda>res. responded (case res of Inl _ \<Rightarrow> httpError ''authorization error'' StatusInternalServerError
        | Inr _ \<Rightarrow> httpError ''not authorized'' StatusForbidden))
     (\<lambda>res. refusal res (est_audit op req)) (\<lambda>d. lastly (\<lambda>w. map_prod responded id (issue d w))))"
  by (auto simp: authorized_job_def deciding_def refusal_def grantOf_def fun_eq_iff split_def Let_def split: sum.split)

lemma scepPolicy_job_deciding:
  "scepPolicy_job G L X h nonce r req az = Act (deciding az (authzRequest h req r)
     (\<lambda>_. responded (scep_fail L h nonce req FailBadRequest))
     (\<lambda>res. refusal res (\<lambda>d outcome err. scep_audit req d outcome (hq_RemoteAddr r) err))
     (\<lambda>d. lastly (\<lambda>w. map_prod responded id (scep_issue L X h nonce (hq_RemoteAddr r) req d w))))"
  by (auto simp: scepPolicy_job_def deciding_def refusal_def grantOf_def fun_eq_iff split_def Let_def split: sum.split)

lemma refusal_audit:
  assumes "\<And>d outcome err w. undecided w (audit d outcome err w) \<and> (\<exists>a. bw_trace (audit d outcome err w) = bw_trace w @ [AuditEv a])"
  shows "undecided w (refusal res audit w)" "\<exists>a. bw_trace (refusal res audit w) = bw_trace w @ [AuditEv a]"
  using assms by (auto simp: refusal_def split: sum.split)

text \<open>After the decision: one request for a certificate, under the decision, then a record.\<close>

lemma issue_asks:
  "\<exists>new. bw_trace (snd (enrollIssue G X h op csrDER req d w)) = bw_trace w @ new \<and> issuance_gated (Some d) new \<and> count_ev is_ask new \<le> 1"
  "\<exists>new. bw_trace (snd (keyGenIssue G X h boundary req d w)) = bw_trace w @ new \<and> issuance_gated (Some d) new \<and> count_ev is_ask new \<le> 1"
  "\<exists>new. bw_trace (snd (scep_issue L X sh nonce remote sreq d w)) = bw_trace w @ new \<and> issuance_gated (Some d) new \<and> count_ev is_ask new \<le> 1"
  by (simp_all add: enrollIssue_def keyGenIssue_def scep_issue_def split_def Let_def est_audit_def scep_audit_def toSignOptions_def
      split: sum.split option.split)

lemma safe_issue:
  fixes issue :: "('s, 'b) broker_world \<Rightarrow> http_response \<times> ('s, 'b) broker_world"
  assumes "\<And>w. undecided w (snd (issue w))"
    and "\<And>w. \<exists>new. bw_trace (snd (issue w)) = bw_trace w @ new \<and> issuance_gated (Some d) new \<and> count_ev is_ask new \<le> 1"
  shows "safe_job az P s (Some d) 1 (lastly (\<lambda>w. map_prod responded id (issue w)))"
  using assms by (intro safe_lastly) (auto simp: undecided_decides)

lemma safe_authorized_job:
  assumes "\<And>req'. snd (eh_authz h req' s) = s" "P req" "\<And>d w. undecided w (snd (issue d w))"
    and "\<And>d w. \<exists>new. bw_trace (snd (issue d w)) = bw_trace w @ new \<and> issuance_gated (Some d) new \<and> count_ev is_ask new \<le> 1"
  shows "safe_job (eh_authz h) P s g 1 (authorized_job h op req issue)"
  unfolding authorized_job_deciding
  by (intro safe_deciding safe_issue refusal_audit assms) (simp_all add: undecided_stage audit_trace)

lemma safe_enroll_job:
  assumes "\<And>req. snd (eh_authz h req s) = s"
  shows "safe_job (eh_authz h) (anchored L X (eo_BootstrapRoots (eh_opts h)) (eo_DeviceRoots (eh_opts h))) s None 1 (enroll_job G X h r op label)"
    and "safe_job (eh_authz h) (anchored L X (eo_BootstrapRoots (eh_opts h)) (eo_DeviceRoots (eh_opts h))) s None 1 (serverKeyGen_job G X h boundary r label)"
proof -
  let ?P = "anchored L X (eo_BootstrapRoots (eh_opts h)) (eo_DeviceRoots (eh_opts h))"
  have "safe_job (eh_authz h) ?P s None 1 (authorized_job h op req (enrollIssue G X h op csrDER req))"
    if "frontDoor G X h r op label = Ok (csrDER, req)" for csrDER req
    by (rule safe_authorized_job) (rule assms frontDoor_anchored [OF that] enrollIssue_undecided issue_asks(1))+
  then show "safe_job (eh_authz h) ?P s None 1 (enroll_job G X h r op label)"
    by (auto simp: enroll_job_def safe_job.finished split: sum.split)
  have "safe_job (eh_authz h) ?P s None 1 (authorized_job h OpServerKeyGen req (keyGenIssue G X h boundary req))"
    if "frontDoor G X h r OpServerKeyGen label = Ok (csrDER, req)" for csrDER req
    by (rule safe_authorized_job) (rule assms frontDoor_anchored [OF that] keyGenIssue_undecided issue_asks(2))+
  then show "safe_job (eh_authz h) ?P s None 1 (serverKeyGen_job G X h boundary r label)"
    by (auto simp: serverKeyGen_job_def safe_job.finished split: sum.split)
qed

text \<open>A last action that neither authorizes nor asks for a certificate.\<close>

lemma safe_quiet:
  fixes f :: "('s, 'b) broker_world \<Rightarrow> 'a \<times> ('s, 'b) broker_world"
  assumes "\<And>w. bw_trace (snd (f w)) = bw_trace w" "\<And>w. bw_authz (snd (f w)) = bw_authz w"
  shows "safe_job az P s g n (lastly f)"
proof (rule safe_lastly)
  show "\<exists>new. bw_trace (snd (f w)) = bw_trace w @ new \<and> issuance_gated g new \<and> count_ev is_ask new \<le> n" for w
    by (intro exI [of _ "[]"]) (simp add: assms)
qed (use assms in \<open>simp add: decides_def\<close>)

lemma safe_est_job:
  assumes "\<And>req. snd (eh_authz h req s) = s"
  shows "safe_job (eh_authz h) (anchored L X (eo_BootstrapRoots (eh_opts h)) (eo_DeviceRoots (eh_opts h))) s None 1 (est_job G X h boundary r)"
proof (cases "estRoute (hq_Path r)")
  case (Some route)
  obtain label op where route: "route = (label, op)" by force
  let ?enrolls = "hq_Method r = ''POST'' \<and> op \<in> {''simpleenroll'', ''simplereenroll'', ''serverkeygen''}"
  show ?thesis
  proof (cases ?enrolls)
    case True
    then show ?thesis using safe_enroll_job [of h s, OF assms] by (auto simp: est_job_def Some route)
  next
    case False
    have ca: "bw_trace (snd (caCerts X h w)) = bw_trace w" "bw_authz (snd (caCerts X h w)) = bw_authz w" for w
      by (simp_all add: caCerts_def split_def Let_def)
    have "bw_trace (snd (est_ServeHTTP G X h boundary r w)) = bw_trace w \<and> bw_authz (snd (est_ServeHTTP G X h boundary r w)) = bw_authz w" for w
      using False by (auto simp: est_ServeHTTP_def Some route methodGuard_def ca)
    then have "safe_job (eh_authz h) P s None 1 (lastly (\<lambda>w. map_prod responded id (est_ServeHTTP G X h boundary r w)))" for P
      by (intro safe_quiet) simp_all
    with False show ?thesis by (auto simp: est_job_def Some route)
  qed
qed (simp add: est_job_def safe_job.finished)

lemma safe_scepPolicy_job:
  assumes "\<And>req. snd (az req s) = s" "P (authzRequest h req r)"
  shows "safe_job az P s g 1 (scepPolicy_job G L X h nonce r req az)"
  unfolding scepPolicy_job_deciding
  by (intro safe_deciding safe_issue refusal_audit assms scep_issue_undecided issue_asks) (simp_all add: undecided_stage audit_trace)

lemma safe_scep_job:
  assumes "\<And>req. snd (scep_authorizer h req s) = s"
  shows "safe_job (scep_authorizer h) (anchored L X bootstrap (pr_DeviceRoots (sh_parser h))) s None 1 (scep_job G L X h now nonce r)"
proof -
  let ?P = "anchored L X bootstrap (pr_DeviceRoots (sh_parser h))"
  have process: "safe_job (scep_authorizer h) ?P s None 1 (scepProcess_job G L X h now nonce r req)"
    if "Parse L (sh_parser h) body = Ok req" for body req
    unfolding scepProcess_job_def
  proof (rule safe_job.act, goal_cases)
    case (1 w)
    obtain fresh cache where check: "ReplayCache_Check G now (at_TransactionID (sr_Attributes req))
        (at_SenderNonce (sr_Attributes req)) (bw_replay w) = (fresh, cache)" by force
    define rest :: "(('a, 'b) broker_world, scep_outcome option) job" where
      "rest = (if \<not> fresh then Finished (responded (scep_fail L h nonce req FailBadRequest))
         else case sp_Authorizer (sh_opts h) of None \<Rightarrow> Finished (Some Panicked) | Some az \<Rightarrow> scepPolicy_job G L X h nonce r req az)"
    have "safe_job (scep_authorizer h) ?P s None 1 rest"
    proof (cases "fresh \<and> sp_Authorizer (sh_opts h) \<noteq> None")
      case True
      then have rest: "rest = scepPolicy_job G L X h nonce r req (scep_authorizer h)" by (auto simp: rest_def scep_authorizer_def)
      show ?thesis unfolding rest by (rule safe_scepPolicy_job) (rule assms Parse_anchored [OF that])+
    qed (auto simp: rest_def safe_job.finished split: option.split)
    then show ?case
      unfolding check Let_def prod.case rest_def [symmetric]
      by (intro conjI exI [of _ "[]"] exI [of _ None] exI [of _ 1]) (simp_all add: decides_def 1)
  qed
  have "bw_trace (snd (getCACert L X h w)) = bw_trace w" "bw_authz (snd (getCACert L X h w)) = bw_authz w" for w
    by (simp_all add: getCACert_def caChainCerts_def split_def Let_def)
  then have "safe_job (scep_authorizer h) ?P s None 1 (lastly (\<lambda>w. map_prod Some id (scep_ServeHTTP G L X h now nonce r w)))"
    if "hq_Query r ''operation'' \<noteq> ''PKIOperation''"
    using that by (intro safe_quiet) (simp_all add: scep_ServeHTTP_def Let_def split_def)
  with process show ?thesis by (auto simp: scep_job_def safe_job.finished split: sum.split)
qed

lemma safe_health_job: "safe_job az P s g n (lastly (\<lambda>w. map_prod responded id (healthHandler e r w)))"
  by (rule safe_quiet) (simp_all add: healthHandler_def readyz_def split_def Let_def)

section \<open>The concurrent broker\<close>

record conc_state =
  cs_mw :: mw_state
  cs_world :: "(StaticSecret, baoClient) broker_world"
  cs_job :: "nat \<rightharpoonup> ((StaticSecret, baoClient) broker_world, scep_outcome option) job"
  cs_checks :: "(time \<times> string list) list"

text \<open>
  The last field is not part of the program: the calls of the listener-wide limiter so far. EST and SCEP requests
  pass the limiter, health requests do not. An id is free again once its request is refused or released.
\<close>

definition input_addr :: "broker_input \<Rightarrow> string option" where
  "input_addr i = (case i of EstIn _ r \<Rightarrow> Some (hq_RemoteAddr r) | ScepIn _ _ r \<Rightarrow> Some (hq_RemoteAddr r) | HealthIn _ \<Rightarrow> None)"

definition with_mw :: "mw_state \<Rightarrow> conc_state \<Rightarrow> conc_state" where "with_mw m s = s\<lparr>cs_mw := m\<rparr>"

definition conc_init :: "broker \<Rightarrow> conc_state" where
  "conc_init br = \<lparr>cs_mw = \<lparr>mw_lim = br_limiter br, mw_phase = Map.empty, mw_held = 0, mw_refused = []\<rparr>,
     cs_world = br_world br, cs_job = Map.empty, cs_checks = []\<rparr>"

inductive conc_step :: "golib \<Rightarrow> pkcs7lib \<Rightarrow> x509lib \<Rightarrow> baoRuntime \<Rightarrow> (real \<Rightarrow> real) \<Rightarrow> broker \<Rightarrow> conc_state \<Rightarrow> conc_state \<Rightarrow> bool"
  for G L X R fl br where
  arrive: "mw_phase (cs_mw s) i = None \<Longrightarrow> input_addr inp = Some addr \<Longrightarrow> ClientIP addr \<noteq> '''' \<Longrightarrow>
    gm_order (kl_buckets (lm_perClient (mw_lim (cs_mw s)))) order \<Longrightarrow>
    conc_step G L X R fl br s
      (s\<lparr>cs_mw := mw_arrive fl now order i addr (cs_mw s), cs_job := (cs_job s)(i \<mapsto> input_job G L X R br inp)\<rparr>)"
| global: "mw_phase (cs_mw s) i = Some PerClientPassed \<Longrightarrow> gm_order (kl_buckets (lm_global (mw_lim (cs_mw s)))) order \<Longrightarrow>
    conc_step G L X R fl br s (s\<lparr>cs_mw := mw_global fl now order i (cs_mw s), cs_checks := cs_checks s @ [(now, order)]\<rparr>)"
| fast: "mw_phase (cs_mw s) i = Some GlobalPassed \<Longrightarrow> conc_step G L X R fl br s (with_mw (acquire_fast i (cs_mw s)) s)"
| slot: "mw_phase (cs_mw s) i = Some Waiting \<Longrightarrow> lm_sem (mw_lim (cs_mw s)) = Some c \<Longrightarrow> mw_held (cs_mw s) < c \<Longrightarrow>
    conc_step G L X R fl br s (with_mw (enter_phase i Running ((cs_mw s)\<lparr>mw_held := Suc (mw_held (cs_mw s))\<rparr>)) s)"
| shed: "mw_phase (cs_mw s) i = Some Waiting \<Longrightarrow> conc_step G L X R fl br s (with_mw (refuse i limit_shed (cs_mw s)) s)"
| act: "mw_phase (cs_mw s) i = Some Running \<Longrightarrow> cs_job s i = Some (Act f) \<Longrightarrow>
    conc_step G L X R fl br s (s\<lparr>cs_world := snd (f (cs_world s)), cs_job := (cs_job s)(i \<mapsto> fst (f (cs_world s)))\<rparr>)"
| release: "mw_phase (cs_mw s) i = Some Running \<Longrightarrow> cs_job s i = Some (Finished out) \<Longrightarrow>
    conc_step G L X R fl br s (with_mw (mw_release i (cs_mw s)) s)"
| health: "conc_step G L X R fl br s (s\<lparr>cs_world := snd (run_job (input_job G L X R br (HealthIn r)) (cs_world s))\<rparr>)"

lemma with_mw_simps [simp]:
  "cs_mw (with_mw m s) = m" "cs_world (with_mw m s) = cs_world s" "cs_job (with_mw m s) = cs_job s" "cs_checks (with_mw m s) = cs_checks s"
  by (simp_all add: with_mw_def)

text \<open>The limiter under the broker is the limiter: its invariants hold here.\<close>

lemma conc_step_mw: "conc_step G L X R fl br s s' \<Longrightarrow> (mw_step fl)\<^sup>*\<^sup>* (cs_mw s) (cs_mw s')"
  by (erule conc_step.cases) (auto intro: r_into_rtranclp mw_step.intros)

lemma conc_reach_mw:
  assumes "(conc_step G L X R fl br)\<^sup>*\<^sup>* (conc_init br) s" "br_limiter br = limits_New cfg"
  shows "(mw_step fl)\<^sup>*\<^sup>* (mw_init cfg) (cs_mw s)"
  using assms(1)
proof (induction rule: rtranclp_induct)
  case base
  show ?case by (simp add: conc_init_def mw_init_def assms(2))
next
  case (step s s')
  then show ?case using conc_step_mw rtranclp_trans by metis
qed

section \<open>Who is certified, and how often\<close>

definition admitted :: "conc_state \<Rightarrow> nat set" where
  "admitted s = {i. \<exists>p. mw_phase (cs_mw s) i = Some p \<and> p \<noteq> PerClientPassed}"

text \<open>
  The invariant: every job is safe, with a decision and a number of requests left. The decisions that are
  left are covered by the authorizations so far, and the requests that are left by the grants of the limiter.
\<close>

definition granted_in :: "event list \<Rightarrow> Decision \<Rightarrow> bool" where
  "granted_in es d = (\<exists>req. AuthorizeEv req (Ok d) \<in> set es \<and> dc_Allow d)"

lemma granted_in_append [simp]: "granted_in (es @ fs) d \<longleftrightarrow> granted_in es d \<or> granted_in fs d"
  by (auto simp: granted_in_def)

definition trace_inv :: "StaticSecret authorizer \<Rightarrow> (Request \<Rightarrow> bool) \<Rightarrow> StaticSecret \<Rightarrow> (nat \<Rightarrow> Decision option) \<Rightarrow> conc_state \<Rightarrow> bool" where
  "trace_inv az P a g s = (bw_authz (cs_world s) = a \<and>
    (\<forall>req res. AuthorizeEv req res \<in> set (bw_trace (cs_world s)) \<longrightarrow> P req \<and> res = fst (az req a)) \<and>
    (\<forall>e\<in>set (bw_trace (cs_world s)). is_ask e \<longrightarrow> (\<exists>d. granted_in (bw_trace (cs_world s)) d \<and> decided_ask d e)) \<and>
    (\<forall>i\<in>dom (cs_job s). \<forall>d. g i = Some d \<longrightarrow> granted_in (bw_trace (cs_world s)) d) \<and>
    (\<forall>k. count_ev (asks_for k) (bw_trace (cs_world s)) + card {i \<in> dom (cs_job s). grant_for k (g i)}
      \<le> count_ev (allows_for k) (bw_trace (cs_world s))))"

definition rate_inv :: "(real \<Rightarrow> real) \<Rightarrow> keyedLimiter \<Rightarrow> (nat \<Rightarrow> nat) \<Rightarrow> conc_state \<Rightarrow> bool" where
  "rate_inv fl gl n s = (lm_global (mw_lim (cs_mw s)) = snd (allow_run fl '''' (cs_checks s) gl) \<and>
    count_ev is_ask (bw_trace (cs_world s)) + (\<Sum>i\<in>admitted s. n i) \<le> fst (allow_run fl '''' (cs_checks s) gl))"

definition conc_inv :: "StaticSecret authorizer \<Rightarrow> (Request \<Rightarrow> bool) \<Rightarrow> StaticSecret \<Rightarrow> (real \<Rightarrow> real) \<Rightarrow> keyedLimiter
   \<Rightarrow> (nat \<Rightarrow> Decision option) \<Rightarrow> (nat \<Rightarrow> nat) \<Rightarrow> conc_state \<Rightarrow> bool" where
  "conc_inv az P a fl gl g n s = (finite (dom (cs_job s)) \<and> dom (mw_phase (cs_mw s)) \<subseteq> dom (cs_job s) \<and>
    (\<forall>i j. cs_job s i = Some j \<longrightarrow> safe_job az P a (g i) (n i) j \<and> n i \<le> 1) \<and> trace_inv az P a g s \<and> rate_inv fl gl n s)"

lemma trace_inv_count:
  "trace_inv az P a g s \<Longrightarrow> count_ev (asks_for k) (bw_trace (cs_world s)) + card {i \<in> dom (cs_job s). grant_for k (g i)}
    \<le> count_ev (allows_for k) (bw_trace (cs_world s))"
  unfolding trace_inv_def by blast

lemma allow_run_snoc:
  "allow_run fl key (cs @ [c]) k =
    (fst (allow_run fl key cs k) + (if fst (allow fl (fst c) (snd c) key (snd (allow_run fl key cs k))) then 1 else 0),
     snd (allow fl (fst c) (snd c) key (snd (allow_run fl key cs k))))"
  by (induction cs arbitrary: k) (simp_all add: Let_def)

lemma card_split:
  assumes "finite A" "i \<in> A"
  shows "card {j \<in> A. Q j} = card {j \<in> A - {i}. Q j} + (if Q i then 1 else 0)"
proof (cases "Q i")
  case True
  then have "{j \<in> A. Q j} = insert i {j \<in> A - {i}. Q j}" using assms(2) by auto
  with True assms(1) show ?thesis by simp
next
  case False
  then have "{j \<in> A. Q j} = {j \<in> A - {i}. Q j}" by auto
  with False show ?thesis by simp
qed

lemma conc_inv_admitted: "conc_inv az P a fl gl g n s \<Longrightarrow> finite (admitted s) \<and> admitted s \<subseteq> dom (cs_job s)"
  by (auto simp: conc_inv_def admitted_def intro: finite_subset)

lemma conc_inv_job: "conc_inv az P a fl gl g n s \<Longrightarrow> mw_phase (cs_mw s) i = Some p \<Longrightarrow> \<exists>j. cs_job s i = Some j"
  unfolding conc_inv_def by blast

text \<open>A step of the limiter that admits no one new.\<close>

lemma conc_inv_mw:
  assumes "conc_inv az P a fl gl g n s" "admitted (with_mw m s) \<subseteq> admitted s" "dom (mw_phase m) \<subseteq> dom (mw_phase (cs_mw s))"
    "lm_global (mw_lim m) = lm_global (mw_lim (cs_mw s))"
  shows "conc_inv az P a fl gl g n (with_mw m s)"
proof -
  have "(\<Sum>i\<in>admitted (with_mw m s). n i) \<le> (\<Sum>i\<in>admitted s. n i)"
    using conc_inv_admitted [OF assms(1)] assms(2) by (intro sum_mono2) auto
  moreover have "dom (mw_phase m) \<subseteq> dom (cs_job s)" using assms(1,3) by (auto simp: conc_inv_def)
  ultimately show ?thesis using assms(1,4) by (simp add: conc_inv_def trace_inv_def rate_inv_def)
qed

lemma mw_fields:
  "mw_lim (acquire_fast i m) = mw_lim m" "lm_global (mw_lim (mw_arrive fl now order i addr m)) = lm_global (mw_lim m)"
  "mw_phase (enter_phase i p m) = (mw_phase m)(i \<mapsto> p)" "mw_phase (refuse i r m) = (mw_phase m)(i := None)"
  "mw_phase (mw_release i m) = (mw_phase m)(i := None)"
  "\<exists>p. mw_phase (acquire_fast i m) = (mw_phase m)(i \<mapsto> p) \<and> p \<noteq> PerClientPassed"
  by (auto simp: acquire_fast_def mw_arrive_def mw_release_def enter_phase_def refuse_def Let_def split: option.split prod.split)

lemma conc_step_arrive:
  assumes "conc_inv az P a fl gl g n s" "mw_phase (cs_mw s) i = None" "safe_job az P a None 1 j"
  shows "conc_inv az P a fl gl (g(i := None)) (n(i := 1))
    (s\<lparr>cs_mw := mw_arrive fl now order i addr (cs_mw s), cs_job := (cs_job s)(i \<mapsto> j)\<rparr>)" (is "conc_inv _ _ _ _ _ ?g ?n ?s")
proof -
  have phases: "mw_phase (cs_mw ?s) = (mw_phase (cs_mw s))(i := None) \<or> mw_phase (cs_mw ?s) = (mw_phase (cs_mw s))(i \<mapsto> PerClientPassed)"
    by (simp add: mw_arrive_def Let_def split_def mw_fields)
  then have adm: "admitted ?s = admitted s" using assms(2) by (auto simp: admitted_def split: if_splits)
  have "i \<notin> admitted s" using assms(2) by (simp add: admitted_def)
  then have "(\<Sum>i\<in>admitted ?s. ?n i) = (\<Sum>i\<in>admitted s. n i)" unfolding adm by (intro sum.cong) auto
  then have rate: "rate_inv fl gl ?n ?s" using assms(1) by (simp add: conc_inv_def rate_inv_def mw_fields)
  have fin: "finite (dom (cs_job s))" using assms(1) by (simp add: conc_inv_def)
  have inv: "trace_inv az P a g s" using assms(1) by (simp add: conc_inv_def)
  have fewer: "card {l \<in> dom (cs_job ?s). grant_for k (?g l)} \<le> card {l \<in> dom (cs_job s). grant_for k (g l)}" for k
    using fin by (intro card_mono) (auto simp: grant_for_def split: if_splits)
  have "trace_inv az P a ?g ?s"
    unfolding trace_inv_def using order_trans [OF add_left_mono [OF fewer] trace_inv_count [OF inv]] inv
    by (intro conjI allI) (auto simp: trace_inv_def split: if_splits)
  moreover have "dom (mw_phase (cs_mw ?s)) \<subseteq> dom (cs_job ?s)"
    using phases conc_inv_job [OF assms(1)] by (auto split: if_splits)
  ultimately show ?thesis using assms(1,3) rate fin unfolding conc_inv_def by simp
qed

lemma conc_step_global:
  assumes "conc_inv az P a fl gl g n s" "mw_phase (cs_mw s) i = Some PerClientPassed"
  shows "conc_inv az P a fl gl g n (s\<lparr>cs_mw := mw_global fl now order i (cs_mw s), cs_checks := cs_checks s @ [(now, order)]\<rparr>)"
    (is "conc_inv _ _ _ _ _ _ _ ?s")
proof -
  obtain ok l where al: "allow fl now order '''' (lm_global (mw_lim (cs_mw s))) = (ok, l)" by force
  have phase: "mw_phase (mw_global fl now order i (cs_mw s)) = (mw_phase (cs_mw s))(i := (if ok then Some GlobalPassed else None))"
    and lim: "lm_global (mw_lim (mw_global fl now order i (cs_mw s))) = l"
    by (cases ok; simp add: mw_global_def al mw_fields)+
  have notin: "i \<notin> admitted s" using assms(2) by (simp add: admitted_def)
  have adm: "admitted ?s = (if ok then insert i (admitted s) else admitted s)"
    using notin by (auto simp: admitted_def phase split: if_splits)
  obtain j where "cs_job s i = Some j" using assms by (auto simp: conc_inv_def)
  then have "n i \<le> 1" using assms(1) by (simp add: conc_inv_def)
  then have "(\<Sum>i\<in>admitted ?s. n i) \<le> (\<Sum>i\<in>admitted s. n i) + (if ok then 1 else 0)"
    using notin conc_inv_admitted [OF assms(1)] by (simp add: adm)
  moreover have inv: "rate_inv fl gl n s" using assms(1) by (simp add: conc_inv_def)
  moreover have "allow_run fl '''' (cs_checks ?s) gl = (fst (allow_run fl '''' (cs_checks s) gl) + (if ok then 1 else 0), l)"
    using inv al by (simp add: allow_run_snoc rate_inv_def)
  ultimately have "rate_inv fl gl n ?s" by (auto simp: rate_inv_def lim)
  moreover have "dom (mw_phase (cs_mw ?s)) \<subseteq> dom (cs_job ?s)"
    using assms by (auto simp: conc_inv_def phase split: if_splits)
  ultimately show ?thesis using assms(1) by (simp add: conc_inv_def trace_inv_def)
qed

lemma conc_step_act:
  assumes "conc_inv az P a fl gl g n s" "mw_phase (cs_mw s) i = Some Running" "cs_job s i = Some (Act f)"
  shows "\<exists>g' n'. conc_inv az P a fl gl g' n' (s\<lparr>cs_world := snd (f (cs_world s)), cs_job := (cs_job s)(i \<mapsto> fst (f (cs_world s)))\<rparr>)"
    (is "\<exists>g' n'. conc_inv _ _ _ _ _ _ _ ?s")
proof -
  let ?w = "cs_world s"
  have inv: "trace_inv az P a g s" "rate_inv fl gl n s" "finite (dom (cs_job s))" "safe_job az P a (g i) (n i) (Act f)" "n i \<le> 1"
    using assms(1,3) by (simp_all add: conc_inv_def)
  then have authz: "bw_authz ?w = a" by (simp add: trace_inv_def)
  obtain new g' m where dec: "decides az P a ?w (snd (f ?w))" and new: "bw_trace (snd (f ?w)) = bw_trace ?w @ new"
    and gate: "gate (g i) new = Some g'" and m: "count_ev is_ask new + m \<le> n i" and safe: "safe_job az P a g' m (fst (f ?w))"
    using safe_job_ActE [OF inv(4)] authz by metis
  have dom: "dom (cs_job ?s) = dom (cs_job s)" using assms(3) by auto
  have dec': "bw_authz (snd (f ?w)) = a" "\<forall>req res. AuthorizeEv req res \<in> set new \<longrightarrow> P req \<and> res = fst (az req a)"
    using dec new by (auto simp: decides_def)
  have others: "{l \<in> dom (cs_job s) - {i}. grant_for k ((g(i := g')) l)} = {l \<in> dom (cs_job s) - {i}. grant_for k (g l)}" for k
    by auto
  have i: "i \<in> dom (cs_job s)" using assms(3) by auto
  have "count_ev (asks_for k) (bw_trace (snd (f ?w))) + card {l \<in> dom (cs_job s). grant_for k ((g(i := g')) l)}
      \<le> count_ev (allows_for k) (bw_trace (snd (f ?w)))" for k
  proof -
    from trace_inv_count [OF inv(1), of k] gate_count [OF gate, of k] card_split [OF inv(3) i, of "\<lambda>l. grant_for k (g l)"]
      card_split [OF inv(3) i, of "\<lambda>l. grant_for k ((g(i := g')) l)", unfolded others fun_upd_same]
    show ?thesis unfolding new count_ev_simps by linarith
  qed
  moreover have held: "granted_in (bw_trace ?w) d" if "l \<in> dom (cs_job s)" "g l = Some d" for l d
    using inv(1) that by (simp add: trace_inv_def)
  note mine = held [OF i]
  have "\<exists>d. granted_in (bw_trace (snd (f ?w))) d \<and> decided_ask d e" if "e \<in> set (bw_trace (snd (f ?w)))" "is_ask e" for e
  proof (cases "e \<in> set new")
    case True
    have "issuance_gated (g i) new" using gate by (auto simp: gate_gated)
    from gated_decided [OF this True that(2)] show ?thesis using mine unfolding new granted_in_def set_append by blast
  qed (use that inv(1) in \<open>auto simp: new trace_inv_def\<close>)
  moreover have "granted_in (bw_trace (snd (f ?w))) d" if "l \<in> dom (cs_job s)" "(g(i := g')) l = Some d" for l d
  proof (cases "l = i")
    case True
    then have "g i = Some d \<or> granted_in new d" using that gate_grant [of "g i" new d] gate by (simp add: granted_in_def)
    then show ?thesis using mine unfolding new granted_in_append by blast
  qed (use that held in \<open>simp add: new\<close>)
  ultimately have "trace_inv az P a (g(i := g')) ?s"
    using inv(1) dec' unfolding trace_inv_def dom by (auto simp: new)
  moreover have "rate_inv fl gl (n(i := m)) ?s"
  proof -
    have adm: "admitted ?s = admitted s" "finite (admitted s)" "i \<in> admitted s"
      using conc_inv_admitted [OF assms(1)] assms(2) by (simp_all add: admitted_def)
    have "(\<Sum>l\<in>admitted s. (n(i := m)) l) + count_ev is_ask new \<le> (\<Sum>l\<in>admitted s. n l)"
      using adm(2,3) m by (simp add: sum.remove)
    then show ?thesis using inv(2) by (simp add: rate_inv_def adm new)
  qed
  moreover have "m \<le> 1" using m inv(5) by simp
  ultimately have "conc_inv az P a fl gl (g(i := g')) (n(i := m)) ?s"
    using assms(1) safe unfolding conc_inv_def dom by auto
  then show ?thesis by blast
qed

lemma conc_inv_step:
  assumes "conc_step G L X R fl br s s'" "conc_inv az P a fl gl g n s"
    and "\<And>inp. safe_job az P a None 1 (input_job G L X R br inp)"
  shows "\<exists>g' n'. conc_inv az P a fl gl g' n' s'"
  using assms(1)
proof cases
  case (arrive i inp addr order now)
  then show ?thesis using conc_step_arrive [OF assms(2) _ assms(3)] by blast
next
  case (global i order now)
  then show ?thesis using conc_step_global [OF assms(2)] by blast
next
  case (fast i)
  obtain p where "mw_phase (acquire_fast i (cs_mw s)) = (mw_phase (cs_mw s))(i \<mapsto> p)" "p \<noteq> PerClientPassed" using mw_fields(6) by blast
  then have "conc_inv az P a fl gl g n s'" unfolding fast(1) using fast(2)
    by (intro conc_inv_mw [OF assms(2)]) (auto simp: admitted_def mw_fields)
  then show ?thesis by blast
next
  case (slot i c)
  then have "conc_inv az P a fl gl g n s'" unfolding slot(1)
    by (intro conc_inv_mw [OF assms(2)]) (auto simp: admitted_def mw_fields)
  then show ?thesis by blast
next
  case (shed i)
  then have "conc_inv az P a fl gl g n s'" unfolding shed(1)
    by (intro conc_inv_mw [OF assms(2)]) (auto simp: admitted_def mw_fields split: if_splits)
  then show ?thesis by blast
next
  case (act i f)
  then show ?thesis using conc_step_act [OF assms(2)] by blast
next
  case (release i out)
  then have "conc_inv az P a fl gl g n s'" unfolding release(1)
    by (intro conc_inv_mw [OF assms(2)]) (auto simp: admitted_def mw_fields release_fields split: if_splits)
  then show ?thesis by blast
next
  case (health r)
  have "bw_trace (snd (healthHandler (brokerEnroller R) r w)) = bw_trace w" "bw_authz (snd (healthHandler (brokerEnroller R) r w)) = bw_authz w"
    for w :: "(StaticSecret, baoClient) broker_world"
    by (simp_all add: healthHandler_def readyz_def split_def Let_def)
  then have "conc_inv az P a fl gl g n s'" using assms(2) unfolding health
    by (simp add: conc_inv_def trace_inv_def rate_inv_def admitted_def input_job_def)
  then show ?thesis by blast
qed

lemma conc_reach_inv:
  assumes "(conc_step G L X R fl br)\<^sup>*\<^sup>* (conc_init br) s" and "bw_trace (br_world br) = []"
    and "\<And>inp. safe_job az P (bw_authz (br_world br)) None 1 (input_job G L X R br inp)"
  shows "\<exists>g n. conc_inv az P (bw_authz (br_world br)) fl (lm_global (br_limiter br)) g n s"
  using assms(1)
proof (induction rule: rtranclp_induct)
  case base
  have "conc_inv az P (bw_authz (br_world br)) fl (lm_global (br_limiter br)) (\<lambda>_. None) (\<lambda>_. 0) (conc_init br)"
    by (simp add: conc_inv_def trace_inv_def rate_inv_def conc_init_def assms(2) admitted_def)
  then show ?case by blast
next
  case (step s s')
  then show ?case using conc_inv_step [OF step.hyps(2) _ assms(3)] by blast
qed

text \<open>The jobs of a broker started without the development switch.\<close>

lemma started_jobs_safe:
  assumes "startup G O' X yaml R path False devRole = Ok br" "Load O' path = Ok cfg" "TrustPools O' cfg = Ok (bootstrapRoots, deviceRoots)"
  shows "safe_job (eh_authz (br_est br)) (anchored L X bootstrapRoots deviceRoots) (bw_authz (br_world br)) None 1 (input_job G L X R br inp)"
proof -
  obtain az s where sel: "selectAuthorizer G O' yaml cfg False devRole = Ok (az, s)"
    and est: "est_NewHandler (estOptions cfg bootstrapRoots deviceRoots (brokerEnroller R) az) = Ok (br_est br)"
    and s: "bw_authz (br_world br) = s"
    and scep: "\<And>sh srv. br_scep br = Some (sh, srv) \<Longrightarrow>
      \<exists>cache. buildSCEPServer G O' X cfg deviceRoots (brokerEnroller R) az = Ok (sh, cache, srv)"
    using assms(2,3) by (auto intro: startup_Ok [OF assms(1)])
  note az = est_NewHandler_authz [OF est]
  have stable: "snd (az req s') = s'" for req s'
    using selectAuthorizer_Ok [OF sel] configPipeline_state by metis
  show ?thesis
  proof (cases inp)
    case (EstIn boundary r)
    then show ?thesis using safe_est_job [of "br_est br" s L X G boundary r] stable az by (simp add: input_job_def s)
  next
    case (ScepIn now nonce r)
    have "safe_job az (anchored L X bootstrapRoots deviceRoots) s None 1 (scep_job G L X h now nonce r)"
      if some: "br_scep br = Some (h, srv)" for h srv
    proof -
      obtain cache where "buildSCEPServer G O' X cfg deviceRoots (brokerEnroller R) az = Ok (h, cache, srv)"
        using scep [OF some] by blast
      then obtain raCert raKey where "scep_NewHandler (scepOptions G X cfg raCert raKey deviceRoots (brokerEnroller R) az) = Ok h"
        by (rule buildSCEPServer_Ok)
      from scep_NewHandler_Ok [OF this] have "scep_authorizer h = az" "pr_DeviceRoots (sh_parser h) = deviceRoots"
        by (simp_all add: scep_authorizer_def scepOptions_def)
      then show ?thesis using safe_scep_job [of h s L X bootstrapRoots G now nonce r] stable by simp
    qed
    then show ?thesis using ScepIn az s by (auto simp: input_job_def safe_job.finished split: option.split)
  qed (simp add: input_job_def safe_health_job)
qed

section \<open>What the jobs send\<close>

inductive requesting_job :: "baoRuntime \<Rightarrow> (('s, baoClient) broker_world, 'a) job \<Rightarrow> bool" for R where
  finished: "requesting_job R (Finished a)"
| act: "(\<And>w. requests R w (snd (f w)) \<and> requesting_job R (fst (f w))) \<Longrightarrow> requesting_job R (Act f)"

inductive_cases requesting_job_ActE: "requesting_job R (Act f)"

lemma requesting_lastly: "(\<And>w. requests R w (snd (f w))) \<Longrightarrow> requesting_job R (lastly f)"
  unfolding lastly_def by (rule requesting_job.act) (simp add: split_def requesting_job.finished)

lemma requesting_deciding:
  assumes "\<And>res w w1. requests R w w1 \<Longrightarrow> requests R w (refused res w1)" "\<And>d. requesting_job R (issue d)"
  shows "requesting_job R (Act (deciding az req answer refused issue))"
proof (rule requesting_job.act)
  fix w
  show "requests R w (snd (deciding az req answer refused issue w)) \<and> requesting_job R (fst (deciding az req answer refused issue w))"
    using requests_callAuthorize [of R w az req] assms
    by (simp add: deciding_def split_def Let_def requesting_job.finished split: option.split)
qed

lemma requests_refusal:
  assumes "\<And>d outcome err. requests R w (audit d outcome err w1)"
  shows "requests R w (refusal res audit w1)"
  using assms by (simp add: refusal_def split: sum.split)

lemma requesting_est_job:
  assumes "eh_enroller h = brokerEnroller R"
  shows "requesting_job R (est_job G X h boundary r)"
proof -
  have "requesting_job R (authorized_job h op req issue)" if "\<And>d w. requests R w (snd (issue d w))" for op req issue
    unfolding authorized_job_deciding
    by (intro requesting_deciding requesting_lastly requests_refusal requests_audit) (simp_all add: that)
  then have "requesting_job R (enroll_job G X h r op label)" "requesting_job R (serverKeyGen_job G X h boundary r label)" for op label
    using requests_issue(1,2) [OF assms] by (auto simp: enroll_job_def serverKeyGen_job_def requesting_job.finished split: sum.split)
  then show ?thesis
    using est_requests [OF assms] by (auto simp: est_job_def requesting_job.finished requesting_lastly split: option.split)
qed

lemma requesting_scep_job:
  assumes "sh_enroller h = brokerEnroller R"
  shows "requesting_job R (scep_job G L X h now nonce r)"
proof -
  have policy: "requesting_job R (scepPolicy_job G L X h nonce r req az)" for req az
    unfolding scepPolicy_job_deciding
    by (intro requesting_deciding requesting_lastly requests_refusal requests_audit) (simp_all add: requests_issue(3) [OF assms])
  have "requesting_job R (scepProcess_job G L X h now nonce r req)" for req
    unfolding scepProcess_job_def
    by (rule requesting_job.act) (auto simp: split_def Let_def policy requesting_job.finished intro: requests_same split: option.split)
  then show ?thesis
    using scep_requests [OF assms] by (auto simp: scep_job_def requesting_job.finished requesting_lastly split: sum.split)
qed

lemma conc_reach_requests:
  assumes "(conc_step G L X R fl br)\<^sup>*\<^sup>* (conc_init br) s"
    and "eh_enroller (br_est br) = brokerEnroller R" "\<And>h srv. br_scep br = Some (h, srv) \<Longrightarrow> sh_enroller h = brokerEnroller R"
  shows "requests R (br_world br) (cs_world s) \<and> (\<forall>i j. cs_job s i = Some j \<longrightarrow> requesting_job R j)"
  using assms(1)
proof (induction rule: rtranclp_induct)
  case base
  show ?case by (simp add: conc_init_def)
next
  case (step s s')
  have input: "requesting_job R (input_job G L X R br i)" for i
    using requesting_est_job [OF assms(2)] requesting_scep_job [OF assms(3)] requests_chain(3)
    by (auto simp: input_job_def requesting_job.finished requests_chain(3) intro!: requesting_lastly split: broker_input.split option.split)
  from step.hyps(2) show ?case
  proof cases
    case (act i f)
    then have "requesting_job R (Act f)" using step.IH by blast
    then have "requests R (cs_world s) (snd (f (cs_world s)))" "requesting_job R (fst (f (cs_world s)))"
      by (auto elim: requesting_job_ActE)
    with act step.IH show ?thesis by (auto intro: requests_trans)
  next
    case (health r)
    have "requests R (cs_world s) (cs_world s')"
      unfolding health by (simp add: input_job_def requests_chain(3))
    with health step.IH show ?thesis by (auto intro: requests_trans)
  qed (use step.IH input in auto)
qed

text \<open>The requests for a certificate of a started broker, against its calls.\<close>

lemma conc_posts:
  assumes "startup G O' X yaml R path dev devRole = Ok br" "Load O' path = Ok cfg" "(conc_step G L X R fl br)\<^sup>*\<^sup>* (conc_init br) s"
  shows "length (cert_posts (bw_bao (cs_world s))) \<le> Suc (nat (ob_MaxRetries (cf_OpenBao cfg))) * count_ev is_ask (bw_trace (cs_world s))"
    and "\<forall>q\<in>set (cert_posts (bw_bao (cs_world s))). \<exists>e\<in>set (bw_trace (cs_world s)).
      posted (rt_json R) (rt_escape R) (bc_cfg (bw_bao (cs_world s))) e q"
proof -
  note start = startup_requests [OF assms(1,2)]
  have "requests R (br_world br) (cs_world s)"
    by (rule conc_reach_requests [OF assms(3) start(1), THEN conjunct1]) (rule start(2))
  note posts = requests_posts [OF this start(3,4), unfolded start(5)]
  show "length (cert_posts (bw_bao (cs_world s))) \<le> Suc (nat (ob_MaxRetries (cf_OpenBao cfg))) * count_ev is_ask (bw_trace (cs_world s))"
    by (rule posts(2))
  show "\<forall>q\<in>set (cert_posts (bw_bao (cs_world s))). \<exists>e\<in>set (bw_trace (cs_world s)).
      posted (rt_json R) (rt_escape R) (bc_cfg (bw_bao (cs_world s))) e q"
    unfolding posts(1) by (rule posts(3))
qed


text \<open>
  (C5) The limiter bounds what reaches OpenBao, for a rate and a burst that are not negative (a negative one switches
  the limiter off): under every interleaving, the calls for a certificate since the first request are at most
  the burst of the listener-wide limiter plus its rate times the elapsed time, up to the rounding of the
  floating-point operations (relative error e per operation), and the requests for a certificate that are sent
  are at most MaxRetries + 1 times as many, whatever the number of clients and of handlers running at once.\<close>

theorem issuance_rate_is_limited:
  assumes "startup G O' X yaml R path False devRole = Ok br" and "Load O' path = Ok cfg"
    and "TrustPools O' cfg = Ok (bootstrapRoots, deviceRoots)" and "(conc_step G L X R fl br)\<^sup>*\<^sup>* (conc_init br) s"
    and "rounding fl" and "rel_error e fl" and "limits = withDefaults (limitsConfig cfg)"
    and "0 \<le> lc_GlobalRate limits" and "0 \<le> lc_GlobalBurst limits" and "fl (lc_GlobalBurst limits) = lc_GlobalBurst limits"
    and "cs_checks s = (start, order) # checks" and "\<forall>c\<in>set (cs_checks s). fst c \<le> t"
    and "bound = lc_GlobalBurst limits + 2 * e * lc_GlobalBurst limits * of_nat (length checks + 1)
      + lc_GlobalRate limits * (1 + e) ^ 5 * (of_int (t - start) / 1000000000)"
  shows "of_nat (count_ev is_ask (bw_trace (cs_world s))) \<le> bound \<and>
    of_nat (length (cert_posts (bw_bao (cs_world s)))) \<le> of_nat (Suc (nat (ob_MaxRetries (cf_OpenBao cfg)))) * bound"
proof -
  have lim: "br_limiter br = limits_New (limitsConfig cfg)" and empty: "bw_trace (br_world br) = []"
    using assms(2) by (auto intro: startup_Ok [OF assms(1)])
  have global: "lm_global (br_limiter br) = newKeyedLimiter (lc_GlobalRate limits) (lc_GlobalBurst limits) 1"
    by (simp add: lim limits_New_def assms(7) Let_def)
  obtain g n where "conc_inv (eh_authz (br_est br)) (anchored L X bootstrapRoots deviceRoots) (bw_authz (br_world br)) fl
      (lm_global (br_limiter br)) g n s"
    using conc_reach_inv [OF assms(4) empty started_jobs_safe [OF assms(1-3)]] by blast
  then have "count_ev is_ask (bw_trace (cs_world s)) \<le> fst (allow_run fl '''' (cs_checks s) (lm_global (br_limiter br)))"
    by (simp add: conc_inv_def rate_inv_def)
  then have "of_nat (count_ev is_ask (bw_trace (cs_world s))) \<le>
      (of_nat (fst (allow_run fl '''' ((start, order) # checks) (newKeyedLimiter (lc_GlobalRate limits) (lc_GlobalBurst limits) 1))) :: real)"
    unfolding global assms(11) by simp
  also have "\<dots> \<le> bound"
    unfolding assms(13) using assms(11,12) by (intro listener_run [OF assms(5,6,8,9,10)]) (simp add: list_all_iff)
  finally have calls: "of_nat (count_ev is_ask (bw_trace (cs_world s))) \<le> bound" .
  have "(of_nat (length (cert_posts (bw_bao (cs_world s)))) :: real) \<le>
      of_nat (Suc (nat (ob_MaxRetries (cf_OpenBao cfg)))) * of_nat (count_ev is_ask (bw_trace (cs_world s)))"
    using conc_posts(1) [OF assms(1,2,4)] unfolding of_nat_mult [symmetric] of_nat_le_iff .
  also have "\<dots> \<le> of_nat (Suc (nat (ob_MaxRetries (cf_OpenBao cfg)))) * bound" by (rule mult_left_mono [OF calls]) simp
  finally show ?thesis using calls by blast
qed

section \<open>A concurrent run\<close>

text \<open>
  One re-enrollment passes the limiter, is authorized and issued; the first answer of OpenBao is lost, and
  the client sends its request again.
\<close>

lemma allow_first:
  assumes "0 \<le> rate" "1 \<le> burst" "0 < keys"
  shows "fst (allow (\<lambda>x. x) now order key (newKeyedLimiter rate burst keys))"
  using assms
  by (simp add: allow_def newKeyedLimiter_def Let_def split_def take_token_def refill_def durSeconds_def time_Sub_def
      minInt64_def maxInt64_def go_map_simps)

lemma ex_limits_config:
  "withDefaults (limitsConfig ex_config) = \<lparr>lc_PerClientRate = 1, lc_PerClientBurst = 5, lc_GlobalRate = 50, lc_GlobalBurst = 100,
     lc_MaxConcurrent = 32, lc_AcquireTimeout = 5 * second, lc_MaxClients = 65536\<rparr>"
  by (simp add: withDefaults_def limitsConfig_def ex_config_def Default_def second_def)

text \<open>The two actions of a request that is allowed.\<close>

lemma authorized_job_actions:
  assumes "grantOf (fst (eh_authz h req (bw_authz w))) = Some d"
  obtains f g where "authorized_job h op req issue = Act f" "fst (f w) = Act g"
    "snd (g (snd (f w))) = snd (run_job (authorized_job h op req issue) w)"
proof -
  define f where "f = deciding (eh_authz h) req
     (\<lambda>res. responded (case res of Inl _ \<Rightarrow> httpError ''authorization error'' StatusInternalServerError
        | Inr _ \<Rightarrow> httpError ''not authorized'' StatusForbidden))
     (\<lambda>res. refusal res (est_audit op req)) (\<lambda>d. lastly (\<lambda>w. map_prod responded id (issue d w)))"
  have job: "authorized_job h op req issue = Act f" by (simp add: authorized_job_deciding f_def)
  have "fst (f w) = lastly (\<lambda>w. map_prod responded id (issue d w))"
    using assms by (simp add: f_def deciding_def split_def Let_def)
  then show thesis
    using that [of f "\<lambda>w. case map_prod responded id (issue d w) of (a, w') \<Rightarrow> (Finished a, w')"] job
    by (simp add: lastly_def split_def)
qed

lemma ex_renewal_granted:
  "case frontDoor exampleLib ex_x509 ex_broker_est (ex_post ''simplereenroll'') OpSimpleReenroll '''' of
     Inl _ \<Rightarrow> False | Inr (csrDER, req) \<Rightarrow> grantOf (fst (eh_authz ex_broker_est req (bw_authz ex_broker_world))) \<noteq> None"
  by code_simp

lemma ex_renewal_actions:
  obtains f g where "est_job exampleLib ex_x509 ex_broker_est ''b'' (ex_post ''simplereenroll'') = Act f"
    "fst (f ex_broker_world) = Act g"
    "snd (g (snd (f ex_broker_world))) = snd (est_ServeHTTP exampleLib ex_x509 ex_broker_est ''b'' (ex_post ''simplereenroll'') ex_broker_world)"
proof -
  have "estRoute (hq_Path (ex_post ''simplereenroll'')) = Some ('''', ''simplereenroll'')" by code_simp
  moreover obtain csrDER req d where req: "frontDoor exampleLib ex_x509 ex_broker_est (ex_post ''simplereenroll'') OpSimpleReenroll '''' = Ok (csrDER, req)"
    "grantOf (fst (eh_authz ex_broker_est req (bw_authz ex_broker_world))) = Some d"
    using ex_renewal_granted by (auto split: sum.splits prod.splits)
  ultimately have job: "est_job exampleLib ex_x509 ex_broker_est ''b'' (ex_post ''simplereenroll'') =
      authorized_job ex_broker_est OpSimpleReenroll req (enrollIssue exampleLib ex_x509 ex_broker_est OpSimpleReenroll csrDER req)"
    by (simp add: est_job_def enroll_job_def) (simp add: ex_post_def)
  have run: "snd (run_job (authorized_job ex_broker_est OpSimpleReenroll req (enrollIssue exampleLib ex_x509 ex_broker_est OpSimpleReenroll csrDER req))
      ex_broker_world) = snd (est_ServeHTTP exampleLib ex_x509 ex_broker_est ''b'' (ex_post ''simplereenroll'') ex_broker_world)"
    unfolding job [symmetric] run_est_job by simp
  obtain f g where fg: "authorized_job ex_broker_est OpSimpleReenroll req (enrollIssue exampleLib ex_x509 ex_broker_est OpSimpleReenroll csrDER req) = Act f"
    "fst (f ex_broker_world) = Act g" "snd (g (snd (f ex_broker_world))) = snd (run_job (authorized_job ex_broker_est OpSimpleReenroll req
       (enrollIssue exampleLib ex_x509 ex_broker_est OpSimpleReenroll csrDER req)) ex_broker_world)"
    using req(2) by (rule authorized_job_actions)
  show thesis by (rule that [of f g]) (simp_all only: job fg(1,2) fg(3) [unfolded run])
qed

lemma ex_conc_run:
  assumes "startup exampleLib ex_os ex_x509 (\<lambda>_. Ok []) ex_lost ''config.yaml'' False '''' = Ok br"
  obtains s where "(conc_step exampleLib L ex_x509 ex_lost (\<lambda>x. x) br)\<^sup>*\<^sup>* (conc_init br) s" "cs_checks s = [(0, [])]"
    "length (cert_posts (bw_bao (cs_world s))) = 2" "count_ev is_ask (bw_trace (cs_world s)) = 1" "count_ev is_allow (bw_trace (cs_world s)) = 1"
proof -
  let ?step = "conc_step exampleLib L ex_x509 ex_lost (\<lambda>x. x) br" and ?addr = "''192.0.2.1:4000''"
  note br = ex_startup_lost [OF assms]
  have lim: "br_limiter br = limits_New (limitsConfig ex_config)"
    using assms by (rule startup_Ok) (simp add: ex_load)
  have new: "lm_perClient (br_limiter br) = newKeyedLimiter 1 5 65536" "lm_global (br_limiter br) = newKeyedLimiter 50 100 1"
    "lm_sem (br_limiter br) = Some 32"
    by (simp_all add: lim limits_New_def ex_limits_config Let_def)
  obtain f g where f: "est_job exampleLib ex_x509 ex_broker_est ''b'' (ex_post ''simplereenroll'') = Act f"
    "fst (f ex_broker_world) = Act g"
    "snd (g (snd (f ex_broker_world))) = snd (est_ServeHTTP exampleLib ex_x509 ex_broker_est ''b'' (ex_post ''simplereenroll'') ex_broker_world)"
    by (rule ex_renewal_actions)
  define inp where "inp = EstIn ''b'' (ex_post ''simplereenroll'')"
  define s1 where "s1 = (conc_init br)\<lparr>cs_mw := mw_arrive (\<lambda>x. x) 0 [] 0 ?addr (cs_mw (conc_init br)), cs_job := [0 \<mapsto> Act f]\<rparr>"
  define s2 where "s2 = s1\<lparr>cs_mw := mw_global (\<lambda>x. x) 0 [] 0 (cs_mw s1), cs_checks := [(0, [])]\<rparr>"
  define s3 where "s3 = with_mw (acquire_fast 0 (cs_mw s2)) s2"
  define s4 where "s4 = s3\<lparr>cs_world := snd (f (cs_world s3)), cs_job := (cs_job s3)(0 \<mapsto> fst (f (cs_world s3)))\<rparr>"
  define s5 where "s5 = s4\<lparr>cs_world := snd (g (cs_world s4)), cs_job := (cs_job s4)(0 \<mapsto> fst (g (cs_world s4)))\<rparr>"
  have buckets: "kl_buckets (newKeyedLimiter rate burst keys) = gm_empty" for rate burst keys by (simp add: newKeyedLimiter_def)
  have order: "gm_order gm_empty []" by (simp add: gm_order_def gm_keys_def gm_empty_def)
  have ip: "ClientIP ?addr \<noteq> ''''" by code_simp
  have "?step (conc_init br) s1"
    using conc_step.arrive [of "conc_init br" 0 inp ?addr "[]" exampleLib L ex_x509 ex_lost "\<lambda>x. x" br 0] ip order f
    by (simp add: s1_def inp_def input_addr_def input_job_def br ex_post_def [of "''simplereenroll''"] conc_init_def new buckets)
  moreover have s1: "mw_phase (cs_mw s1) 0 = Some PerClientPassed" "lm_global (mw_lim (cs_mw s1)) = newKeyedLimiter 50 100 1"
    "lm_sem (mw_lim (cs_mw s1)) = Some 32" "mw_held (cs_mw s1) = 0" "cs_checks s1 = []"
    using allow_first [of 1 5 65536 0 "[]" "ClientIP ?addr"]
    by (simp_all add: s1_def mw_arrive_def conc_init_def new split_def Let_def enter_phase_def)
  then have "?step s1 s2"
    using conc_step.global [of s1 0 "[]" exampleLib L ex_x509 ex_lost "\<lambda>x. x" br 0] order by (simp add: s2_def buckets)
  moreover have s2: "mw_phase (cs_mw s2) 0 = Some GlobalPassed" "lm_sem (mw_lim (cs_mw s2)) = Some 32" "mw_held (cs_mw s2) = 0"
    using allow_first [of 50 100 1 0 "[]" "''''"] s1
    by (simp_all add: s2_def mw_global_def split_def Let_def enter_phase_def)
  then have "?step s2 s3" unfolding s3_def by (intro conc_step.fast)
  moreover have s3: "mw_phase (cs_mw s3) 0 = Some Running" "cs_job s3 0 = Some (Act f)" "cs_world s3 = ex_broker_world" "cs_checks s3 = [(0, [])]"
    using s2 by (simp_all add: s3_def acquire_fast_def enter_phase_def s2_def s1_def conc_init_def br)
  then have "?step s3 s4" unfolding s4_def by (intro conc_step.act)
  moreover have "?step s4 s5"
    unfolding s5_def by (rule conc_step.act [where i = 0]) (use s3 f(2) in \<open>simp_all add: s4_def\<close>)
  ultimately have "?step\<^sup>*\<^sup>* (conc_init br) s5" by (meson rtranclp.rtrancl_into_rtrancl rtranclp.rtrancl_refl)
  moreover have "cs_checks s5 = [(0, [])]"
    "cs_world s5 = snd (est_ServeHTTP exampleLib ex_x509 ex_broker_est ''b'' (ex_post ''simplereenroll'') ex_broker_world)"
    using s3 f(3) by (simp_all add: s5_def s4_def)
  ultimately show thesis using that ex_lost_run by (simp add: Let_def)
qed


theorem issuance_rate_is_limited_witness:
  "\<exists>br s. startup exampleLib ex_os ex_x509 (\<lambda>_. Ok []) ex_lost ''config.yaml'' False '''' = Ok br \<and>
     (conc_step exampleLib (ex_pkcs7 PKCSReq) ex_x509 ex_lost (\<lambda>x. x) br)\<^sup>*\<^sup>* (conc_init br) s \<and> count_ev is_ask (bw_trace (cs_world s)) = 1 \<and>
     of_nat (length (cert_posts (bw_bao (cs_world s)))) \<le> of_nat (Suc (nat (ob_MaxRetries (cf_OpenBao ex_config)))) * (100 :: real)"
proof -
  obtain br where br: "startup exampleLib ex_os ex_x509 (\<lambda>_. Ok []) ex_lost ''config.yaml'' False '''' = Ok br"
    unfolding ex_lost_def by (rule ex_startup)
  obtain s where s: "(conc_step exampleLib (ex_pkcs7 PKCSReq) ex_x509 ex_lost (\<lambda>x. x) br)\<^sup>*\<^sup>* (conc_init br) s" "cs_checks s = [(0, [])]"
    "count_ev is_ask (bw_trace (cs_world s)) = 1"
    using br by (rule ex_conc_run)
  have "of_nat (length (cert_posts (bw_bao (cs_world s)))) \<le> of_nat (Suc (nat (ob_MaxRetries (cf_OpenBao ex_config)))) * (100 :: real)"
    using issuance_rate_is_limited [OF br ex_load ex_pools s(1) rounding_id rel_error_id refl _ _ refl s(2) _ refl, of 0, THEN conjunct2] s(2)
    by (simp add: ex_limits_config)
  with s br show ?thesis by blast
qed

end
