(* ===== verification/Main_Lifecycle.thy ===== *)
theory Main_Lifecycle
  imports Main_Properties
begin

text \<open>
  The process around the broker, \<open>main\<close> and the second half of \<open>run\<close> in \<open>src/cmd/certbroker/main.go\<close>:
  the command line, the goroutines that serve the listeners, the channel on which they report
  their errors, the signals, and the shutdown of one listener after the other. Every send, receive,
  signal and return of a call is one step, and the steps of the goroutines interleave.
\<close>

section \<open>The command line\<close>

record flags =
  fg_config :: string
  fg_devAllowAll :: bool
  fg_devRole :: string

definition defaultFlags :: flags where
  "defaultFlags = \<lparr>fg_config = ''/etc/certbroker/config.yaml'', fg_devAllowAll = False, fg_devRole = ''''\<rparr>"

text \<open>\<open>strconv.ParseBool\<close>.\<close>

definition parseBool :: "string \<Rightarrow> bool option" where
  "parseBool v =
    (if v \<in> {''1'', ''t'', ''T'', ''true'', ''TRUE'', ''True''} then Some True
     else if v \<in> {''0'', ''f'', ''F'', ''false'', ''FALSE'', ''False''} then Some False else None)"

text \<open>
  \<open>flag.Parse\<close>: how an argument reads. One or two dashes make a flag, two alone end the flags, and
  the value follows the first equals sign that is not at the front of the name.
\<close>

datatype flag_token = NotAFlag | Terminator | BadFlag | FlagArg string "string option"

definition splitFlag :: "string \<Rightarrow> flag_token" where
  "splitFlag name =
    (if CHR ''='' \<in> set name
     then FlagArg (takeWhile (\<lambda>c. c \<noteq> CHR ''='') name) (Some (tl (dropWhile (\<lambda>c. c \<noteq> CHR ''='') name)))
     else FlagArg name None)"

definition readFlag :: "string \<Rightarrow> flag_token" where
  "readFlag s =
    (case s of
       a # b # rest \<Rightarrow>
         if a \<noteq> CHR ''-'' then NotAFlag
         else if b = CHR ''-'' \<and> rest = [] then Terminator
         else (let name = (if b = CHR ''-'' then rest else b # rest)
               in if hd name = CHR ''-'' \<or> hd name = CHR ''='' then BadFlag else splitFlag name)
     | _ \<Rightarrow> NotAFlag)"

datatype flag_error = FlagHelp | BadSyntax string | Undefined string | NeedsArgument string | BadBool string string

definition devFlag :: string where "devFlag = ''dev-insecure-allow-all''"

definition setString :: "string \<Rightarrow> string \<Rightarrow> flags \<Rightarrow> flags" where
  "setString name v f = (if name = ''config'' then f\<lparr>fg_config := v\<rparr> else f\<lparr>fg_devRole := v\<rparr>)"

fun parseFlags :: "string list \<Rightarrow> flags \<Rightarrow> (flag_error, flags) result" where
  "parseFlags [] f = Ok f"
| "parseFlags (s # args) f =
    (case readFlag s of
       NotAFlag \<Rightarrow> Ok f
     | Terminator \<Rightarrow> Ok f
     | BadFlag \<Rightarrow> Err (BadSyntax s)
     | FlagArg name value \<Rightarrow>
        if name = devFlag then
          (case value of
             None \<Rightarrow> parseFlags args (f\<lparr>fg_devAllowAll := True\<rparr>)
           | Some v \<Rightarrow> (case parseBool v of None \<Rightarrow> Err (BadBool v name) | Some b \<Rightarrow> parseFlags args (f\<lparr>fg_devAllowAll := b\<rparr>)))
        else if name = ''config'' \<or> name = ''dev-role'' then
          (case value of
             Some v \<Rightarrow> parseFlags args (setString name v f)
           | None \<Rightarrow> (case args of [] \<Rightarrow> Err (NeedsArgument name) | v # rest \<Rightarrow> parseFlags rest (setString name v f)))
        else if name = ''help'' \<or> name = ''h'' then Err FlagHelp
        else Err (Undefined name))"

text \<open>
  \<open>main\<close> up to the listeners: the process exits with a status, or the broker runs. The flag set exits
  with 2 on an error and with 0 when it was asked for help.
\<close>

definition broker_main :: "golib \<Rightarrow> osEnv \<Rightarrow> x509lib \<Rightarrow> (string \<Rightarrow> (string, deviceEntry list) result) \<Rightarrow> baoRuntime
   \<Rightarrow> string list \<Rightarrow> nat + broker" where
  "broker_main G O' X yaml R args =
    (case parseFlags args defaultFlags of
       Inl FlagHelp \<Rightarrow> Inl 0
     | Inl _ \<Rightarrow> Inl 2
     | Inr f \<Rightarrow>
        (case startup G O' X yaml R (fg_config f) (fg_devAllowAll f) (fg_devRole f) of Inl _ \<Rightarrow> Inl 1 | Inr br \<Rightarrow> Inr br))"

section \<open>Listeners, errors and signals\<close>

datatype listener = EstL | HealthL | ScepL

text \<open>A goroutine serves, has an error to report, or has ended.\<close>

datatype serving = Listening | Failing string | Quit

text \<open>
  Where \<open>run\<close> is: starting the goroutines, in the select, about to shut down the listeners that are
  left, waiting in the Shutdown of one of them, returned, or killed by a signal that no one had
  asked to be notified of yet.
\<close>

datatype run_phase =
    Launching "listener list" | Selecting | Stopping "listener list" | Draining listener "listener list"
  | Returned "string option" | Killed

text \<open>The last field is not part of the program: the errors with which listeners have failed.\<close>

record run_state =
  rn_go :: "listener \<rightharpoonup> serving"
  rn_closed :: "listener set"
  rn_active :: "listener \<Rightarrow> nat"
  rn_errCh :: "string list"
  rn_signal :: bool
  rn_expired :: bool
  rn_main :: run_phase
  rn_failures :: "(listener \<times> string) set"

definition errChCap :: nat where "errChCap = 3"

definition brokerListeners :: "broker \<Rightarrow> listener list" where
  "brokerListeners br = [EstL, HealthL] @ (case br_scep br of None \<Rightarrow> [] | Some _ \<Rightarrow> [ScepL])"

definition run_init :: "listener list \<Rightarrow> run_state" where
  "run_init ls = \<lparr>rn_go = Map.empty, rn_closed = {}, rn_active = (\<lambda>_. 0), rn_errCh = [], rn_signal = False,
     rn_expired = False, rn_main = Launching ls, rn_failures = {}\<rparr>"

definition alive :: "run_state \<Rightarrow> bool" where
  "alive s = (case rn_main s of Returned _ \<Rightarrow> False | Killed \<Rightarrow> False | _ \<Rightarrow> True)"

definition to_main :: "run_phase \<Rightarrow> run_state \<Rightarrow> run_state" where
  "to_main p s = s\<lparr>rn_main := p\<rparr>"

definition to_go :: "listener \<Rightarrow> serving \<Rightarrow> run_state \<Rightarrow> run_state" where
  "to_go l g s = s\<lparr>rn_go := (rn_go s)(l \<mapsto> g)\<rparr>"

text \<open>
  The steps of \<open>run\<close> for the given listeners: \<open>launch\<close> to \<open>killed\<close> are its start, \<open>received\<close> and
  \<open>stop\<close> the two cases of the select, \<open>close\<close> to \<open>stopped\<close> the shutdown. The others belong to
  the goroutines (\<open>fail\<close>, \<open>closed\<close>, \<open>send\<close>), to the clients (\<open>accept\<close>, \<open>served\<close>) and to
  the outside (\<open>signal\<close>, \<open>deadline\<close>).
\<close>

inductive run_step :: "listener list \<Rightarrow> run_state \<Rightarrow> run_state \<Rightarrow> bool" for order where
  launch: "rn_main s = Launching (l # ls) \<Longrightarrow> run_step order s (to_main (Launching ls) (to_go l Listening s))"
| notify: "rn_main s = Launching [] \<Longrightarrow> run_step order s (to_main Selecting s)"
| killed: "rn_main s = Launching ls \<Longrightarrow> run_step order s (to_main Killed s)"
| received: "rn_main s = Selecting \<Longrightarrow> rn_errCh s = err # rest \<Longrightarrow>
    run_step order s (to_main (Returned (Some err)) (s\<lparr>rn_errCh := rest\<rparr>))"
| stop: "rn_main s = Selecting \<Longrightarrow> rn_signal s \<Longrightarrow> run_step order s (to_main (Stopping order) s)"
| close: "rn_main s = Stopping (l # ls) \<Longrightarrow>
    run_step order s (to_main (Draining l ls) (s\<lparr>rn_closed := insert l (rn_closed s)\<rparr>))"
| drained: "rn_main s = Draining l ls \<Longrightarrow> rn_active s l = 0 \<Longrightarrow> run_step order s (to_main (Stopping ls) s)"
| cut: "rn_main s = Draining l ls \<Longrightarrow> rn_expired s \<Longrightarrow> run_step order s (to_main (Stopping ls) s)"
| stopped: "rn_main s = Stopping [] \<Longrightarrow> run_step order s (to_main (Returned None) s)"
| fail: "alive s \<Longrightarrow> rn_go s l = Some Listening \<Longrightarrow> l \<notin> rn_closed s \<Longrightarrow>
    run_step order s (to_go l (Failing err) (s\<lparr>rn_failures := insert (l, err) (rn_failures s)\<rparr>))"
| closed: "alive s \<Longrightarrow> rn_go s l = Some Listening \<Longrightarrow> l \<in> rn_closed s \<Longrightarrow> run_step order s (to_go l Quit s)"
| send: "alive s \<Longrightarrow> rn_go s l = Some (Failing err) \<Longrightarrow> length (rn_errCh s) < errChCap \<Longrightarrow>
    run_step order s (to_go l Quit (s\<lparr>rn_errCh := rn_errCh s @ [err]\<rparr>))"
| accept: "alive s \<Longrightarrow> rn_go s l = Some Listening \<Longrightarrow> l \<notin> rn_closed s \<Longrightarrow>
    run_step order s (s\<lparr>rn_active := (rn_active s)(l := Suc (rn_active s l))\<rparr>)"
| served: "alive s \<Longrightarrow> 0 < rn_active s l \<Longrightarrow> run_step order s (s\<lparr>rn_active := (rn_active s)(l := rn_active s l - 1)\<rparr>)"
| signal: "alive s \<Longrightarrow> (\<forall>ls. rn_main s \<noteq> Launching ls) \<Longrightarrow> run_step order s (s\<lparr>rn_signal := True\<rparr>)"
| deadline: "(\<exists>ls. rn_main s = Stopping ls) \<or> (\<exists>l ls. rn_main s = Draining l ls) \<Longrightarrow> run_step order s (s\<lparr>rn_expired := True\<rparr>)"

text \<open>What \<open>main\<close> makes of the return of \<open>run\<close>.\<close>

definition exitStatus :: "string option \<Rightarrow> nat" where
  "exitStatus err = (case err of None \<Rightarrow> 0 | Some _ \<Rightarrow> 1)"

section \<open>The development switch is never implicit\<close>

lemma dropWhile_at: "x \<in> set xs \<Longrightarrow> dropWhile (\<lambda>c. c \<noteq> x) xs = x # tl (dropWhile (\<lambda>c. c \<noteq> x) xs)"
  by (induction xs) auto

lemma takeWhile_until: "x \<notin> set xs \<Longrightarrow> takeWhile (\<lambda>c. c \<noteq> x) (xs @ x # ys) = xs \<and> dropWhile (\<lambda>c. c \<noteq> x) (xs @ x # ys) = x # ys"
  by (induction xs) auto

lemma readFlag_FlagArg:
  assumes "readFlag s = FlagArg name value"
  shows "\<exists>dashes. (dashes = ''-'' \<or> dashes = ''--'') \<and> s = dashes @ name @ (case value of None \<Rightarrow> '''' | Some v \<Rightarrow> CHR ''='' # v)"
proof -
  obtain a b rest where s: "s = a # b # rest" and a: "a = CHR ''-''"
    using assms by (auto simp: readFlag_def split: list.splits if_splits)
  define body where "body = (if b = CHR ''-'' then rest else b # rest)"
  have split: "splitFlag body = FlagArg name value"
    using assms by (auto simp: readFlag_def s a body_def Let_def split: if_splits)
  have "body = name @ (case value of None \<Rightarrow> '''' | Some v \<Rightarrow> CHR ''='' # v)"
  proof (cases "CHR ''='' \<in> set body")
    case True
    from dropWhile_at [OF this] show ?thesis using split True takeWhile_dropWhile_id [of "\<lambda>c. c \<noteq> CHR ''=''" body]
      by (auto simp: splitFlag_def)
  qed (use split in \<open>auto simp: splitFlag_def\<close>)
  moreover have "s = (if b = CHR ''-'' then ''--'' else ''-'') @ body" by (simp add: s a body_def)
  ultimately show ?thesis by (intro exI [of _ "if b = CHR ''-'' then ''--'' else ''-''"]) simp
qed

text \<open>An argument that switches the authorization off.\<close>

definition switches_off :: "string \<Rightarrow> bool" where
  "switches_off s = (\<exists>dashes v. (dashes = ''-'' \<or> dashes = ''--'') \<and>
    (s = dashes @ devFlag \<or> (s = dashes @ devFlag @ CHR ''='' # v \<and> parseBool v = Some True)))"

lemma parseFlags_dev:
  "parseFlags args f = Ok f' \<Longrightarrow> fg_devAllowAll f' \<Longrightarrow> fg_devAllowAll f \<or> (\<exists>s\<in>set args. switches_off s)"
proof (induction args f rule: parseFlags.induct)
  case (2 s args f)
  show ?case
  proof (cases "readFlag s")
    case (FlagArg name val)
    note arg = readFlag_FlagArg [OF FlagArg]
    show ?thesis
    proof (cases "name = devFlag")
      case True
      show ?thesis
      proof (cases val)
        case None
        then have "switches_off s" using arg True by (auto simp: switches_off_def)
        then show ?thesis by simp
      next
        case (Some v)
        then obtain b where b: "parseBool v = Some b" using 2 FlagArg True by (auto split: option.splits)
        then have "b \<Longrightarrow> switches_off s" using arg True Some by (auto simp: switches_off_def)
        then show ?thesis using 2 FlagArg True Some b by auto
      qed
    next
      case False
      then show ?thesis using 2 FlagArg
        by (auto simp: setString_def split: if_splits option.splits list.splits)
    qed
  qed (use 2 in auto)
qed simp

text \<open>
  (C38) Authorization is switched off only by an argument that says so. A broker that main starts from a
  command line in which no argument is the development switch (with one or two dashes, alone or with a value
  that reads as true) decides every EST and every SCEP request by the pipeline of its configuration.\<close>

theorem dev_switch_is_explicit:
  assumes "broker_main G O' X yaml R args = Inr br" and "\<not> (\<exists>s\<in>set args. switches_off s)"
  shows "\<exists>path cfg iv ch. Load O' path = Ok cfg \<and> buildInventory G O' yaml cfg = Ok iv \<and>
    buildChallenge O' cfg = Ok (ch, bw_authz (br_world br)) \<and>
    eh_authz (br_est br) = Pipeline_Authorize G (configPipeline G cfg iv ch) \<and>
    (\<forall>h srv. br_scep br = Some (h, srv) \<longrightarrow> sp_Authorizer (sh_opts h) = Some (Pipeline_Authorize G (configPipeline G cfg iv ch)))"
proof -
  obtain f where f: "parseFlags args defaultFlags = Ok f"
    "startup G O' X yaml R (fg_config f) (fg_devAllowAll f) (fg_devRole f) = Ok br"
    using assms(1) by (auto simp: broker_main_def split: sum.splits flag_error.splits)
  have "\<not> fg_devAllowAll f" using parseFlags_dev [OF f(1)] assms(2) by (auto simp: defaultFlags_def)
  with f(2) have start: "startup G O' X yaml R (fg_config f) False (fg_devRole f) = Ok br" by simp
  obtain cfg az bootstrapRoots deviceRoots where load: "Load O' (fg_config f) = Ok cfg"
    and sel: "selectAuthorizer G O' yaml cfg False (fg_devRole f) = Ok (az, bw_authz (br_world br))"
    and est: "est_NewHandler (estOptions cfg bootstrapRoots deviceRoots (brokerEnroller R) az) = Ok (br_est br)"
    by (auto intro: startup_Ok [OF start])
  obtain iv ch where pipeline: "buildInventory G O' yaml cfg = Ok iv" "buildChallenge O' cfg = Ok (ch, bw_authz (br_world br))"
    "az = Pipeline_Authorize G (configPipeline G cfg iv ch)"
    using sel by (rule selectAuthorizer_Ok)
  have "sp_Authorizer (sh_opts h) = Some az" if "br_scep br = Some (h, srv)" for h srv
    using start load that
  proof (rule startup_scep)
    fix raCert raKey roots az' assume new: "scep_NewHandler (scepOptions G X cfg raCert raKey roots (brokerEnroller R) az') = Ok h"
      and "eh_authz (br_est br) = az'"
    then show "sp_Authorizer (sh_opts h) = Some az"
      using scep_NewHandler_Ok(1) [OF new] est_NewHandler_authz(1) [OF est] by (simp add: scepOptions_def)
  qed
  with load pipeline est_NewHandler_authz(1) [OF est] show ?thesis by blast
qed

theorem dev_switch_is_explicit_witness:
  "\<exists>br cfg iv ch. broker_main exampleLib ex_os ex_x509 (\<lambda>_. Ok []) ex_lost [''-config'', ''config.yaml''] = Inr br \<and>
     eh_authz (br_est br) = Pipeline_Authorize exampleLib (configPipeline exampleLib cfg iv ch)"
proof -
  have flags: "parseFlags [''-config'', ''config.yaml''] defaultFlags =
      Ok \<lparr>fg_config = ''config.yaml'', fg_devAllowAll = False, fg_devRole = ''''\<rparr>" by code_simp
  obtain br where "startup exampleLib ex_os ex_x509 (\<lambda>_. Ok []) ex_lost ''config.yaml'' False '''' = Ok br"
    unfolding ex_lost_def by (rule ex_startup)
  with flags have main: "broker_main exampleLib ex_os ex_x509 (\<lambda>_. Ok []) ex_lost [''-config'', ''config.yaml''] = Inr br"
    by (simp add: broker_main_def)
  have "\<not> (\<exists>s\<in>set [''-config'', ''config.yaml'']. switches_off s)" by (simp add: switches_off_def devFlag_def)
  from dev_switch_is_explicit [OF main this] main show ?thesis by blast
qed

definition boolText :: "bool \<Rightarrow> string" where
  "boolText b = (if b then ''true'' else ''false'')"

lemma readFlag_render:
  assumes "CHR ''='' \<notin> set name" "name \<noteq> []" "hd name \<noteq> CHR ''-''"
  shows "readFlag (''-'' @ name @ CHR ''='' # v) = FlagArg name (Some v)"
proof -
  obtain b rest where name: "name = b # rest" using assms(2) by (cases name) auto
  note takeWhile_until [OF assms(1), of v]
  with assms name show ?thesis by (auto simp: readFlag_def splitFlag_def Let_def)
qed

text \<open>
  Every setting of the flags can be written on the command line and is read back: the three flags
  with their values, whatever the values hold.\<close>

theorem flags_roundtrip:
  "parseFlags [''-config='' @ fg_config f, ''-dev-insecure-allow-all='' @ boolText (fg_devAllowAll f), ''-dev-role='' @ fg_devRole f]
     defaultFlags = Ok f"
proof -
  have read: "readFlag (''-config='' @ fg_config f) = FlagArg ''config'' (Some (fg_config f))"
    "readFlag (''-dev-insecure-allow-all='' @ boolText (fg_devAllowAll f)) = FlagArg devFlag (Some (boolText (fg_devAllowAll f)))"
    "readFlag (''-dev-role='' @ fg_devRole f) = FlagArg ''dev-role'' (Some (fg_devRole f))"
    using readFlag_render [of "''config''" "fg_config f"] readFlag_render [of devFlag "boolText (fg_devAllowAll f)"]
      readFlag_render [of "''dev-role''" "fg_devRole f"] by (simp_all add: devFlag_def)
  have "parseBool (boolText b) = Some b" for b by (simp add: boolText_def parseBool_def)
  then show ?thesis
    unfolding parseFlags.simps read flag_token.case by (simp add: devFlag_def setString_def defaultFlags_def)
qed

section \<open>Errors are never stuck\<close>

lemma to_main_simps [simp]:
  "rn_go (to_main p s) = rn_go s" "rn_closed (to_main p s) = rn_closed s" "rn_active (to_main p s) = rn_active s"
  "rn_errCh (to_main p s) = rn_errCh s" "rn_signal (to_main p s) = rn_signal s" "rn_expired (to_main p s) = rn_expired s"
  "rn_main (to_main p s) = p" "rn_failures (to_main p s) = rn_failures s"
  by (simp_all add: to_main_def)

lemma to_go_simps [simp]:
  "rn_go (to_go l g s) = (rn_go s)(l \<mapsto> g)" "rn_closed (to_go l g s) = rn_closed s" "rn_active (to_go l g s) = rn_active s"
  "rn_errCh (to_go l g s) = rn_errCh s" "rn_signal (to_go l g s) = rn_signal s" "rn_expired (to_go l g s) = rn_expired s"
  "rn_main (to_go l g s) = rn_main s" "rn_failures (to_go l g s) = rn_failures s"
  by (simp_all add: to_go_def)

lemma listener_UNIV: "UNIV = {EstL, HealthL, ScepL}"
  using listener.exhaust by auto

lemma finite_listeners [simp]: "finite (A :: listener set)"
  by (rule finite_subset [OF subset_UNIV]) (simp add: listener_UNIV)

lemma card_listeners: "card (UNIV :: listener set) = 3"
  by (simp add: listener_UNIV)

definition quitters :: "run_state \<Rightarrow> listener set" where
  "quitters s = {l. rn_go s l = Some Quit}"

text \<open>
  While the goroutines are being started, those that are left have not run. Each error in the channel is
  that of a goroutine that has ended.
\<close>

definition errs_ok :: "run_state \<Rightarrow> bool" where
  "errs_ok s = (length (rn_errCh s) \<le> card (quitters s) \<and>
    (\<forall>ls. rn_main s = Launching ls \<longrightarrow> distinct ls \<and> (\<forall>l\<in>set ls. rn_go s l = None)))"

lemma quitters_go: "quitters (to_go l g s) = (if g = Quit then insert l (quitters s) else quitters s - {l})"
  by (auto simp: quitters_def)

lemma quitters_same [simp]:
  "quitters (to_main p s) = quitters s" "quitters (s\<lparr>rn_errCh := e\<rparr>) = quitters s" "quitters (s\<lparr>rn_failures := fs\<rparr>) = quitters s"
  "quitters (s\<lparr>rn_closed := cl\<rparr>) = quitters s" "quitters (s\<lparr>rn_active := ac\<rparr>) = quitters s"
  "quitters (s\<lparr>rn_signal := sg\<rparr>) = quitters s" "quitters (s\<lparr>rn_expired := ex\<rparr>) = quitters s"
  by (simp_all add: quitters_def)

lemma not_quitter: "rn_go s l \<noteq> Some Quit \<Longrightarrow> quitters s - {l} = quitters s \<and> card (insert l (quitters s)) = Suc (card (quitters s))"
  by (simp add: quitters_def)

lemma run_step_errs:
  assumes "run_step order s s'" "errs_ok s"
  shows "errs_ok s'"
  using assms
proof cases
  case (launch l ls)
  then have "rn_go s l = None" using assms(2) by (simp add: errs_ok_def)
  with launch assms(2) show ?thesis by (auto simp: errs_ok_def quitters_go not_quitter)
next
  case (fail l err)
  then show ?thesis using assms(2) by (auto simp: errs_ok_def quitters_go not_quitter)
next
  case (closed l)
  then show ?thesis using assms(2) by (auto simp: errs_ok_def quitters_go not_quitter)
next
  case (send l err)
  then show ?thesis using assms(2) by (auto simp: errs_ok_def quitters_go not_quitter)
qed (use assms(2) in \<open>auto simp: errs_ok_def\<close>)

lemma run_reach_errs:
  assumes "(run_step order)\<^sup>*\<^sup>* (run_init ls) s" "distinct ls"
  shows "errs_ok s"
  using assms
proof (induction rule: rtranclp_induct)
  case base
  then show ?case by (simp add: errs_ok_def run_init_def)
next
  case (step s s')
  then show ?case using run_step_errs by blast
qed

text \<open>
  (C35) The error channel never blocks a listener: in every reachable state of the process, a goroutine
  that has an error to report finds room in the channel, so none is left behind, however the
  failures, the signal and the shutdown interleave.\<close>

theorem errCh_never_blocks:
  assumes "(run_step order)\<^sup>*\<^sup>* (run_init (brokerListeners br)) s" and "rn_go s l = Some (Failing err)"
  shows "length (rn_errCh s) < errChCap"
proof -
  have "distinct (brokerListeners br)" by (simp add: brokerListeners_def split: option.split)
  from run_reach_errs [OF assms(1) this] have "length (rn_errCh s) \<le> card (quitters s)" by (simp add: errs_ok_def)
  moreover have "l \<notin> quitters s" using assms(2) by (simp add: quitters_def)
  then have "card (quitters s) < card (UNIV :: listener set)" by (intro psubset_card_mono) auto
  ultimately show ?thesis by (simp add: card_listeners errChCap_def)
qed

section \<open>How run returns\<close>

text \<open>The listeners already shut down, given those still to come.\<close>

definition shut :: "listener list \<Rightarrow> run_state \<Rightarrow> listener list \<Rightarrow> bool" where
  "shut order s ls = (rn_signal s \<and> (\<exists>shut_ls. order = shut_ls @ ls \<and> set shut_ls \<subseteq> rn_closed s \<and>
    (\<not> rn_expired s \<longrightarrow> (\<forall>l\<in>set shut_ls. rn_active s l = 0))))"

definition errors_real :: "run_state \<Rightarrow> bool" where
  "errors_real s = ((\<forall>err\<in>set (rn_errCh s). err \<in> snd ` rn_failures s) \<and>
    (\<forall>l err. rn_go s l = Some (Failing err) \<longrightarrow> (l, err) \<in> rn_failures s))"

primrec main_ok :: "listener list \<Rightarrow> run_state \<Rightarrow> run_phase \<Rightarrow> bool" where
  "main_ok order s (Launching ls) = (rn_closed s = {})"
| "main_ok order s Selecting = (rn_closed s = {})"
| "main_ok order s (Stopping ls) = shut order s ls"
| "main_ok order s (Draining l ls) = (l \<in> rn_closed s \<and> (\<exists>shut_ls. order = shut_ls @ l # ls \<and> shut order s (l # ls)))"
| "main_ok order s (Returned err) = (case err of None \<Rightarrow> shut order s [] | Some e \<Rightarrow> rn_closed s = {} \<and> e \<in> snd ` rn_failures s)"
| "main_ok order s Killed = True"

definition run_ok :: "listener list \<Rightarrow> run_state \<Rightarrow> bool" where
  "run_ok order s = (errors_real s \<and> main_ok order s (rn_main s))"

text \<open>A step of someone else: nobody reopens a listener or starts a request on a closed one.\<close>

lemma shut_mono:
  assumes "shut order s ls" "rn_signal s \<Longrightarrow> rn_signal s'" "rn_closed s \<subseteq> rn_closed s'" "rn_expired s \<Longrightarrow> rn_expired s'"
    "\<And>l. l \<in> rn_closed s \<Longrightarrow> rn_active s l = 0 \<Longrightarrow> rn_active s' l = 0"
  shows "shut order s' ls"
proof -
  obtain shut_ls where "order = shut_ls @ ls" "set shut_ls \<subseteq> rn_closed s" "rn_signal s"
    "\<not> rn_expired s \<longrightarrow> (\<forall>l\<in>set shut_ls. rn_active s l = 0)"
    using assms(1) by (auto simp: shut_def)
  then show ?thesis using assms(2-5) unfolding shut_def by (intro conjI exI [of _ shut_ls]) auto
qed

lemma main_ok_mono:
  assumes "main_ok order s p" "rn_signal s \<Longrightarrow> rn_signal s'" "rn_closed s' = rn_closed s" "rn_expired s \<Longrightarrow> rn_expired s'"
    "\<And>l. l \<in> rn_closed s \<Longrightarrow> rn_active s l = 0 \<Longrightarrow> rn_active s' l = 0" "rn_failures s \<subseteq> rn_failures s'"
  shows "main_ok order s' p"
  using assms shut_mono [of order s _ s'] by (cases p) (auto split: option.splits)

lemma run_step_ok:
  assumes "run_step order s s'" "run_ok order s"
  shows "run_ok order s'"
  using assms(1)
proof cases
  case (close l ls)
  then have "shut order s (l # ls)" using assms(2) by (simp add: run_ok_def)
  then show ?thesis using close assms(2) shut_mono [of order s "l # ls" s']
    by (auto simp: run_ok_def errors_real_def shut_def)
next
  case (drained l ls)
  then show ?thesis using assms(2)
    by (auto simp: run_ok_def errors_real_def shut_def)
next
  case (cut l ls)
  then show ?thesis using assms(2) by (auto simp: run_ok_def errors_real_def shut_def)
next
  case (fail l err)
  have "errors_real s'" using assms(2) fail by (auto simp: run_ok_def errors_real_def)
  moreover have "main_ok order s' (rn_main s)" by (rule main_ok_mono [of order s]) (use assms(2) fail in \<open>auto simp: run_ok_def\<close>)
  ultimately show ?thesis using fail by (simp add: run_ok_def)
next
  case (accept l)
  have "errors_real s'" using assms(2) accept by (auto simp: run_ok_def errors_real_def)
  moreover have "main_ok order s' (rn_main s)" by (rule main_ok_mono [of order s]) (use assms(2) accept in \<open>auto simp: run_ok_def\<close>)
  ultimately show ?thesis using accept by (simp add: run_ok_def)
next
  case (served l)
  have "errors_real s'" using assms(2) served by (auto simp: run_ok_def errors_real_def)
  moreover have "main_ok order s' (rn_main s)" by (rule main_ok_mono [of order s]) (use assms(2) served in \<open>auto simp: run_ok_def\<close>)
  ultimately show ?thesis using served by (simp add: run_ok_def)
next
  case signal
  have "main_ok order s' (rn_main s)" by (rule main_ok_mono [of order s]) (use assms(2) signal in \<open>auto simp: run_ok_def\<close>)
  then show ?thesis using signal assms(2) by (simp add: run_ok_def errors_real_def)
next
  case deadline
  have "main_ok order s' (rn_main s)" by (rule main_ok_mono [of order s]) (use assms(2) deadline in \<open>auto simp: run_ok_def\<close>)
  then show ?thesis using deadline assms(2) by (simp add: run_ok_def errors_real_def)
next
  case (closed l)
  have "main_ok order s' (rn_main s)" by (rule main_ok_mono [of order s]) (use assms(2) closed in \<open>auto simp: run_ok_def\<close>)
  then show ?thesis using closed assms(2) by (auto simp: run_ok_def errors_real_def)
next
  case (send l err)
  have "main_ok order s' (rn_main s)" by (rule main_ok_mono [of order s]) (use assms(2) send in \<open>auto simp: run_ok_def\<close>)
  moreover have "errors_real s'" using assms(2) send by (force simp: run_ok_def errors_real_def)
  ultimately show ?thesis using send by (simp add: run_ok_def)
qed (use assms(2) in \<open>auto simp: run_ok_def errors_real_def shut_def split: if_splits\<close>)

lemma run_reach_ok:
  assumes "(run_step order)\<^sup>*\<^sup>* (run_init ls) s"
  shows "run_ok order s"
  using assms
proof (induction rule: rtranclp_induct)
  case base
  show ?case by (simp add: run_ok_def errors_real_def run_init_def)
next
  case (step s s')
  then show ?case using run_step_ok by blast
qed

text \<open>
  (C34) How run ends once it starts its listeners. It returns an error only when a listener failed with that very error, and then
  no listener has been shut down. It returns without error, and the process exits with status 0, only
  after a signal and with every listener closed to new requests; and unless the deadline passed, no
  request was in flight on any of them.\<close>

theorem run_outcome:
  assumes "(run_step order)\<^sup>*\<^sup>* (run_init order) s" and "rn_main s = Returned res"
  shows "(case res of
      Some err \<Rightarrow> exitStatus res = 1 \<and> rn_closed s = {} \<and> (\<exists>l. (l, err) \<in> rn_failures s)
    | None \<Rightarrow> exitStatus res = 0 \<and> rn_signal s \<and> set order \<subseteq> rn_closed s \<and>
        (rn_expired s \<or> (\<forall>l\<in>set order. rn_active s l = 0)))"
proof -
  have "main_ok order s (Returned res)" using run_reach_ok [OF assms(1)] assms(2) by (simp add: run_ok_def)
  then show ?thesis by (cases res) (auto simp: shut_def exitStatus_def)
qed

section \<open>Shutdown ends\<close>

text \<open>The steps that \<open>run\<close> itself has left once it has seen the signal.\<close>

primrec main_left :: "run_phase \<Rightarrow> nat" where
  "main_left (Launching ls) = 0"
| "main_left Selecting = 0"
| "main_left (Stopping ls) = 2 * length ls + 1"
| "main_left (Draining l ls) = 2 * length ls + 2"
| "main_left (Returned err) = 0"
| "main_left Killed = 0"

definition stopping :: "run_state \<Rightarrow> bool" where
  "stopping s = ((\<exists>ls. rn_main s = Stopping ls) \<or> (\<exists>l ls. rn_main s = Draining l ls))"

text \<open>Every step keeps the shutdown going: it is one of run's own, or it leaves run where it is.\<close>

lemma stopping_step:
  assumes "run_step order s s'" "stopping s"
  shows "rn_main s' = rn_main s \<or> main_left (rn_main s') < main_left (rn_main s) \<and> (stopping s' \<or> rn_main s' = Returned None)"
  using assms by cases (auto simp: stopping_def)

text \<open>Once the deadline has passed, run is never blocked.\<close>

lemma expired_progress:
  assumes "stopping s" "rn_expired s"
  obtains s' where "run_step order s s'" "main_left (rn_main s') < main_left (rn_main s)" "stopping s' \<or> rn_main s' = Returned None"
    "rn_expired s'" "rn_active s' = rn_active s"
proof -
  consider "rn_main s = Stopping []" | l ls where "rn_main s = Stopping (l # ls)" | l ls where "rn_main s = Draining l ls"
    using assms(1) unfolding stopping_def by (metis neq_Nil_conv)
  then show thesis
  proof cases
    case 1
    then show thesis using that [OF run_step.stopped [OF 1]] assms(2) by simp
  next
    case 2
    then show thesis using that [OF run_step.close [OF 2]] assms(2) by (simp add: stopping_def)
  next
    case 3
    then show thesis using that [OF run_step.cut [OF 3 assms(2)]] assms(2) by (simp add: stopping_def)
  qed
qed

lemma cut_returns:
  assumes "stopping s" "rn_expired s"
  shows "\<exists>n s'. n \<le> main_left (rn_main s) \<and> (run_step order ^^ n) s s' \<and> rn_main s' = Returned None \<and> rn_active s' = rn_active s"
  using assms
proof (induction "main_left (rn_main s)" arbitrary: s rule: less_induct)
  case less
  obtain s1 where s1: "run_step order s s1" "main_left (rn_main s1) < main_left (rn_main s)"
    "stopping s1 \<or> rn_main s1 = Returned None" "rn_expired s1" "rn_active s1 = rn_active s"
    using expired_progress [OF less.prems] .
  show ?case
  proof (cases "rn_main s1 = Returned None")
    case True
    then show ?thesis using s1 by (intro exI [of _ 1] exI [of _ s1]) (simp add: eq_OO)
  next
    case False
    then obtain n s' where "n \<le> main_left (rn_main s1)" "(run_step order ^^ n) s1 s'" "rn_main s' = Returned None"
      "rn_active s' = rn_active s1"
      using less.hyps [OF s1(2)] s1(3,4) by blast
    then show ?thesis using s1 relpowp_Suc_I2 [of "run_step order" s s1 n s'] by (intro exI [of _ "Suc n"] exI [of _ s']) auto
  qed
qed

text \<open>
  (C36) Shutdown ends. Once run has left the select on a signal, every further step is one of its own,
  which brings the return nearer, or leaves it where it is; nothing leads back. And once the deadline
  has passed, it returns after at most two steps for each listener and one more, whatever requests
  are still in flight.\<close>

theorem shutdown_terminates:
  assumes "stopping s"
  shows "(\<forall>s'. run_step order s s' \<longrightarrow> rn_main s' = rn_main s \<or>
      main_left (rn_main s') < main_left (rn_main s) \<and> (stopping s' \<or> rn_main s' = Returned None)) \<and>
    (rn_expired s \<longrightarrow> (\<exists>n s'. n \<le> main_left (rn_main s) \<and> (run_step order ^^ n) s s' \<and> rn_main s' = Returned None))"
  using stopping_step [OF _ assms] cut_returns [OF assms] by blast

text \<open>A broker with all three listeners, after its start and a signal, with one request in flight on EST.\<close>

definition ex_order :: "listener list" where "ex_order = [EstL, HealthL, ScepL]"

definition ex_listening :: "listener \<rightharpoonup> serving" where
  "ex_listening = [EstL \<mapsto> Listening, HealthL \<mapsto> Listening, ScepL \<mapsto> Listening]"

definition ex_run :: "listener set \<Rightarrow> nat \<Rightarrow> nat \<Rightarrow> bool \<Rightarrow> bool \<Rightarrow> run_phase \<Rightarrow> run_state" where
  "ex_run cl est scep sig expired main =
    \<lparr>rn_go = ex_listening, rn_closed = cl, rn_active = (\<lambda>_. 0)(EstL := est, ScepL := scep), rn_errCh = [], rn_signal = sig,
     rn_expired = expired, rn_main = main, rn_failures = {}\<rparr>"

lemma ex_launched: "(run_step ex_order)\<^sup>*\<^sup>* (run_init ex_order) (ex_run {} 0 0 False False Selecting)"
proof -
  let ?s1 = "to_main (Launching [HealthL, ScepL]) (to_go EstL Listening (run_init ex_order))"
  let ?s2 = "to_main (Launching [ScepL]) (to_go HealthL Listening ?s1)"
  let ?s3 = "to_main (Launching []) (to_go ScepL Listening ?s2)"
  have "(run_step ex_order)\<^sup>*\<^sup>* (run_init ex_order) (run_init ex_order)" by simp
  also have "run_step ex_order (run_init ex_order) ?s1" by (rule run_step.launch) (simp add: run_init_def ex_order_def)
  also have "run_step ex_order ?s1 ?s2" by (rule run_step.launch) simp
  also have "run_step ex_order ?s2 ?s3" by (rule run_step.launch) simp
  also have "run_step ex_order ?s3 (to_main Selecting ?s3)" by (rule run_step.notify) simp
  also have "to_main Selecting ?s3 = ex_run {} 0 0 False False Selecting"
    by (simp add: to_main_def to_go_def run_init_def ex_run_def ex_listening_def fun_eq_iff)
  finally show ?thesis .
qed

lemma ex_listening_simps [simp]: "ex_listening l = Some Listening"
  by (cases l) (simp_all add: ex_listening_def)

lemma ex_stopping:
  "(run_step ex_order)\<^sup>*\<^sup>* (run_init ex_order) (ex_run {EstL} 1 0 True False (Draining EstL [HealthL, ScepL]))"
proof -
  note ex_launched
  also have "run_step ex_order (ex_run {} 0 0 False False Selecting) (ex_run {} 1 0 False False Selecting)"
    using run_step.accept [of "ex_run {} 0 0 False False Selecting" EstL ex_order] by (simp add: ex_run_def alive_def fun_upd_twist)
  also have "run_step ex_order (ex_run {} 1 0 False False Selecting) (ex_run {} 1 0 True False Selecting)"
    using run_step.signal [of "ex_run {} 1 0 False False Selecting" ex_order] by (simp add: ex_run_def alive_def)
  also have "run_step ex_order (ex_run {} 1 0 True False Selecting) (ex_run {} 1 0 True False (Stopping ex_order))"
    using run_step.stop [of "ex_run {} 1 0 True False Selecting" ex_order] by (simp add: ex_run_def to_main_def)
  also have "run_step ex_order (ex_run {} 1 0 True False (Stopping ex_order)) (ex_run {EstL} 1 0 True False (Draining EstL [HealthL, ScepL]))"
    using run_step.close [of "ex_run {} 1 0 True False (Stopping ex_order)" EstL "[HealthL, ScepL]" ex_order]
    by (simp add: ex_run_def to_main_def ex_order_def)
  finally show ?thesis .
qed

text \<open>
  (C37) One deadline serves all listeners in turn. After the signal the SCEP listener goes on accepting
  while EST drains; where EST uses up the deadline, a request that SCEP accepted after the signal is cut
  the moment its listener is shut down, and the process exits with status 0.\<close>

theorem late_scep_request_is_cut:
  "\<exists>s t. (run_step ex_order)\<^sup>*\<^sup>* (run_init ex_order) s \<and> rn_main s = Draining EstL [HealthL, ScepL] \<and> rn_active s ScepL = 0 \<and>
     (run_step ex_order)\<^sup>*\<^sup>* s t \<and> rn_main t = Returned None \<and> exitStatus None = 0 \<and> rn_active t ScepL = 1"
proof -
  let ?s = "ex_run {EstL} 1 0 True False (Draining EstL [HealthL, ScepL])"
  let ?a = "ex_run {EstL} 1 1 True False (Draining EstL [HealthL, ScepL])"
  let ?b = "ex_run {EstL} 1 1 True True (Draining EstL [HealthL, ScepL])"
  have accept: "run_step ex_order ?s ?a"
    using run_step.accept [of ?s ScepL ex_order] by (simp add: ex_run_def alive_def)
  have "run_step ex_order ?a ?b" using run_step.deadline [of ?a ex_order] by (simp add: ex_run_def)
  moreover obtain n t where t: "(run_step ex_order ^^ n) ?b t" "rn_main t = Returned None"
    and "\<forall>l. rn_active t l = rn_active ?b l"
    using cut_returns [of ?b ex_order] by (auto simp: stopping_def ex_run_def)
  ultimately have "(run_step ex_order)\<^sup>*\<^sup>* ?s t" "rn_active t ScepL = 1"
    using accept by (simp_all add: converse_rtranclp_into_rtranclp relpowp_imp_rtranclp ex_run_def)
  then show ?thesis using ex_stopping t(2) by (intro exI [of _ ?s] exI [of _ t]) (simp add: ex_run_def exitStatus_def)
qed

theorem errCh_never_blocks_witness:
  "length (rn_errCh (to_go EstL (Failing ''bind'') ((ex_run {} 0 0 False False Selecting)\<lparr>rn_failures := {(EstL, ''bind'')}\<rparr>))) < errChCap"
proof -
  let ?s = "ex_run {} 0 0 False False Selecting"
  have step: "run_step ex_order ?s (to_go EstL (Failing ''bind'') (?s\<lparr>rn_failures := {(EstL, ''bind'')}\<rparr>))"
    using run_step.fail [of ?s EstL ex_order "''bind''"] by (simp add: ex_run_def alive_def)
  obtain br :: broker where br: "brokerListeners br = ex_order"
  proof
    show "brokerListeners (undefined\<lparr>br_scep := Some undefined\<rparr>) = ex_order" by (simp add: brokerListeners_def ex_order_def)
  qed
  have "(run_step ex_order)\<^sup>*\<^sup>* (run_init (brokerListeners br)) (to_go EstL (Failing ''bind'') (?s\<lparr>rn_failures := {(EstL, ''bind'')}\<rparr>))"
    unfolding br using ex_launched step by (rule rtranclp.rtrancl_into_rtrancl)
  then show ?thesis by (rule errCh_never_blocks [where l = EstL and err = "''bind''"]) simp
qed

theorem run_outcome_witness:
  "\<exists>s::run_state. rn_main s = Returned None \<and> rn_signal s \<and> set ex_order \<subseteq> rn_closed s"
proof -
  let ?s = "ex_run {EstL} 1 0 True False (Draining EstL [HealthL, ScepL])"
  let ?b = "ex_run {EstL} 1 0 True True (Draining EstL [HealthL, ScepL])"
  have "run_step ex_order ?s ?b" using run_step.deadline [of ?s ex_order] by (simp add: ex_run_def)
  moreover obtain n t where t: "(run_step ex_order ^^ n) ?b t" "rn_main t = Returned None"
    using cut_returns [of ?b ex_order] by (auto simp: stopping_def ex_run_def)
  ultimately have "(run_step ex_order)\<^sup>*\<^sup>* (run_init ex_order) t"
    using ex_stopping by (meson relpowp_imp_rtranclp rtranclp.rtrancl_into_rtrancl rtranclp_trans)
  from run_outcome [OF this t(2)] t(2) show ?thesis by (intro exI [of _ t]) simp
qed

theorem shutdown_terminates_witness:
  "\<exists>n t. n \<le> 6 \<and> (run_step ex_order ^^ n) (ex_run {EstL} 1 0 True True (Draining EstL [HealthL, ScepL])) t \<and> rn_main t = Returned None"
proof -
  let ?b = "ex_run {EstL} 1 0 True True (Draining EstL [HealthL, ScepL])"
  have b: "stopping ?b" "rn_expired ?b" "main_left (rn_main ?b) = 6" by (simp_all add: stopping_def ex_run_def)
  show ?thesis using shutdown_terminates [OF b(1), of ex_order] b(2,3) by metis
qed

end
