(* ===== verification/Bao_Concurrent.thy ===== *)
theory Bao_Concurrent
  imports Bao_Properties
begin

text \<open>
  The token of the OpenBao client under concurrent calls. \<open>ensureToken\<close>, \<open>renewSelf\<close> and \<open>Login\<close> of
  \<open>src/internal/bao/client.go\<close> hold the mutex only while they read or write the token fields, and wait
  for OpenBao without it. Each critical section, and each answer of OpenBao, is one step of a
  caller here, and the steps of any number of callers interleave; every reading of the clock is its own. \<open>Bao_Client\<close> runs one call from
  beginning to end; every such run is a run of these steps.
\<close>

section \<open>Steps of a caller\<close>

record tokenState =
  tk_token :: string
  tk_expiry :: time
  tk_renewable :: bool

text \<open>
  \<open>Snap\<close>: the fields read at the start of \<open>ensureToken\<close>. \<open>RenewSent\<close>: \<open>renewSelf\<close> waits, with the
  token it sent. \<open>Renewed\<close> and \<open>LoggedIn\<close>: the answer is stored and the current token is still to
  be read. \<open>LoginSent\<close>: \<open>Login\<close> waits.
\<close>

datatype token_phase =
    Snap string time bool | RenewSent string | Renewed | LoginSent | LoggedIn | HasToken string | NoToken

text \<open>The last field is not part of the program: the leases OpenBao granted, a token with its end.\<close>

record token_sys =
  ty_tok :: tokenState
  ty_phase :: "nat \<Rightarrow> token_phase option"
  ty_leases :: "(string \<times> time) set"

definition to_phase :: "nat \<Rightarrow> token_phase \<Rightarrow> token_sys \<Rightarrow> token_sys" where
  "to_phase i p s = s\<lparr>ty_phase := (ty_phase s)(i \<mapsto> p)\<rparr>"

definition snapshot :: "tokenState \<Rightarrow> token_phase" where
  "snapshot t = Snap (tk_token t) (tk_expiry t) (tk_renewable t)"

definition comfortable :: "duration \<Rightarrow> time \<Rightarrow> string \<Rightarrow> time \<Rightarrow> bool" where
  "comfortable threshold now tok expiry = (tok \<noteq> '''' \<and> time_Sub expiry now > threshold)"

definition renewablePhase :: "time \<Rightarrow> string \<Rightarrow> time \<Rightarrow> bool \<Rightarrow> bool" where
  "renewablePhase now tok expiry renewable = (tok \<noteq> '''' \<and> renewable \<and> time_Sub expiry now > 0)"

definition storeRenewal :: "time \<Rightarrow> string \<Rightarrow> authData \<Rightarrow> token_sys \<Rightarrow> token_sys" where
  "storeRenewal now sent a s =
    s\<lparr>ty_tok := (ty_tok s)\<lparr>tk_renewable := au_Renewable a, tk_expiry := leaseExpiry now (au_LeaseDuration a)\<rparr>,
      ty_leases := insert (sent, leaseExpiry now (au_LeaseDuration a)) (ty_leases s)\<rparr>"

definition storeLogin :: "time \<Rightarrow> authData \<Rightarrow> token_sys \<Rightarrow> token_sys" where
  "storeLogin now a s =
    s\<lparr>ty_tok := \<lparr>tk_token = au_ClientToken a, tk_expiry = leaseExpiry now (au_LeaseDuration a), tk_renewable = au_Renewable a\<rparr>,
      ty_leases := insert (au_ClientToken a, leaseExpiry now (au_LeaseDuration a)) (ty_leases s)\<rparr>"

inductive tok_step :: "duration \<Rightarrow> token_sys \<Rightarrow> token_sys \<Rightarrow> bool" for threshold where
  snap: "ty_phase s i = None \<Longrightarrow> tok_step threshold s (to_phase i (snapshot (ty_tok s)) s)"
| valid: "ty_phase s i = Some (Snap tok expiry renewable) \<Longrightarrow> comfortable threshold now tok expiry \<Longrightarrow>
    tok_step threshold s (to_phase i (HasToken tok) s)"
| renew: "ty_phase s i = Some (Snap tok expiry renewable) \<Longrightarrow> \<not> comfortable threshold now tok expiry \<Longrightarrow>
    renewablePhase now' tok expiry renewable \<Longrightarrow> tok_step threshold s (to_phase i (RenewSent (tk_token (ty_tok s))) s)"
| login: "ty_phase s i = Some (Snap tok expiry renewable) \<Longrightarrow> \<not> comfortable threshold now tok expiry \<Longrightarrow>
    \<not> renewablePhase now' tok expiry renewable \<Longrightarrow> tok_step threshold s (to_phase i LoginSent s)"
| renewed: "ty_phase s i = Some (RenewSent sent) \<Longrightarrow> tok_step threshold s (to_phase i Renewed (storeRenewal now sent a s))"
| renew_failed: "ty_phase s i = Some (RenewSent sent) \<Longrightarrow> tok_step threshold s (to_phase i LoginSent s)"
| logged_in: "ty_phase s i = Some LoginSent \<Longrightarrow> au_ClientToken a \<noteq> '''' \<Longrightarrow>
    tok_step threshold s (to_phase i LoggedIn (storeLogin now a s))"
| login_failed: "ty_phase s i = Some LoginSent \<Longrightarrow> tok_step threshold s (to_phase i NoToken s)"
| current: "ty_phase s i = Some p \<Longrightarrow> p = Renewed \<or> p = LoggedIn \<Longrightarrow>
    tok_step threshold s (to_phase i (HasToken (tk_token (ty_tok s))) s)"
| finished: "ty_phase s i = Some p \<Longrightarrow> (\<exists>t. p = HasToken t) \<or> p = NoToken \<Longrightarrow>
    tok_step threshold s (s\<lparr>ty_phase := (ty_phase s)(i := None)\<rparr>)"

inductive_cases tok_stepE: "tok_step threshold s s'"

text \<open>A client as \<open>New\<close> leaves it, before its first call.\<close>

definition tok_init :: token_sys where
  "tok_init = \<lparr>ty_tok = \<lparr>tk_token = '''', tk_expiry = - 62135596800000000000, tk_renewable = False\<rparr>,
     ty_phase = Map.empty, ty_leases = {}\<rparr>"

lemma to_phase_simps [simp]:
  "ty_tok (to_phase i p s) = ty_tok s" "ty_leases (to_phase i p s) = ty_leases s"
  "ty_phase (to_phase i p s) = (ty_phase s)(i \<mapsto> p)"
  by (simp_all add: to_phase_def)

lemma store_simps [simp]:
  "ty_phase (storeRenewal now sent a s) = ty_phase s" "ty_phase (storeLogin now a s) = ty_phase s"
  "tk_token (ty_tok (storeRenewal now sent a s)) = tk_token (ty_tok s)"
  "tk_token (ty_tok (storeLogin now a s)) = au_ClientToken a"
  "ty_leases (storeRenewal now sent a s) = insert (sent, leaseExpiry now (au_LeaseDuration a)) (ty_leases s)"
  "ty_leases (storeLogin now a s) = insert (au_ClientToken a, leaseExpiry now (au_LeaseDuration a)) (ty_leases s)"
  by (simp_all add: storeRenewal_def storeLogin_def)

section \<open>Every token in use was granted\<close>

definition granted :: "token_sys \<Rightarrow> string \<Rightarrow> bool" where
  "granted s t = (t \<noteq> '''' \<and> t \<in> fst ` ty_leases s)"

text \<open>
  The invariant: what is stored, sent or returned as a token was granted, and a caller that relies on
  a stored token finds one.
\<close>

primrec phase_ok :: "token_sys \<Rightarrow> token_phase \<Rightarrow> bool" where
  "phase_ok s (Snap tok expiry renewable) = (tok \<noteq> '''' \<longrightarrow> granted s tok \<and> tk_token (ty_tok s) \<noteq> '''')"
| "phase_ok s (RenewSent t) = (granted s t \<and> tk_token (ty_tok s) \<noteq> '''')"
| "phase_ok s Renewed = (tk_token (ty_tok s) \<noteq> '''')"
| "phase_ok s LoginSent = True"
| "phase_ok s LoggedIn = (tk_token (ty_tok s) \<noteq> '''')"
| "phase_ok s (HasToken t) = granted s t"
| "phase_ok s NoToken = True"

definition tok_ok :: "token_sys \<Rightarrow> bool" where
  "tok_ok s = ((tk_token (ty_tok s) \<noteq> '''' \<longrightarrow> granted s (tk_token (ty_tok s))) \<and>
    (\<forall>i p. ty_phase s i = Some p \<longrightarrow> phase_ok s p))"

lemma tok_ok_phase: "tok_ok s \<Longrightarrow> ty_phase s i = Some p \<Longrightarrow> phase_ok s p"
  by (simp add: tok_ok_def)

lemma tok_ok_stored: "tok_ok s \<Longrightarrow> tk_token (ty_tok s) \<noteq> '''' \<Longrightarrow> granted s (tk_token (ty_tok s))"
  by (simp add: tok_ok_def)

lemma phase_ok_mono:
  assumes "phase_ok s p" "ty_leases s \<subseteq> ty_leases s'" "tk_token (ty_tok s) \<noteq> '''' \<Longrightarrow> tk_token (ty_tok s') \<noteq> ''''"
  shows "phase_ok s' p"
  using assms by (cases p) (auto simp: granted_def)

text \<open>One caller moves on while the leases grow and a stored token stays stored.\<close>

lemma tok_ok_move:
  assumes "tok_ok s" and "ty_leases s \<subseteq> ty_leases s'" and "tk_token (ty_tok s) \<noteq> '''' \<Longrightarrow> tk_token (ty_tok s') \<noteq> ''''"
    and "ty_phase s' = ty_phase s" and "tk_token (ty_tok s') \<noteq> '''' \<Longrightarrow> granted s' (tk_token (ty_tok s'))" and "phase_ok s' p"
  shows "tok_ok (to_phase i p s')"
proof -
  have same: "phase_ok (to_phase i p s') q = phase_ok s' q" for q by (cases q) (simp_all add: granted_def)
  have "phase_ok s' q" if "ty_phase s j = Some q" for j q
    using phase_ok_mono [OF tok_ok_phase [OF assms(1) that] assms(2,3)] .
  then show ?thesis using assms(4-6) by (simp add: tok_ok_def same) (simp add: granted_def)
qed

lemma tok_ok_to_phase: "tok_ok s \<Longrightarrow> phase_ok s p \<Longrightarrow> tok_ok (to_phase i p s)"
  by (rule tok_ok_move [of s s]) (auto simp: tok_ok_stored)

lemma tok_step_ok:
  assumes "tok_step threshold s s'" "tok_ok s"
  shows "tok_ok s'"
  using assms(1)
proof cases
  case (snap i)
  then show ?thesis using assms(2) by (simp add: tok_ok_to_phase snapshot_def tok_ok_stored)
next
  case (valid i tok expiry renewable now)
  then show ?thesis using assms(2) tok_ok_phase [OF assms(2)] by (fastforce simp: comfortable_def intro!: tok_ok_to_phase)
next
  case (renew i tok expiry renewable now now')
  then show ?thesis using assms(2) tok_ok_phase [OF assms(2)] tok_ok_stored [OF assms(2)]
    by (fastforce simp: renewablePhase_def intro!: tok_ok_to_phase)
next
  case (login i tok expiry renewable now now')
  then show ?thesis using assms(2) by (simp add: tok_ok_to_phase)
next
  case (renewed i sent now a)
  note ok = tok_ok_phase [OF assms(2) renewed(2)]
  then have "granted s (tk_token (ty_tok s))" using tok_ok_stored [OF assms(2)] by simp
  then have "granted (storeRenewal now sent a s) (tk_token (ty_tok s))" by (auto simp: granted_def)
  then show ?thesis unfolding renewed(1) by (intro tok_ok_move [OF assms(2)]) (use ok in auto)
next
  case (renew_failed i sent)
  then show ?thesis using assms(2) by (simp add: tok_ok_to_phase)
next
  case (logged_in i a now)
  then have "granted (storeLogin now a s) (au_ClientToken a)" by (simp add: granted_def)
  then show ?thesis unfolding logged_in(1) by (intro tok_ok_move [OF assms(2)]) (use logged_in(3) in auto)
next
  case (login_failed i)
  then show ?thesis using assms(2) by (simp add: tok_ok_to_phase)
next
  case (current i p)
  then show ?thesis using assms(2) tok_ok_phase [OF assms(2) current(2)] tok_ok_stored [OF assms(2)]
    by (auto intro!: tok_ok_to_phase)
next
  case (finished i p)
  have same: "phase_ok (s\<lparr>ty_phase := ph\<rparr>) q = phase_ok s q" for ph q by (cases q) (simp_all add: granted_def)
  show ?thesis using assms(2) unfolding finished(1) by (auto simp: tok_ok_def same granted_def split: if_splits)
qed

lemma tok_reach_ok: "(tok_step threshold)\<^sup>*\<^sup>* tok_init s \<Longrightarrow> tok_ok s"
proof (induction rule: rtranclp_induct)
  case base
  show ?case by (simp add: tok_ok_def tok_init_def)
next
  case (step s s')
  then show ?case using tok_step_ok by blast
qed

text \<open>
  (C30) However calls of ensureToken interleave on one client, a token that a caller returns, or that is
  sent to be renewed, is a non-empty token that OpenBao granted to this client; and so is the one stored.\<close>

theorem concurrent_tokens_granted:
  assumes "(tok_step threshold)\<^sup>*\<^sup>* tok_init s"
    and "ty_phase s i = Some (HasToken t) \<or> ty_phase s i = Some (RenewSent t) \<or> t = tk_token (ty_tok s) \<and> t \<noteq> ''''"
  shows "t \<noteq> '''' \<and> (\<exists>expiry. (t, expiry) \<in> ty_leases s)"
proof -
  have "tok_ok s" using tok_reach_ok [OF assms(1)] .
  then have "granted s t" using assms(2) tok_ok_phase [of s i] tok_ok_stored [of s] by fastforce
  then show ?thesis by (auto simp: granted_def)
qed


section \<open>The expiry of the stored token\<close>

definition waiting :: "token_sys \<Rightarrow> nat \<Rightarrow> bool" where
  "waiting s i = (case ty_phase s i of Some (RenewSent _) \<Rightarrow> True | Some LoginSent \<Rightarrow> True | _ \<Rightarrow> False)"

definition lone_waiter :: "token_sys \<Rightarrow> bool" where
  "lone_waiter s = (\<forall>i j. waiting s i \<and> waiting s j \<longrightarrow> i = j)"

text \<open>The stored expiry is that of a lease of the stored token.\<close>

definition coherent :: "token_sys \<Rightarrow> bool" where
  "coherent s = (tk_token (ty_tok s) \<noteq> '''' \<longrightarrow> (tk_token (ty_tok s), tk_expiry (ty_tok s)) \<in> ty_leases s)"

definition renewals_current :: "token_sys \<Rightarrow> bool" where
  "renewals_current s = (\<forall>i t. ty_phase s i = Some (RenewSent t) \<longrightarrow> t = tk_token (ty_tok s))"

definition lone_step :: "duration \<Rightarrow> token_sys \<Rightarrow> token_sys \<Rightarrow> bool" where
  "lone_step threshold s s' = (tok_step threshold s s' \<and> lone_waiter s')"

lemma lone_step_coherent:
  assumes "lone_step threshold s s'" "lone_waiter s" "coherent s" "renewals_current s"
  shows "lone_waiter s' \<and> coherent s' \<and> renewals_current s'"
proof -
  have step: "tok_step threshold s s'" and lone: "lone_waiter s'" using assms(1) by (auto simp: lone_step_def)
  have "coherent s' \<and> renewals_current s'"
    using step
  proof cases
    case (logged_in i a now)
    have "waiting s i" using logged_in(2) by (simp add: waiting_def)
    then have "ty_phase s j \<noteq> Some (RenewSent t)" if "j \<noteq> i" for j t
      using assms(2) that by (auto simp: lone_waiter_def waiting_def)
    then show ?thesis unfolding logged_in(1)
      by (auto simp: coherent_def renewals_current_def storeLogin_def)
  next
    case (renewed i sent now a)
    then have "sent = tk_token (ty_tok s)" using assms(4) by (simp add: renewals_current_def)
    then show ?thesis unfolding renewed(1) using assms(4)
      by (auto simp: coherent_def renewals_current_def storeRenewal_def)
  next
    case (renew_failed i sent)
    then show ?thesis using assms(3,4) by (simp add: coherent_def renewals_current_def) metis
  qed (use assms(3,4) in \<open>auto simp: coherent_def renewals_current_def snapshot_def split: if_splits\<close>)
  with lone show ?thesis by simp
qed

text \<open>
  (C32) As long as no two callers wait for OpenBao at the same time, the stored expiry is that of a lease
  granted for the stored token.\<close>

theorem lone_callers_keep_expiry:
  assumes "(lone_step threshold)\<^sup>*\<^sup>* tok_init s" and "tk_token (ty_tok s) \<noteq> ''''"
  shows "(tk_token (ty_tok s), tk_expiry (ty_tok s)) \<in> ty_leases s"
proof -
  have "lone_waiter s \<and> coherent s \<and> renewals_current s"
    using assms(1)
  proof (induction rule: rtranclp_induct)
    case base
    show ?case by (simp add: lone_waiter_def waiting_def coherent_def renewals_current_def tok_init_def)
  next
    case (step s s')
    then show ?case using lone_step_coherent by blast
  qed
  with assms(2) show ?thesis by (simp add: coherent_def)
qed

text \<open>A run of two callers: one renews slowly while the other logs in again.\<close>

definition ex_grant :: "string \<Rightarrow> int \<Rightarrow> authData" where
  "ex_grant t secs = \<lparr>au_ClientToken = t, au_LeaseDuration = secs, au_Renewable = True\<rparr>"

definition ex_login :: "nat \<Rightarrow> string \<Rightarrow> int \<Rightarrow> token_sys \<Rightarrow> token_sys" where
  "ex_login i t secs s = to_phase i LoggedIn (storeLogin 0 (ex_grant t secs) s)"

lemma first_login_lone:
  "(lone_step (5 * minute))\<^sup>*\<^sup>* tok_init (ex_login 0 ''T1'' 60 (to_phase 0 LoginSent tok_init))"
proof -
  let ?s1 = "to_phase 0 (snapshot (ty_tok tok_init)) tok_init" and ?s2 = "to_phase 0 LoginSent tok_init"
  have lone: "lone_waiter (to_phase 0 p tok_init)" "lone_waiter (ex_login 0 t secs (to_phase 0 p tok_init))" for p t secs
    by (simp_all add: lone_waiter_def waiting_def tok_init_def ex_login_def)
  have "(lone_step (5 * minute))\<^sup>*\<^sup>* tok_init tok_init" by simp
  also have "tok_step (5 * minute) tok_init ?s1" by (rule tok_step.snap) (simp add: tok_init_def)
  then have "lone_step (5 * minute) tok_init ?s1" using lone by (simp add: lone_step_def)
  also have "tok_step (5 * minute) ?s1 (to_phase 0 LoginSent ?s1)"
    by (rule tok_step.login [where now = 0]) (auto simp: snapshot_def tok_init_def comfortable_def renewablePhase_def)
  then have "lone_step (5 * minute) ?s1 ?s2" using lone by (simp add: lone_step_def to_phase_def)
  also have "tok_step (5 * minute) ?s2 (ex_login 0 ''T1'' 60 ?s2)"
    unfolding ex_login_def by (rule tok_step.logged_in) (simp_all add: ex_grant_def)
  then have "lone_step (5 * minute) ?s2 (ex_login 0 ''T1'' 60 ?s2)" using lone by (simp add: lone_step_def)
  finally show ?thesis .
qed

lemma first_login:
  "(tok_step (5 * minute))\<^sup>*\<^sup>* tok_init (ex_login 0 ''T1'' 60 (to_phase 0 LoginSent tok_init))"
  by (rule rtranclp_mono [THEN predicate2D, OF _ first_login_lone]) (rule predicate2I, simp add: lone_step_def)

theorem lone_callers_keep_expiry_witness:
  "(''T1'', 60 * second) \<in> ty_leases (ex_login 0 ''T1'' 60 (to_phase 0 LoginSent tok_init))"
proof -
  have "wrap64 (60 * second) = 60 * second" by code_simp
  then show ?thesis using lone_callers_keep_expiry [OF first_login_lone]
    by (simp add: ex_login_def storeLogin_def ex_grant_def leaseExpiry_def)
qed

theorem concurrent_tokens_granted_witness:
  "\<exists>expiry. (''T1'', expiry) \<in> ty_leases (ex_login 0 ''T1'' 60 (to_phase 0 LoginSent tok_init))"
  using concurrent_tokens_granted [OF first_login, of 0 "''T1''"] by (simp add: ex_login_def storeLogin_def ex_grant_def)

text \<open>Two callers in, both find the token near its end and both send a renewal.\<close>

lemma send_renewal:
  assumes "ty_phase s i = None" "tk_token (ty_tok s) \<noteq> ''''" "tk_renewable (ty_tok s)"
    "tk_expiry (ty_tok s) = 60 * second"
  shows "(tok_step (5 * minute))\<^sup>*\<^sup>* s (to_phase i (RenewSent (tk_token (ty_tok s))) s)"
proof -
  let ?s1 = "to_phase i (snapshot (ty_tok s)) s"
  have "(tok_step (5 * minute))\<^sup>*\<^sup>* s s" by simp
  also have "tok_step (5 * minute) s ?s1" using assms(1) by (rule tok_step.snap)
  also have "tok_step (5 * minute) ?s1 (to_phase i (RenewSent (tk_token (ty_tok ?s1))) ?s1)"
    using assms(2-4) by (intro tok_step.renew [where now = 0 and now' = 0])
      (auto simp: snapshot_def comfortable_def renewablePhase_def time_Sub_def minute_def second_def minInt64_def maxInt64_def)
  also have "to_phase i (RenewSent (tk_token (ty_tok ?s1))) ?s1 = to_phase i (RenewSent (tk_token (ty_tok s))) s"
    by (simp add: to_phase_def)
  finally show ?thesis by simp
qed

text \<open>
  (C33) Two callers at once can leave the client with an expiry that belongs to another token. A renewal
  of T1 is answered after a second caller has logged in and stored T2: the stored expiry is then that
  of T1's renewal, an hour away, while the only lease of T2 ends after ten seconds; fifty minutes
  later the client still returns T2 without asking OpenBao.\<close>

theorem token_expiry_race:
  "\<exists>s. (tok_step (5 * minute))\<^sup>*\<^sup>* tok_init s \<and> tk_token (ty_tok s) = ''T2'' \<and>
     {e. (''T2'', e) \<in> ty_leases s} = {10 * second} \<and> tk_expiry (ty_tok s) = 3600 * second \<and>
     comfortable (5 * minute) (3000 * second) (tk_token (ty_tok s)) (tk_expiry (ty_tok s))"
proof -
  define s0 where "s0 = ex_login 0 ''T1'' 60 (to_phase 0 LoginSent tok_init)"
  define s1 where "s1 = to_phase 1 (RenewSent ''T1'') s0"
  define s2 where "s2 = to_phase 2 (RenewSent ''T1'') s1"
  define s3 where "s3 = ex_login 2 ''T2'' 10 (to_phase 2 LoginSent s2)"
  define s4 where "s4 = to_phase 1 Renewed (storeRenewal 0 ''T1'' (ex_grant ''T1'' 3600) s3)"
  have wrap: "wrap64 (60 * second) = 60 * second" "wrap64 (10 * second) = 10 * second" "wrap64 (3600 * second) = 3600 * second"
    by code_simp+
  have tok: "ty_tok s0 = \<lparr>tk_token = ''T1'', tk_expiry = 60 * second, tk_renewable = True\<rparr>" "ty_phase s0 = [0 \<mapsto> LoggedIn]"
    by (simp_all add: s0_def ex_login_def storeLogin_def ex_grant_def leaseExpiry_def wrap tok_init_def)
  have "(tok_step (5 * minute))\<^sup>*\<^sup>* tok_init s0" unfolding s0_def by (rule first_login)
  also have "(tok_step (5 * minute))\<^sup>*\<^sup>* s0 s1" using send_renewal [of s0 1] by (simp add: tok s1_def)
  also have "(tok_step (5 * minute))\<^sup>*\<^sup>* s1 s2" using send_renewal [of s1 2] by (simp add: tok s1_def s2_def)
  also have "tok_step (5 * minute) s2 (to_phase 2 LoginSent s2)"
    by (rule tok_step.renew_failed [where sent = "''T1''"]) (simp add: s2_def)
  also have "tok_step (5 * minute) (to_phase 2 LoginSent s2) s3"
    unfolding s3_def ex_login_def by (rule tok_step.logged_in) (simp_all add: ex_grant_def)
  also have "tok_step (5 * minute) s3 s4"
    unfolding s4_def by (rule tok_step.renewed) (simp add: s3_def s2_def s1_def ex_login_def)
  finally have reach: "(tok_step (5 * minute))\<^sup>*\<^sup>* tok_init s4" .
  have final: "ty_tok s4 = \<lparr>tk_token = ''T2'', tk_expiry = 3600 * second, tk_renewable = True\<rparr>"
    by (simp add: s4_def s3_def ex_login_def storeLogin_def storeRenewal_def ex_grant_def leaseExpiry_def wrap)
  have leases: "ty_leases s4 = {(''T1'', 3600 * second), (''T2'', 10 * second), (''T1'', 60 * second)}"
    by (simp add: s4_def s3_def s2_def s1_def s0_def ex_login_def ex_grant_def leaseExpiry_def wrap tok_init_def)
  have "comfortable (5 * minute) (3000 * second) ''T2'' (3600 * second)" by code_simp
  with reach final leases show ?thesis by (intro exI [of _ s4]) auto
qed


section \<open>A call from beginning to end\<close>

definition tokenOf :: "baoClient \<Rightarrow> tokenState" where
  "tokenOf c = \<lparr>tk_token = bc_token c, tk_expiry = bc_tokenExpiry c, tk_renewable = bc_renewable c\<rparr>"

lemma tokenOf_nextReply [simp]: "tokenOf (snd (nextReply rq c)) = tokenOf c"
  by (simp add: tokenOf_def nextReply_def split: list.split)

lemma tokenOf_requestLoop: "tokenOf (snd (requestLoop J E path rq retries attempt c)) = tokenOf c"
proof (induction retries arbitrary: attempt c)
  case 0
  show ?case by (subst requestLoop_step) (simp split: sum.split option.split)
next
  case (Suc m)
  show ?case by (subst requestLoop_step) (simp add: Suc.IH split: sum.split option.split)
qed

lemma tokenOf_doRaw: "doRaw J E method path body token decode zero c = (res, c') \<Longrightarrow> tokenOf c' = tokenOf c"
proof -
  assume raw: "doRaw J E method path body token decode zero c = (res, c')"
  have req: "tokenOf r = tokenOf c" if "doRequest J E method path payload token c = (q, r)" for payload q r
    using that tokenOf_requestLoop by (metis doRequest_def snd_conv)
  show ?thesis using raw req
    by (auto simp: doRaw_def split: sum.splits option.splits prod.splits bao_result.splits if_splits)
qed

lemma Login_token:
  assumes "Login J E c = (res, c')" "res \<noteq> BaoPanic"
  shows "(\<exists>e. res = BaoErr e \<and> tokenOf c' = tokenOf c) \<or> (res = BaoOk () \<and> (\<exists>a::authData. au_ClientToken a \<noteq> '''' \<and>
    tokenOf c' = \<lparr>tk_token = au_ClientToken a, tk_expiry = leaseExpiry (be_now E) (au_LeaseDuration a), tk_renewable = au_Renewable a\<rparr>))"
proof -
  obtain r c1 where raw: "doRaw J E ''POST'' (''v1/auth/'' @ bcfg_AppRoleMount (bc_cfg c) @ ''/login'')
      (Some [(''role_id'', JStr (bcfg_RoleID (bc_cfg c))), (''secret_id'', JStr (bcfg_SecretID (bc_cfg c)))]) ''''
      (js_auth J) None c = (r, c1)" by force
  note same = tokenOf_doRaw [OF raw]
  show ?thesis
  proof (cases "\<exists>a. r = BaoOk (Some a) \<and> au_ClientToken a \<noteq> []")
    case True
    then obtain a where "r = BaoOk (Some a)" "au_ClientToken a \<noteq> []" by blast
    with assms(1) raw show ?thesis by (intro disjI2 conjI exI [of _ a]) (auto simp: Login_def tokenOf_def)
  next
    case False
    with assms raw same show ?thesis by (auto simp: Login_def split: bao_result.splits option.splits if_splits)
  qed
qed

lemma renewSelf_token:
  assumes "renewSelf J E c = (res, c')" "res \<noteq> BaoPanic"
  shows "(\<exists>e. res = BaoErr e \<and> tokenOf c' = tokenOf c) \<or> (res = BaoOk () \<and> (\<exists>a::authData.
    tokenOf c' = (tokenOf c)\<lparr>tk_renewable := au_Renewable a, tk_expiry := leaseExpiry (be_now E) (au_LeaseDuration a)\<rparr>))"
proof -
  obtain r c1 where raw: "doRaw J E ''POST'' ''v1/auth/token/renew-self'' None (bc_token c) (js_auth J) None c = (r, c1)" by force
  note same = tokenOf_doRaw [OF raw]
  show ?thesis
  proof (cases "\<exists>a. r = BaoOk (Some a)")
    case True
    then obtain a where "r = BaoOk (Some a)" by blast
    with assms(1) raw same show ?thesis by (intro disjI2 conjI exI [of _ a]) (auto simp: renewSelf_def tokenOf_def)
  next
    case False
    with assms raw same show ?thesis by (auto simp: renewSelf_def split: bao_result.splits option.splits)
  qed
qed

text \<open>Where a call ends: at its token, or without one; the other callers have not moved.\<close>

definition ends_call :: "duration \<Rightarrow> token_sys \<Rightarrow> nat \<Rightarrow> string bao_result \<Rightarrow> baoClient \<Rightarrow> bool" where
  "ends_call threshold s i res c' = (\<exists>s'. (tok_step threshold)\<^sup>*\<^sup>* s s' \<and> ty_tok s' = tokenOf c' \<and>
    (\<forall>j. j \<noteq> i \<longrightarrow> ty_phase s' j = ty_phase s j) \<and>
    ty_phase s' i = Some (case res of BaoOk t \<Rightarrow> HasToken t | _ \<Rightarrow> NoToken))"

lemma ends_call_step:
  assumes "tok_step threshold s s1" "\<And>j. j \<noteq> i \<Longrightarrow> ty_phase s1 j = ty_phase s j" "ends_call threshold s1 i res c'"
  shows "ends_call threshold s i res c'"
  using assms unfolding ends_call_def by (metis converse_rtranclp_into_rtranclp)

lemma ends_call_here:
  assumes "ty_tok s = tokenOf c'" "ty_phase s i = Some (case res of BaoOk t \<Rightarrow> HasToken t | _ \<Rightarrow> NoToken)"
  shows "ends_call threshold s i res c'"
  using assms unfolding ends_call_def by blast

lemma loginToken_ends:
  assumes "loginToken J E c = (res, c')" "res \<noteq> BaoPanic" "ty_tok s = tokenOf c" "ty_phase s i = Some LoginSent"
  shows "ends_call threshold s i res c'"
proof -
  obtain r c1 where login: "Login J E c = (r, c1)" by force
  have r: "r \<noteq> BaoPanic" "c1 = c'" using assms(1,2) login by (auto simp: loginToken_def split: bao_result.splits)
  from Login_token [OF login r(1)] show ?thesis
  proof (elim disjE exE conjE)
    fix e assume "r = BaoErr e" and same: "tokenOf c1 = tokenOf c"
    then have res: "res = BaoErr e" using assms(1) login by (simp add: loginToken_def)
    show ?thesis
      by (rule ends_call_step [OF tok_step.login_failed [OF assms(4)]], simp, rule ends_call_here)
        (simp_all add: res same assms(3) flip: r(2))
  next
    fix a :: authData
    assume ok: "r = BaoOk ()" and a: "au_ClientToken a \<noteq> ''''" and
      t: "tokenOf c1 = \<lparr>tk_token = au_ClientToken a, tk_expiry = leaseExpiry (be_now E) (au_LeaseDuration a), tk_renewable = au_Renewable a\<rparr>"
    have res: "res = BaoOk (bc_token c1)" using assms(1) login ok by (auto simp: loginToken_def)
    have stored: "ty_tok (to_phase i LoggedIn (storeLogin (be_now E) a s)) = tokenOf c1" by (simp add: storeLogin_def t)
    have "ends_call threshold (to_phase i LoggedIn (storeLogin (be_now E) a s)) i res c'"
      by (rule ends_call_step [OF tok_step.current [of _ i LoggedIn]], simp_all del: store_simps, rule ends_call_here)
        (use stored in \<open>simp_all add: res tokenOf_def flip: r(2)\<close>)
    then show ?thesis by (rule ends_call_step [OF tok_step.logged_in [OF assms(4) a], rotated]) simp
  qed
qed

text \<open>A renewal that is answered, and the login that follows where it failed.\<close>

lemma renewSelf_ends:
  assumes "renewSelf J E c = (r, c1)"
    and run: "(case r of BaoOk _ \<Rightarrow> (BaoOk (bc_token c1), c1) | BaoErr _ \<Rightarrow> loginToken J E c1 | BaoPanic \<Rightarrow> (BaoPanic, c1)) = (res, c')"
    and "res \<noteq> BaoPanic" and s: "ty_tok s = tokenOf c" "ty_phase s i = Some (RenewSent (bc_token c))"
  shows "ends_call threshold s i res c'"
proof -
  have "r \<noteq> BaoPanic" using run assms(3) by auto
  from renewSelf_token [OF assms(1) this] show ?thesis
  proof (elim disjE exE conjE)
    fix e assume e: "r = BaoErr e" "tokenOf c1 = tokenOf c"
    then have "loginToken J E c1 = (res, c')" using run by simp
    from loginToken_ends [OF this assms(3), of "to_phase i LoginSent s" i] show ?thesis
      by (intro ends_call_step [OF tok_step.renew_failed [OF s(2)]]) (simp_all add: s e)
  next
    fix a :: authData
    assume ok: "r = BaoOk ()" and
      t: "tokenOf c1 = (tokenOf c)\<lparr>tk_renewable := au_Renewable a, tk_expiry := leaseExpiry (be_now E) (au_LeaseDuration a)\<rparr>"
    have res: "res = BaoOk (bc_token c1)" "c' = c1" using run ok by auto
    define s' where "s' = to_phase i Renewed (storeRenewal (be_now E) (bc_token c) a s)"
    have s': "ty_phase s' i = Some Renewed" "ty_tok s' = tokenOf c1" by (simp_all add: s'_def storeRenewal_def s t)
    have "ends_call threshold s' i res c'"
      by (rule ends_call_step [OF tok_step.current [OF s'(1)]], simp_all, rule ends_call_here)
        (simp_all add: res s', simp add: tokenOf_def)
    then show ?thesis
      unfolding s'_def by (rule ends_call_step [OF tok_step.renewed [OF s(2)], rotated]) simp
  qed
qed

text \<open>
  (C31) The sequential model of ensureToken refines the steps: from every state in which the caller has
  not started and the token fields are the client's, its steps alone lead to the token fields, the
  returned token or the failure of the sequential call.\<close>

theorem ensureToken_refines_steps:
  assumes "ensureToken J E c = (res, c')" and "res \<noteq> BaoPanic" and "ty_tok s = tokenOf c" and "ty_phase s i = None"
  shows "ends_call (bcfg_RenewThreshold (bc_cfg c)) s i res c'"
proof -
  let ?thr = "bcfg_RenewThreshold (bc_cfg c)" and ?now = "be_now E"
  define s1 where "s1 = to_phase i (snapshot (ty_tok s)) s"
  have s1: "ty_phase s1 i = Some (Snap (bc_token c) (bc_tokenExpiry c) (bc_renewable c))" "ty_tok s1 = tokenOf c"
    by (simp_all add: s1_def snapshot_def assms(3) tokenOf_def)
  have "ends_call ?thr s1 i res c'"
  proof (cases "comfortable ?thr ?now (bc_token c) (bc_tokenExpiry c)")
    case True
    then have "res = BaoOk (bc_token c)" "c' = c" using assms(1) by (auto simp: ensureToken_def comfortable_def Let_def)
    then show ?thesis
      by (intro ends_call_step [OF tok_step.valid [OF s1(1) True]] ends_call_here) (simp_all add: s1)
  next
    case near: False
    show ?thesis
    proof (cases "renewablePhase ?now (bc_token c) (bc_tokenExpiry c) (bc_renewable c)")
      case False
      then have "loginToken J E c = (res, c')" using assms(1) near
        by (auto simp: ensureToken_def comfortable_def renewablePhase_def Let_def split: if_splits)
      from loginToken_ends [OF this assms(2), of "to_phase i LoginSent s1" i] show ?thesis
        by (intro ends_call_step [OF tok_step.login [OF s1(1) near False]]) (simp_all add: s1)
    next
      case True
      define s2 where "s2 = to_phase i (RenewSent (tk_token (ty_tok s1))) s1"
      have s2: "ty_phase s2 i = Some (RenewSent (bc_token c))" "ty_tok s2 = tokenOf c"
        by (simp_all add: s2_def s1 tokenOf_def)
      obtain r c1 where renew: "renewSelf J E c = (r, c1)" by force
      have "(case r of BaoOk _ \<Rightarrow> (BaoOk (bc_token c1), c1) | BaoErr _ \<Rightarrow> loginToken J E c1 | BaoPanic \<Rightarrow> (BaoPanic, c1)) = (res, c')"
        using assms(1) near True renew
        by (auto simp: ensureToken_def comfortable_def renewablePhase_def Let_def split: bao_result.splits)
      from renewSelf_ends [OF renew this assms(2) s2(2,1)] have "ends_call ?thr s2 i res c'" .
      then show ?thesis
        by (intro ends_call_step [OF tok_step.renew [OF s1(1) near True]]) (simp_all add: s2_def)
    qed
  qed
  then show ?thesis by (intro ends_call_step [OF tok_step.snap [OF assms(4)]]) (simp_all add: s1_def)
qed


theorem ensureToken_refines_steps_witness:
  "\<exists>c'. ends_call (5 * minute) (tok_init\<lparr>ty_tok := tokenOf (ex_client [Reply 200 ''auth''])\<rparr>) 0 (BaoOk ''tok'') c'"
proof -
  let ?c = "ex_client [Reply 200 ''auth'']"
  have run: "fst (ensureToken ex_json ex_env ?c) = BaoOk ''tok''" by code_simp
  have thr: "bcfg_RenewThreshold (bc_cfg ?c) = 5 * minute" by code_simp
  from ensureToken_refines_steps [OF prod.collapse [symmetric], of ex_json ex_env ?c "tok_init\<lparr>ty_tok := tokenOf ?c\<rparr>" 0] run thr
  show ?thesis by (auto simp: tok_init_def)
qed

end
