(* ===== verification/Bao_Provision.thy ===== *)
theory Bao_Provision
  imports Bao_Properties
begin

text \<open>
  The provisioner of the integration tests, \<open>src/internal/baotest/baotest.go\<close>: it mounts a PKI engine
  of its own on a live OpenBao, with a role, an ACL policy and an AppRole, and takes them down when
  the test ends. OpenBao is a function from a request and its state to a reply; JSON is a record of
  functions. A test that stops early (\<open>Skip\<close>, \<open>Fatal\<close>) is the left side of a result, and the
  functions registered with \<open>t.Cleanup\<close> run at its end, the last one first.
\<close>

section \<open>The state of a test\<close>

datatype jsonAny = AnyStr string | AnyBool bool | AnyInt int | AnyObj "(string \<times> jsonAny) list"

type_synonym jsonBody = "(string, jsonAny) gomap"

text \<open>
  \<open>bl_marshal\<close>: \<open>json.Marshal\<close> of a map. \<open>bl_keys\<close>: the keys of a decoded object. \<open>bl_data\<close>: the text
  under the given name in the object \<open>data\<close>, empty where it is missing. \<open>bl_buildErr\<close>: the error of
  \<open>http.NewRequest\<close> on a URL.
\<close>

record testLib =
  bl_marshal :: "jsonBody \<Rightarrow> (string, string) result"
  bl_keys :: "string \<Rightarrow> (string, string list) result"
  bl_data :: "string \<Rightarrow> string \<Rightarrow> (string, string) result"
  bl_buildErr :: "string \<Rightarrow> string option"

type_synonym 'w openbao = "baoRequest \<Rightarrow> 'w \<Rightarrow> reply \<times> 'w"

record testServer =
  ts_Addr :: string
  ts_Mount :: string
  ts_Role :: string
  ts_AppRole :: string
  ts_RoleID :: string
  ts_SecretID :: string
  ts_CACertPEM :: string
  ts_token :: string

record 'w testState =
  te_world :: 'w
  te_sent :: "baoRequest list"
  te_cleanup :: "testServer list"

datatype test_stop = Skipped string | Fatal string

type_synonym ('w, 'a) test_op = "'w testState \<Rightarrow> (test_stop, 'a) result \<times> 'w testState"

definition andThen :: "('w, 'a) test_op \<Rightarrow> ('a \<Rightarrow> ('w, 'b) test_op) \<Rightarrow> ('w, 'b) test_op" where
  "andThen m f s = (case m s of (Inl stop, s1) \<Rightarrow> (Inl stop, s1) | (Inr a, s1) \<Rightarrow> f a s1)"

section \<open>Requests\<close>

datatype request_error =
    RqMarshal string string | RqBuild string string | RqNet string string string | RqRead string string
  | RqStatus string string nat string | RqDecode string string

primrec requestErrorText :: "request_error \<Rightarrow> string" where
  "requestErrorText (RqMarshal path err) = ''marshal '' @ path @ '': '' @ err"
| "requestErrorText (RqBuild path err) = ''build request '' @ path @ '': '' @ err"
| "requestErrorText (RqNet meth path err) = meth @ '' '' @ path @ '': '' @ err"
| "requestErrorText (RqRead path err) = ''read '' @ path @ '': '' @ err"
| "requestErrorText (RqStatus meth path status raw) =
     meth @ '' '' @ path @ '' -> '' @ natString status @ '': '' @ trimSpace raw"
| "requestErrorText (RqDecode path err) = ''decode '' @ path @ '': '' @ err"

text \<open>
  \<open>request\<close> with the decoder of its result, none where the source passes \<open>nil\<close>; \<open>zero\<close> is what the
  result holds when nothing was decoded into it.
\<close>

definition bt_onReply :: "string \<Rightarrow> string \<Rightarrow> (string \<Rightarrow> (string, 'o) result) option \<Rightarrow> 'o \<Rightarrow> reply \<Rightarrow> (request_error, 'o) result" where
  "bt_onReply meth path out zero r =
    (case r of
       NetErr err \<Rightarrow> Err (RqNet meth path err)
     | ReadErr err \<Rightarrow> Err (RqRead path err)
     | Reply status raw \<Rightarrow>
        if status \<ge> 400 then Err (RqStatus meth path status raw)
        else (case out of
                None \<Rightarrow> Ok zero
              | Some decode \<Rightarrow>
                 if raw = [] then Ok zero
                 else (case decode raw of Inl err \<Rightarrow> Err (RqDecode path err) | Inr v \<Rightarrow> Ok v)))"

definition bt_request :: "testLib \<Rightarrow> 'w openbao \<Rightarrow> testServer \<Rightarrow> string \<Rightarrow> string \<Rightarrow> jsonBody option
   \<Rightarrow> (string \<Rightarrow> (string, 'o) result) option \<Rightarrow> 'o \<Rightarrow> 'w testState \<Rightarrow> (request_error, 'o) result \<times> 'w testState" where
  "bt_request L B v meth path body out zero s =
    (case (case body of None \<Rightarrow> Ok None | Some m \<Rightarrow> (case bl_marshal L m of Inl err \<Rightarrow> Err err | Inr p \<Rightarrow> Ok (Some p))) of
       Inl err \<Rightarrow> (Err (RqMarshal path err), s)
     | Inr payload \<Rightarrow>
        (case bl_buildErr L (ts_Addr v @ ''/'' @ path) of
           Some err \<Rightarrow> (Err (RqBuild path err), s)
         | None \<Rightarrow>
            (let rq = \<lparr>brq_Method = meth, brq_URL = ts_Addr v @ ''/'' @ path, brq_Payload = payload, brq_Token = ts_token v\<rparr>;
                 (r, w) = B rq (te_world s)
             in (bt_onReply meth path out zero r, s\<lparr>te_world := w, te_sent := te_sent s @ [rq]\<rparr>))))"

definition request2 :: "testLib \<Rightarrow> 'w openbao \<Rightarrow> testServer \<Rightarrow> string \<Rightarrow> string \<Rightarrow> jsonBody option
   \<Rightarrow> (string \<Rightarrow> (string, 'o) result) option \<Rightarrow> 'o \<Rightarrow> ('w, 'o) test_op" where
  "request2 L B v meth path body out zero s =
    (case bt_request L B v meth path body out zero s of
       (Inl err, s1) \<Rightarrow> (Err (Fatal (''baotest: '' @ requestErrorText err)), s1)
     | (Inr o', s1) \<Rightarrow> (Ok o', s1))"

definition post :: "testLib \<Rightarrow> 'w openbao \<Rightarrow> testServer \<Rightarrow> string \<Rightarrow> jsonBody
   \<Rightarrow> (string \<Rightarrow> (string, 'o) result) option \<Rightarrow> 'o \<Rightarrow> ('w, 'o) test_op" where
  "post L B v path body out zero = request2 L B v ''POST'' path (Some body) out zero"

text \<open>\<open>try\<close> with its result dropped, as every caller does.\<close>

definition bt_try :: "testLib \<Rightarrow> 'w openbao \<Rightarrow> testServer \<Rightarrow> string \<Rightarrow> string \<Rightarrow> jsonBody option \<Rightarrow> 'w testState \<Rightarrow> 'w testState" where
  "bt_try L B v meth path body s = snd (bt_request L B v meth path body None () s)"

abbreviation noOut :: "(string \<Rightarrow> (string, unit) result) option" where "noOut \<equiv> None"

section \<open>Provisioning\<close>

definition PolicyName :: "testServer \<Rightarrow> string" where "PolicyName v = ts_AppRole v"

definition mountPKI :: "testLib \<Rightarrow> 'w openbao \<Rightarrow> testServer \<Rightarrow> ('w, unit) test_op" where
  "mountPKI L B v = post L B v (''v1/sys/mounts/'' @ ts_Mount v)
     [(''type'', AnyStr ''pki''), (''config'', AnyObj [(''max_lease_ttl'', AnyStr ''87600h'')])] noOut ()"

definition generateCA :: "testLib \<Rightarrow> 'w openbao \<Rightarrow> testServer \<Rightarrow> ('w, unit) test_op" where
  "generateCA L B v = post L B v (''v1/'' @ ts_Mount v @ ''/root/generate/internal'')
     [(''common_name'', AnyStr ''certbroker integration test CA''), (''ttl'', AnyStr ''87600h'')] noOut ()"

definition roleDefaults :: jsonBody where
  "roleDefaults =
    [(''allowed_domains'', AnyStr ''example.com''), (''allow_subdomains'', AnyBool True), (''allow_bare_domains'', AnyBool False),
     (''allow_localhost'', AnyBool False), (''allow_ip_sans'', AnyBool False), (''use_csr_common_name'', AnyBool False),
     (''use_csr_sans'', AnyBool False), (''server_flag'', AnyBool True), (''client_flag'', AnyBool True),
     (''key_type'', AnyStr ''any''), (''max_ttl'', AnyStr ''2160h''), (''ttl'', AnyStr ''720h'')]"

definition roleBody :: "jsonBody \<Rightarrow> jsonBody" where
  "roleBody overrides = fold (\<lambda>(k, v). gm_put k v) overrides roleDefaults"

definition writeRoleWith :: "testLib \<Rightarrow> 'w openbao \<Rightarrow> testServer \<Rightarrow> string \<Rightarrow> jsonBody \<Rightarrow> ('w, unit) test_op" where
  "writeRoleWith L B v name overrides = post L B v (''v1/'' @ ts_Mount v @ ''/roles/'' @ name) (roleBody overrides) noOut ()"

definition writeRole :: "testLib \<Rightarrow> 'w openbao \<Rightarrow> testServer \<Rightarrow> string \<Rightarrow> ('w, unit) test_op" where
  "writeRole L B v allowedDomains = writeRoleWith L B v (ts_Role v)
     [(''allowed_domains'', AnyStr allowedDomains), (''use_csr_common_name'', AnyBool False), (''use_csr_sans'', AnyBool False)]"

definition WriteRole :: "testLib \<Rightarrow> 'w openbao \<Rightarrow> testServer \<Rightarrow> string \<Rightarrow> jsonBody \<Rightarrow> ('w, unit) test_op" where
  "WriteRole L B v name overrides = writeRoleWith L B v name overrides"

definition enableAppRole :: "testLib \<Rightarrow> 'w openbao \<Rightarrow> testServer \<Rightarrow> ('w, unit) test_op" where
  "enableAppRole L B v s =
    (let (res, s1) = bt_request L B v ''GET'' ''v1/sys/auth'' None (Some (bl_keys L)) [] s
     in if (case res of Inr keys \<Rightarrow> ''approle/'' \<in> set keys | Inl _ \<Rightarrow> False) then (Ok (), s1)
        else (Ok (), bt_try L B v ''POST'' ''v1/sys/auth/approle'' (Some [(''type'', AnyStr ''approle'')]) s1))"

text \<open>The policy: one line for each rule, with its path, its capabilities and the blanks between.\<close>

definition policyRules :: "string \<Rightarrow> (string \<times> string \<times> string list) list" where
  "policyRules mount =
    [(mount @ ''/sign/*'', ''   '', [''create'', ''update'']), (mount @ ''/issue/*'', ''  '', [''create'', ''update'']),
     (mount @ ''/ca_chain'', '' '', [''read''])]"

definition quoted :: "string \<Rightarrow> string" where "quoted s = CHR 0x22 # s @ [CHR 0x22]"

definition ruleText :: "string \<times> string \<times> string list \<Rightarrow> string" where
  "ruleText r = (case r of (path, blanks, caps) \<Rightarrow>
     ''path '' @ quoted path @ blanks @ ''{ capabilities = ['' @
     concat (case map quoted caps of [] \<Rightarrow> [] | c # cs \<Rightarrow> c # map (\<lambda>x. '', '' @ x) cs) @ ''] }'' @ [lineFeed])"

definition policyText :: "string \<Rightarrow> string" where
  "policyText mount = lineFeed # concat (map ruleText (policyRules mount))"

definition writePolicy :: "testLib \<Rightarrow> 'w openbao \<Rightarrow> testServer \<Rightarrow> ('w, unit) test_op" where
  "writePolicy L B v = post L B v (''v1/sys/policies/acl/'' @ PolicyName v) [(''policy'', AnyStr (policyText (ts_Mount v)))] noOut ()"

definition writeAppRole :: "testLib \<Rightarrow> 'w openbao \<Rightarrow> testServer \<Rightarrow> ('w, unit) test_op" where
  "writeAppRole L B v = post L B v (''v1/auth/approle/role/'' @ ts_AppRole v)
     [(''token_policies'', AnyStr (PolicyName v)), (''token_ttl'', AnyStr ''20m''), (''token_max_ttl'', AnyStr ''1h''),
      (''secret_id_ttl'', AnyInt 0), (''secret_id_num_uses'', AnyInt 0)] noOut ()"

text \<open>An answer without the expected field ends the test.\<close>

definition nonEmpty :: "string \<Rightarrow> string \<Rightarrow> ('w, string) test_op" where
  "nonEmpty what x s = (if x = '''' then (Err (Fatal (''baotest: empty '' @ what)), s) else (Ok x, s))"

definition readRoleID :: "testLib \<Rightarrow> 'w openbao \<Rightarrow> testServer \<Rightarrow> ('w, string) test_op" where
  "readRoleID L B v = andThen
     (request2 L B v ''GET'' (''v1/auth/approle/role/'' @ ts_AppRole v @ ''/role-id'') None (Some (bl_data L ''role_id'')) '''')
     (nonEmpty ''role_id'')"

definition issueSecretID :: "testLib \<Rightarrow> 'w openbao \<Rightarrow> testServer \<Rightarrow> ('w, string) test_op" where
  "issueSecretID L B v = andThen
     (post L B v (''v1/auth/approle/role/'' @ ts_AppRole v @ ''/secret-id'') gm_empty (Some (bl_data L ''secret_id'')) '''')
     (nonEmpty ''secret_id'')"

definition readCACert :: "testLib \<Rightarrow> 'w openbao \<Rightarrow> testServer \<Rightarrow> ('w, string) test_op" where
  "readCACert L B v = andThen
     (request2 L B v ''GET'' (''v1/'' @ ts_Mount v @ ''/cert/ca'') None (Some (bl_data L ''certificate'')) '''')
     (nonEmpty ''CA certificate'')"

definition IssueSecretID :: "testLib \<Rightarrow> 'w openbao \<Rightarrow> testServer \<Rightarrow> ('w, string) test_op" where
  "IssueSecretID L B v = issueSecretID L B v"

definition teardown :: "testLib \<Rightarrow> 'w openbao \<Rightarrow> testServer \<Rightarrow> 'w testState \<Rightarrow> 'w testState" where
  "teardown L B v s =
    bt_try L B v ''DELETE'' (''v1/sys/policies/acl/'' @ PolicyName v) None
      (bt_try L B v ''DELETE'' (''v1/auth/approle/role/'' @ ts_AppRole v) None
        (bt_try L B v ''DELETE'' (''v1/sys/mounts/'' @ ts_Mount v) None s))"

text \<open>The six random bytes, or the error of the random source, are an argument.\<close>

definition randomSuffix :: "(string, string) result \<Rightarrow> ('w, string) test_op" where
  "randomSuffix rnd s = (case rnd of Inl err \<Rightarrow> (Err (Fatal (''baotest: random: '' @ err)), s) | Inr b \<Rightarrow> (Ok (hexEncode b), s))"

definition EnvAddr :: string where "EnvAddr = ''CERTBROKER_TEST_OPENBAO_ADDR''"
definition EnvToken :: string where "EnvToken = ''CERTBROKER_TEST_OPENBAO_TOKEN''"

definition serverFor :: "string \<Rightarrow> string \<Rightarrow> string \<Rightarrow> testServer" where
  "serverFor addr token suffix =
    \<lparr>ts_Addr = addr, ts_Mount = ''pki_test_'' @ suffix, ts_Role = ''test-role'', ts_AppRole = ''certbroker_test_'' @ suffix,
     ts_RoleID = '''', ts_SecretID = '''', ts_CACertPEM = '''', ts_token = token\<rparr>"

definition registerCleanup :: "testServer \<Rightarrow> ('w, testServer) test_op" where
  "registerCleanup v s = (Ok v, s\<lparr>te_cleanup := v # te_cleanup s\<rparr>)"

text \<open>The steps after the server is named, in the order of the source.\<close>

definition provisionSteps :: "testLib \<Rightarrow> 'w openbao \<Rightarrow> string \<Rightarrow> testServer \<Rightarrow> ('w, testServer) test_op" where
  "provisionSteps L B allowedDomains v =
    andThen (mountPKI L B v) (\<lambda>_.
    andThen (generateCA L B v) (\<lambda>_.
    andThen (writeRole L B v allowedDomains) (\<lambda>_.
    andThen (enableAppRole L B v) (\<lambda>_.
    andThen (writePolicy L B v) (\<lambda>_.
    andThen (writeAppRole L B v) (\<lambda>_.
    andThen (readRoleID L B v) (\<lambda>roleID.
    andThen (issueSecretID L B v) (\<lambda>secretID.
    andThen (readCACert L B v) (\<lambda>ca.
      registerCleanup (v\<lparr>ts_RoleID := roleID, ts_SecretID := secretID, ts_CACertPEM := ca\<rparr>))))))))))"

definition Provision :: "testLib \<Rightarrow> 'w openbao \<Rightarrow> (string \<Rightarrow> string) \<Rightarrow> (string, string) result \<Rightarrow> string \<Rightarrow> ('w, testServer) test_op" where
  "Provision L B env rnd allowedDomains =
    (let addr = env EnvAddr; token = env EnvToken
     in if addr = '''' \<or> token = '''' then (\<lambda>s. (Err (Skipped (''integration test needs '' @ EnvAddr @ '' and '' @ EnvToken)), s))
        else andThen (randomSuffix rnd) (\<lambda>suffix. provisionSteps L B allowedDomains (serverFor addr token suffix)))"

text \<open>The end of a test, however it came about.\<close>

definition finishTest :: "testLib \<Rightarrow> 'w openbao \<Rightarrow> 'w testState \<Rightarrow> 'w testState" where
  "finishTest L B s = fold (teardown L B) (te_cleanup s) (s\<lparr>te_cleanup := []\<rparr>)"

section \<open>What is sent\<close>

definition endpoints :: "'w testState \<Rightarrow> (string \<times> string) list" where
  "endpoints s = map (\<lambda>q. (brq_Method q, brq_URL q)) (te_sent s)"

lemma endpoints_cleanup [simp]: "endpoints (s\<lparr>te_cleanup := cs\<rparr>) = endpoints s"
  by (simp add: endpoints_def)

lemma andThen_Ok:
  assumes "andThen m f s = (Ok b, s')"
  obtains a s1 where "m s = (Ok a, s1)" "f a s1 = (Ok b, s')"
  using assms by (auto simp: andThen_def split: prod.splits sum.splits)

text \<open>An operation that registers no cleanup; one that registers none when it stops the test.\<close>

definition keeps :: "('w, 'a) test_op \<Rightarrow> bool" where
  "keeps m = (\<forall>s. te_cleanup (snd (m s)) = te_cleanup s)"

definition stop_keeps :: "('w, 'a) test_op \<Rightarrow> bool" where
  "stop_keeps m = (\<forall>s stop s'. m s = (Err stop, s') \<longrightarrow> te_cleanup s' = te_cleanup s)"

lemma bt_request_cleanup [simp]: "te_cleanup (snd (bt_request L B v meth path body out zero s)) = te_cleanup s"
  by (simp add: bt_request_def Let_def split_def split: sum.split option.split)

lemma request2_keeps: "keeps (request2 L B v meth path body out zero)"
proof -
  have "te_cleanup s1 = te_cleanup s" if "bt_request L B v meth path body out zero s = (r, s1)" for s r s1
    using that bt_request_cleanup [of L B v meth path body out zero s] by simp
  then show ?thesis by (auto simp: keeps_def request2_def split: prod.split sum.split)
qed

lemma keeps_andThen:
  assumes "keeps m" "\<And>a. keeps (f a)"
  shows "keeps (andThen m f)"
  unfolding keeps_def
proof
  fix s
  obtain r s1 where m: "m s = (r, s1)" by force
  then have "te_cleanup s1 = te_cleanup s" using assms(1) unfolding keeps_def by (metis snd_conv)
  with m assms(2) show "te_cleanup (snd (andThen m f s)) = te_cleanup s"
    by (cases r) (simp_all add: andThen_def keeps_def)
qed

lemma stop_keeps_andThen:
  assumes "keeps m" "\<And>a. stop_keeps (f a)"
  shows "stop_keeps (andThen m f)"
  unfolding stop_keeps_def
proof (intro allI impI)
  fix s stop s'
  assume stop: "andThen m f s = (Err stop, s')"
  obtain r s1 where m: "m s = (r, s1)" by force
  then have "te_cleanup s1 = te_cleanup s" using assms(1) unfolding keeps_def by (metis snd_conv)
  with m stop assms(2) show "te_cleanup s' = te_cleanup s"
    by (cases r) (auto simp: andThen_def stop_keeps_def)
qed

lemma nonEmpty_keeps: "keeps (nonEmpty what x)"
  by (simp add: keeps_def nonEmpty_def)

lemma enableAppRole_keeps: "keeps (enableAppRole L B v)"
  by (simp add: keeps_def enableAppRole_def bt_try_def split_def Let_def)

lemmas provision_ops = mountPKI_def generateCA_def writeRole_def writeRoleWith_def writePolicy_def writeAppRole_def
  readRoleID_def issueSecretID_def readCACert_def post_def

lemma provisionSteps_stop: "stop_keeps (provisionSteps L B domains v)"
  unfolding provisionSteps_def
  by (intro stop_keeps_andThen enableAppRole_keeps)
    (simp_all add: provision_ops request2_keeps keeps_andThen nonEmpty_keeps, simp add: stop_keeps_def registerCleanup_def)

text \<open>What a request adds, by its outcome.\<close>

lemma request2_Ok:
  assumes "request2 L B v meth path body out zero s = (Ok a, s')"
  shows "te_cleanup s' = te_cleanup s \<and> endpoints s' = endpoints s @ [(meth, ts_Addr v @ ''/'' @ path)]"
  using assms by (auto simp: request2_def bt_request_def endpoints_def Let_def split_def split: prod.splits sum.splits option.splits)

lemma bt_try_endpoints:
  assumes "bl_buildErr L (ts_Addr v @ ''/'' @ path) = None"
  shows "endpoints (bt_try L B v meth path None s) = endpoints s @ [(meth, ts_Addr v @ ''/'' @ path)]"
  using assms by (simp add: bt_try_def bt_request_def endpoints_def Let_def split_def)

lemma bt_try_cleanup [simp]: "te_cleanup (bt_try L B v meth path body s) = te_cleanup s"
  by (simp add: bt_try_def)

lemma nonEmpty_Ok: "nonEmpty what x s = (Ok a, s') \<longleftrightarrow> x \<noteq> '''' \<and> a = x \<and> s' = s"
  by (auto simp: nonEmpty_def)

lemma request2_nonEmpty_Ok:
  assumes "andThen (request2 L B v meth path body out zero) (nonEmpty what) s = (Ok a, s')"
  shows "te_cleanup s' = te_cleanup s \<and> endpoints s' = endpoints s @ [(meth, ts_Addr v @ ''/'' @ path)] \<and> a \<noteq> ''''"
  using assms by (elim andThen_Ok) (auto simp: nonEmpty_Ok dest: request2_Ok)

definition enableLog :: "testServer \<Rightarrow> bool \<Rightarrow> (string \<times> string) list" where
  "enableLog v tried = (if tried then [(''POST'', ts_Addr v @ ''/v1/sys/auth/approle'')] else [])"

lemma enableAppRole_Ok:
  assumes "enableAppRole L B v s = (Ok a, s')" and "bl_buildErr L (ts_Addr v @ ''/v1/sys/auth'') = None"
  shows "te_cleanup s' = te_cleanup s \<and>
    (\<exists>tried. endpoints s' = endpoints s @ (''GET'', ts_Addr v @ ''/v1/sys/auth'') # enableLog v tried)"
proof -
  obtain r s1 where rq: "bt_request L B v ''GET'' ''v1/sys/auth'' None (Some (bl_keys L)) [] s = (r, s1)" by force
  have s1: "te_cleanup s1 = te_cleanup s" "endpoints s1 = endpoints s @ [(''GET'', ts_Addr v @ ''/v1/sys/auth'')]"
    using rq assms(2) by (auto simp: bt_request_def endpoints_def Let_def split_def)
  have "\<exists>tried. endpoints (bt_try L B v ''POST'' ''v1/sys/auth/approle'' body s1) = endpoints s1 @ enableLog v tried" for body
    by (auto simp: bt_try_def bt_request_def endpoints_def Let_def split_def enableLog_def split: sum.split option.split)
  moreover have "s' = s1 \<or> (\<exists>body. s' = bt_try L B v ''POST'' ''v1/sys/auth/approle'' body s1)"
    using assms(1) rq by (auto simp: enableAppRole_def Let_def split: if_splits)
  moreover have "endpoints s1 = endpoints s1 @ enableLog v False" by (simp add: enableLog_def)
  ultimately have "te_cleanup s' = te_cleanup s1" "\<exists>tried. endpoints s' = endpoints s1 @ enableLog v tried" by auto
  with s1 show ?thesis by simp
qed

section \<open>What is created is taken down\<close>

definition provisionLog :: "testServer \<Rightarrow> bool \<Rightarrow> (string \<times> string) list" where
  "provisionLog v tried = map (\<lambda>(meth, path). (meth, ts_Addr v @ ''/'' @ path))
     ([(''POST'', ''v1/sys/mounts/'' @ ts_Mount v), (''POST'', ''v1/'' @ ts_Mount v @ ''/root/generate/internal''),
       (''POST'', ''v1/'' @ ts_Mount v @ ''/roles/test-role''), (''GET'', ''v1/sys/auth'')])
     @ enableLog v tried
     @ map (\<lambda>(meth, path). (meth, ts_Addr v @ ''/'' @ path))
        [(''POST'', ''v1/sys/policies/acl/'' @ PolicyName v), (''POST'', ''v1/auth/approle/role/'' @ ts_AppRole v),
         (''GET'', ''v1/auth/approle/role/'' @ ts_AppRole v @ ''/role-id''),
         (''POST'', ''v1/auth/approle/role/'' @ ts_AppRole v @ ''/secret-id''), (''GET'', ''v1/'' @ ts_Mount v @ ''/cert/ca'')]"

definition teardownLog :: "testServer \<Rightarrow> (string \<times> string) list" where
  "teardownLog v = map (\<lambda>path. (''DELETE'', ts_Addr v @ ''/'' @ path))
     [''v1/sys/mounts/'' @ ts_Mount v, ''v1/auth/approle/role/'' @ ts_AppRole v, ''v1/sys/policies/acl/'' @ PolicyName v]"

lemma provisionSteps_Ok:
  assumes "provisionSteps L B domains v0 s = (Ok v, s')" and "ts_Role v0 = ''test-role''"
    and "bl_buildErr L (ts_Addr v0 @ ''/v1/sys/auth'') = None"
  shows "te_cleanup s' = v # te_cleanup s \<and> (\<exists>tried. endpoints s' = endpoints s @ provisionLog v tried) \<and>
    v = v0\<lparr>ts_RoleID := ts_RoleID v, ts_SecretID := ts_SecretID v, ts_CACertPEM := ts_CACertPEM v\<rparr> \<and>
    ts_RoleID v \<noteq> '''' \<and> ts_SecretID v \<noteq> '''' \<and> ts_CACertPEM v \<noteq> ''''"
  using assms(1) unfolding provisionSteps_def
proof (elim andThen_Ok)
  fix u1 s1 u2 s2 u3 s3 u4 s4 u5 s5 u6 s6 roleID s7 secretID s8 ca s9
  assume mount: "mountPKI L B v0 s = (Ok u1, s1)" and gen: "generateCA L B v0 s1 = (Ok u2, s2)"
    and role: "writeRole L B v0 domains s2 = (Ok u3, s3)" and enable: "enableAppRole L B v0 s3 = (Ok u4, s4)"
    and pol: "writePolicy L B v0 s4 = (Ok u5, s5)" and app: "writeAppRole L B v0 s5 = (Ok u6, s6)"
    and rid: "readRoleID L B v0 s6 = (Ok roleID, s7)" and sid: "issueSecretID L B v0 s7 = (Ok secretID, s8)"
    and ca: "readCACert L B v0 s8 = (Ok ca, s9)"
    and reg: "registerCleanup (v0\<lparr>ts_RoleID := roleID, ts_SecretID := secretID, ts_CACertPEM := ca\<rparr>) s9 = (Ok v, s')"
  obtain tried where tried: "te_cleanup s4 = te_cleanup s3"
    "endpoints s4 = endpoints s3 @ (''GET'', ts_Addr v0 @ ''/v1/sys/auth'') # enableLog v0 tried"
    using enableAppRole_Ok [OF enable assms(3)] by blast
  note sent = request2_Ok [OF mount [unfolded provision_ops]] request2_Ok [OF gen [unfolded provision_ops]]
    request2_Ok [OF role [unfolded provision_ops]] request2_Ok [OF pol [unfolded provision_ops]]
    request2_Ok [OF app [unfolded provision_ops]] request2_nonEmpty_Ok [OF rid [unfolded provision_ops]]
    request2_nonEmpty_Ok [OF sid [unfolded provision_ops]] request2_nonEmpty_Ok [OF ca [unfolded provision_ops]]
  have v: "v = v0\<lparr>ts_RoleID := roleID, ts_SecretID := secretID, ts_CACertPEM := ca\<rparr>" "s' = s9\<lparr>te_cleanup := v # te_cleanup s9\<rparr>"
    using reg by (auto simp: registerCleanup_def)
  have "endpoints s' = endpoints s @ provisionLog v tried"
    using sent tried assms(2) by (simp add: v provisionLog_def enableLog_def PolicyName_def)
  with v sent tried show ?thesis by auto
qed

lemma Provision_Ok:
  assumes "Provision L B env rnd domains s = (Ok v, s')"
  obtains b where "rnd = Ok b" "env EnvAddr \<noteq> ''''" "env EnvToken \<noteq> ''''"
    "provisionSteps L B domains (serverFor (env EnvAddr) (env EnvToken) (hexEncode b)) s = (Ok v, s')"
  using assms by (auto simp: Provision_def Let_def randomSuffix_def andThen_def split: if_splits sum.splits)

text \<open>
  (C39) A test that provisions OpenBao sends exactly the requests for its mount, CA, role, policy and AppRole, and
  possibly one to enable the AppRole auth method, and ends with credentials that are not empty. Whatever the
  test did in between and in whatever way OpenBao answers, its end sends exactly the deletions of the
  mount, the AppRole and the policy; the auth method, which other tests share, stays enabled.\<close>

theorem provision_is_torn_down:
  assumes "Provision L B env rnd domains s = (Ok v, s')" and "\<And>url. bl_buildErr L url = None"
    and "te_cleanup s = []" and "te_cleanup t = te_cleanup s'"
  shows "(\<exists>tried. endpoints s' = endpoints s @ provisionLog v tried) \<and>
    ts_RoleID v \<noteq> '''' \<and> ts_SecretID v \<noteq> '''' \<and> ts_CACertPEM v \<noteq> '''' \<and>
    endpoints (finishTest L B t) = endpoints t @ teardownLog v \<and>
    (''DELETE'', ts_Addr v @ ''/v1/sys/auth/approle'') \<notin> set (teardownLog v)"
proof -
  obtain b where "provisionSteps L B domains (serverFor (env EnvAddr) (env EnvToken) (hexEncode b)) s = (Ok v, s')"
    using assms(1) by (rule Provision_Ok)
  from provisionSteps_Ok [OF this _ assms(2)] have ok: "te_cleanup s' = v # te_cleanup s"
    "\<exists>tried. endpoints s' = endpoints s @ provisionLog v tried" "ts_RoleID v \<noteq> ''''" "ts_SecretID v \<noteq> ''''" "ts_CACertPEM v \<noteq> ''''"
    by (simp_all add: serverFor_def)
  have "finishTest L B t = teardown L B v (t\<lparr>te_cleanup := []\<rparr>)"
    using ok assms(3,4) by (simp add: finishTest_def)
  then have "endpoints (finishTest L B t) = endpoints t @ teardownLog v"
    by (simp add: teardown_def teardownLog_def bt_try_endpoints assms(2))
  with ok show ?thesis by (simp add: teardownLog_def)
qed

text \<open>A test library and two servers: one that accepts everything, one that lets nothing be read.\<close>

definition ex_testLib :: testLib where
  "ex_testLib = \<lparr>bl_marshal = \<lambda>m. Ok ''{}'', bl_keys = \<lambda>raw. Ok [''approle/''], bl_data = \<lambda>field raw. Ok raw,
     bl_buildErr = \<lambda>url. None\<rparr>"

definition ex_openbao :: "nat \<Rightarrow> unit openbao" where
  "ex_openbao status q w =
    (if brq_Payload q = None then Reply status ''id'' else Reply 200 ''x'', w)"

definition ex_testEnv :: "string \<Rightarrow> string" where
  "ex_testEnv name = (if name = EnvAddr then ''http://bao'' else if name = EnvToken then ''root'' else '''')"

definition ex_test :: "unit testState" where "ex_test = \<lparr>te_world = (), te_sent = [], te_cleanup = []\<rparr>"

definition ex_provision :: "nat \<Rightarrow> (test_stop, testServer) result \<times> unit testState" where
  "ex_provision status = Provision ex_testLib (ex_openbao status) ex_testEnv (Ok ''abcdef'') ''example.com'' ex_test"

definition ex_testServer :: testServer where
  "ex_testServer = (serverFor ''http://bao'' ''root'' (hexEncode ''abcdef''))
     \<lparr>ts_RoleID := ''id'', ts_SecretID := ''x'', ts_CACertPEM := ''id''\<rparr>"

lemmas ex_provision_defs = ex_provision_def Provision_def provisionSteps_def provision_ops enableAppRole_def request2_def
  bt_request_def bt_onReply_def bt_try_def nonEmpty_def registerCleanup_def andThen_def randomSuffix_def ex_testLib_def ex_openbao_def

lemma ex_testEnv_values: "ex_testEnv EnvAddr = ''http://bao''" "ex_testEnv EnvToken = ''root''"
  by (simp_all add: ex_testEnv_def EnvAddr_def EnvToken_def)

lemma ex_provision_Ok: "fst (ex_provision 200) = Ok ex_testServer"
  by (simp add: ex_provision_defs ex_testEnv_values ex_testServer_def Let_def)

theorem provision_is_torn_down_witness:
  "endpoints (finishTest ex_testLib (ex_openbao 200) (snd (ex_provision 200))) =
     endpoints (snd (ex_provision 200)) @ teardownLog ex_testServer"
proof -
  have "ex_provision 200 = (Ok ex_testServer, snd (ex_provision 200))" using ex_provision_Ok by (metis prod.collapse)
  from provision_is_torn_down [OF this [unfolded ex_provision_def], of "snd (ex_provision 200)"] show ?thesis
    by (simp add: ex_testLib_def ex_test_def ex_provision_def)
qed

text \<open>
  (C40) Cleanup is registered only after the last step: a Provision that stops the test, at whatever step,
  leaves nothing for the end of the test to take down, even where the mount, the role, the AppRole
  and the policy were already created.\<close>

theorem failed_provision_leaks:
  assumes "Provision L B env rnd domains s = (Err stop, s')" and "te_cleanup s = []"
  shows "te_cleanup s' = [] \<and> te_sent (finishTest L B s') = te_sent s'"
proof -
  have "te_cleanup s' = te_cleanup s"
    using assms(1) provisionSteps_stop [of L B domains]
    by (auto simp: Provision_def Let_def randomSuffix_def andThen_def stop_keeps_def split: if_splits sum.splits)
  with assms(2) show ?thesis by (simp add: finishTest_def)
qed

text \<open>The mount, the CA, the role, the policy and the AppRole exist, the read of the role-id fails, and no request deletes them.\<close>

theorem failed_provision_leaks_witness:
  "endpoints (finishTest ex_testLib (ex_openbao 500) (snd (ex_provision 500))) =
     take 8 (provisionLog ex_testServer True)"
proof -
  obtain stop where "fst (ex_provision 500) = Err stop"
    by (simp add: ex_provision_defs ex_testEnv_values Let_def)
  then have "ex_provision 500 = (Err stop, snd (ex_provision 500))" by (metis prod.collapse)
  from failed_provision_leaks [OF this [unfolded ex_provision_def]] have
    "te_sent (finishTest ex_testLib (ex_openbao 500) (snd (ex_provision 500))) = te_sent (snd (ex_provision 500))"
    by (simp add: ex_test_def ex_provision_def)
  moreover have "endpoints (snd (ex_provision 500)) = take 8 (provisionLog ex_testServer True)"
    by (simp add: ex_provision_defs ex_testEnv_values ex_testServer_def ex_test_def Let_def endpoints_def provisionLog_def
        enableLog_def serverFor_def PolicyName_def)
  ultimately show ?thesis by (simp add: endpoints_def)
qed

text \<open>
  Tests are isolated: servers provisioned from different random bytes have different mounts,
  different AppRoles and different policies.\<close>

theorem provisions_are_isolated:
  assumes "Provision L B env (Ok b1) d1 s1 = (Ok v1, t1)" and "Provision L' B' env' (Ok b2) d2 s2 = (Ok v2, t2)"
    and "b1 \<noteq> b2" and "\<And>url. bl_buildErr L url = None" and "\<And>url. bl_buildErr L' url = None"
  shows "ts_Mount v1 \<noteq> ts_Mount v2 \<and> ts_AppRole v1 \<noteq> ts_AppRole v2 \<and> PolicyName v1 \<noteq> PolicyName v2"
proof -
  have named: "ts_Mount v = ''pki_test_'' @ hexEncode b \<and> ts_AppRole v = ''certbroker_test_'' @ hexEncode b"
    if run: "Provision M C e (Ok b) d s = (Ok v, t)" and build: "\<And>url. bl_buildErr M url = None"
    for M :: testLib and C :: "'x openbao" and e b d s v t
  proof -
    obtain b' where b': "(Ok b :: (string, string) result) = Ok b'"
      "provisionSteps M C d (serverFor (e EnvAddr) (e EnvToken) (hexEncode b')) s = (Ok v, t)"
      using run by (rule Provision_Ok)
    from provisionSteps_Ok [OF b'(2) _ build] have "v = (serverFor (e EnvAddr) (e EnvToken) (hexEncode b'))
        \<lparr>ts_RoleID := ts_RoleID v, ts_SecretID := ts_SecretID v, ts_CACertPEM := ts_CACertPEM v\<rparr>"
      by (simp add: serverFor_def)
    then have "ts_Mount v = ts_Mount (serverFor (e EnvAddr) (e EnvToken) (hexEncode b'))"
      "ts_AppRole v = ts_AppRole (serverFor (e EnvAddr) (e EnvToken) (hexEncode b'))"
      by (metis testServer.select_convs testServer.update_convs testServer.surjective)+
    with b'(1) show ?thesis by (simp add: serverFor_def)
  qed
  from named [OF assms(1,4)] named [OF assms(2,5)] assms(3) show ?thesis
    by (simp add: PolicyName_def hexEncode_inj)
qed

theorem provisions_are_isolated_witness:
  "\<exists>v1 v2 t1 t2. Provision ex_testLib (ex_openbao 200) ex_testEnv (Ok ''abcdef'') ''example.com'' ex_test = (Ok v1, t1) \<and>
     Provision ex_testLib (ex_openbao 200) ex_testEnv (Ok ''uvwxyz'') ''example.com'' ex_test = (Ok v2, t2) \<and> ts_Mount v1 \<noteq> ts_Mount v2"
proof -
  have run: "\<exists>v t. Provision ex_testLib (ex_openbao 200) ex_testEnv (Ok b) ''example.com'' ex_test = (Ok v, t)" for b
    by (simp add: ex_provision_defs ex_testEnv_values Let_def)
  obtain v1 t1 v2 t2 where runs:
    "Provision ex_testLib (ex_openbao 200) ex_testEnv (Ok ''abcdef'') ''example.com'' ex_test = (Ok v1, t1)"
    "Provision ex_testLib (ex_openbao 200) ex_testEnv (Ok ''uvwxyz'') ''example.com'' ex_test = (Ok v2, t2)"
    using run by blast
  from provisions_are_isolated [OF runs] have "ts_Mount v1 \<noteq> ts_Mount v2" by (simp add: ex_testLib_def)
  with runs show ?thesis by blast
qed

section \<open>The role\<close>

lemma gm_get_fold_put:
  "gm_ok m \<Longrightarrow> gm_ok kvs \<Longrightarrow> gm_ok (fold (\<lambda>(k, v). gm_put k v) kvs m) \<and>
    gm_get (fold (\<lambda>(k, v). gm_put k v) kvs m) j = (case gm_get kvs j of Some v \<Rightarrow> Some v | None \<Rightarrow> gm_get m j)"
proof (induction kvs arbitrary: m)
  case Nil
  then show ?case by (simp add: gm_get_def)
next
  case (Cons kv kvs)
  obtain k v where kv: "kv = (k, v)" by force
  have "gm_ok kvs" "gm_get kvs k = None" using Cons.prems(2) kv by (auto simp: gm_ok_def gm_get_def map_of_eq_None_iff)
  moreover have "gm_get (kv # kvs) j = (if j = k then Some v else gm_get kvs j)" by (simp add: kv gm_get_def)
  ultimately show ?case using Cons.IH [of "gm_put k v m"] Cons.prems(1)
    by (simp add: kv gm.ok_put gm.get_put split: option.split)
qed

lemma roleDefaults_ok: "gm_ok roleDefaults"
  by (simp add: gm_ok_def roleDefaults_def)

text \<open>
  The role of a provisioned mount never takes a name from the certificate request, whatever domains
  the test asks for: a successful writeRole has written a body in which use_csr_common_name and
  use_csr_sans are false and allowed_domains is the one asked for. In a role that a test adds, each
  setting is the test's own where it gives one, and the default otherwise.\<close>

theorem test_role_settings:
  assumes "writeRole L B v domains s = (Ok u, s')" and "gm_ok overrides"
  shows "(\<exists>q p body. te_sent s' = te_sent s @ [q] \<and> brq_Payload q = Some p \<and> bl_marshal L body = Ok p \<and>
      brq_URL q = ts_Addr v @ ''/v1/'' @ ts_Mount v @ ''/roles/'' @ ts_Role v \<and>
      gm_get body ''use_csr_common_name'' = Some (AnyBool False) \<and> gm_get body ''use_csr_sans'' = Some (AnyBool False) \<and>
      gm_get body ''allowed_domains'' = Some (AnyStr domains)) \<and>
    gm_get (roleBody overrides) k = (case gm_get overrides k of Some x \<Rightarrow> Some x | None \<Rightarrow> gm_get roleDefaults k)"
proof -
  let ?own = "[(''allowed_domains'', AnyStr domains), (''use_csr_common_name'', AnyBool False), (''use_csr_sans'', AnyBool False)]"
  have settings: "gm_get (roleBody kvs) j = (case gm_get kvs j of Some x \<Rightarrow> Some x | None \<Rightarrow> gm_get roleDefaults j)"
    if "gm_ok kvs" for kvs j
    using gm_get_fold_put [OF roleDefaults_ok that] by (simp add: roleBody_def)
  have "gm_ok ?own" by (simp add: gm_ok_def)
  note own = settings [OF this]
  obtain q p where "te_sent s' = te_sent s @ [q]" "brq_Payload q = Some p" "bl_marshal L (roleBody ?own) = Ok p"
    "brq_URL q = ts_Addr v @ ''/v1/'' @ ts_Mount v @ ''/roles/'' @ ts_Role v"
    using assms(1) by (auto simp: writeRole_def writeRoleWith_def post_def request2_def bt_request_def Let_def split_def
        split: prod.splits sum.splits option.splits)
  moreover have "gm_get (roleBody ?own) ''use_csr_common_name'' = Some (AnyBool False)"
    "gm_get (roleBody ?own) ''use_csr_sans'' = Some (AnyBool False)" "gm_get (roleBody ?own) ''allowed_domains'' = Some (AnyStr domains)"
    by (simp_all only: own) (simp_all add: gm_get_def)
  ultimately show ?thesis using settings [OF assms(2)] by blast
qed

theorem test_role_settings_witness:
  "\<exists>q. te_sent (snd (writeRole ex_testLib (ex_openbao 200) ex_testServer ''iot.example'' ex_test)) = [q] \<and> brq_Payload q \<noteq> None"
proof -
  have run: "writeRole ex_testLib (ex_openbao 200) ex_testServer ''iot.example'' ex_test =
      (Ok (), snd (writeRole ex_testLib (ex_openbao 200) ex_testServer ''iot.example'' ex_test))"
    by (simp add: ex_provision_defs Let_def)
  have "gm_ok ([] :: jsonBody)" by (simp add: gm_ok_def)
  from test_role_settings [OF run this, of "''ttl''"] show ?thesis by (elim conjE exE) (simp add: ex_test_def)
qed

end
