(* ===== verification/Spec2Isabelle.thy ===== *)
theory Spec2Isabelle
  imports Broker_Concurrent Main_Lifecycle Bao_Concurrent Bao_Provision
begin

text \<open>
  A verification development of certbroker, a broker that takes EST (RFC 7030) and SCEP (RFC 8894)
  enrollment requests from devices, decides each of them by policy and has OpenBao issue the
  certificate.

  \<^bold>\<open>The program and its parts.\<close> A request reaches a listener, passes the rate limiter, and is served
  by the EST or the SCEP handler. The handler reads the certificate request, works out the identity of
  the client from its trust anchors, asks the authorizer, has the OpenBao client sign under the role
  and the names of the decision, checks the certificate that came back against the decision, and
  only then answers. Both protocols share the authorizer, the OpenBao client and the limiter.
  \<open>cmd/certbroker\<close> builds all of it from one validated configuration.

  \<^bold>\<open>Theories and sources.\<close> Definitions keep the names of the source, with the package or the receiver
  in front where two would clash (\<open>est_NewHandler\<close>, \<open>ReplayCache_Check\<close>).

  \<^item> \<open>Broker_Prelude\<close>: results as sums, strings, 64-bit integers, durations, Go maps as association lists with
  the interface locale \<open>go_map\<close>, the collections of simplification rules. \<open>Go_X509\<close>, \<open>Go_Encoding\<close>, \<open>Go_Http\<close>: what
  the sources use of the standard library: certificates, base64, PEM, decimal and duration texts, requests and
  responses, and the record \<open>x509lib\<close> of parsers and verifiers, a parameter of the model.

  \<^item> \<open>Authz_Types\<close>, \<open>Authz_Match\<close>, \<open>Authz_Inventory\<close>, \<open>Authz_Challenge\<close>, \<open>Authz_Policy\<close>, \<open>Authz_Verify\<close>, \<open>Authz_Pipeline\<close>:
  \<open>src/internal/authz\<close>. An authorizer maps a request and a state to a decision or an error and the next state;
  the state is that of the challenge backend. \<open>Authz_Properties\<close> has the theorems.

  \<^item> \<open>Rate_Limits\<close>, \<open>Rate_Limits_Properties\<close>: \<open>src/internal/limits\<close>. Buckets compute in real numbers under a rounding
  function \<open>fl\<close>; the middleware is the step relation \<open>mw_step\<close> over interleaved requests.

  \<^item> \<open>Pkcs7_Der\<close>: \<open>src/internal/pkcs7\<close>, byte by byte, with a reader for the round trip. \<open>Cms\<close>: \<open>src/internal/cms\<close> over
  the third-party library \<open>pkcs7lib\<close>, a parameter.

  \<^item> \<open>Est_Csr\<close>, \<open>Est_Handler\<close>, \<open>Est_Properties\<close>: \<open>src/internal/est\<close>. \<open>Scep_Replay\<close>, \<open>Scep_Message\<close>, \<open>Scep_Handler\<close>,
  \<open>Scep_Properties\<close>: \<open>src/internal/scep\<close>. A handler runs on the process state \<open>broker_world\<close>: the authorizer's state, the
  OpenBao client's, the replay cache, and the trace of authorizations, calls to OpenBao and audit records.

  \<^item> \<open>Bao_Types\<close>, \<open>Bao_Client\<close>, \<open>Bao_Properties\<close>: \<open>src/internal/bao\<close>: token lifecycle, retry loop with backoff, the three
  PKI calls. The network is the list of replies still to come; the requests sent are logged.
  \<open>Bao_Concurrent\<close>: the critical sections of \<open>ensureToken\<close>, \<open>renewSelf\<close> and \<open>Login\<close> as the steps \<open>tok_step\<close> of
  interleaved callers, which a sequential call refines.

  \<^item> \<open>Broker_Config\<close>: \<open>src/internal/config\<close>. \<open>Main_Wiring\<close>: \<open>src/cmd/certbroker/main.go\<close>, from the configuration to the
  broker with its listeners. \<open>Main_Lifecycle\<close>: the rest of \<open>main.go\<close>: the command line, and the goroutines, the error
  channel, the signals and the shutdown of \<open>run\<close> as the step relation \<open>run_step\<close>. \<open>Broker_System\<close>: histories of
  requests over the running broker. \<open>Broker_Requests\<close>: what the calls of the client send to OpenBao, retries included, and the
  decisions behind it. \<open>Main_Properties\<close>: what holds end to end.

  \<^item> \<open>Broker_Concurrent\<close>: the handlers as jobs, sequences of actions on the process state, interleaved behind the limiter
  by the steps \<open>conc_step\<close>; run alone, a job is the handler (\<open>jobs_are_handlers\<close>).

  \<^item> \<open>Bao_Provision\<close>: \<open>src/internal/baotest\<close>, which provisions a PKI mount with role, policy and AppRole on a live OpenBao
  for an integration test and takes them down at its end.

  \<^bold>\<open>Interfaces.\<close> \<open>go_map\<close> (maps), \<open>challenge_validator\<close> (the static secret and the one-time store), \<open>constraint_builder\<close>
  (the standard constraints), \<open>named_authorizer\<close> (the pipeline and DenyAll: an allowing decision names a role and a
  subject), \<open>issuing_handler\<close> (EST, SCEP and the whole broker: OpenBao is asked only under a grant), \<open>deciding_handler\<close>
  (EST, SCEP and the started broker: every decision is the configured authorizer's answer to a request whose
  identity is anchored), \<open>enroller_contract\<close> (the OpenBao client: a bundle only for a named role). Each is
  interpreted on the definitions of the model.

  \<^bold>\<open>What is shown.\<close> End to end, over every history of a broker started from its configuration, certificates are requested
  only for an anchored client certificate or the configured secret, the client is called once for each decision and sends at most
  MaxRetries + 1 requests for it (it retries without regard to what OpenBao already issued, as its comment and the
  threat model say), and a renewal keeps the identity of the device (\<open>Main_Properties\<close>). The policy engine: authentication, challenges that are never waived, name bounds of each mode, the
  exact language of the check on issued certificates, single use of one-time codes, all-or-nothing reload. The
  handlers: what is delivered was checked, identities come from the right anchor, bodies and certs-only messages
  round-trip, the chain loops end, replays stop early, refusals look alike. The replay cache refines the set of
  refused keys, and is bounded. The limiter: rate, table and concurrency bounds over all interleavings. The client:
  bounded retries that outlast transient failures, tokens on every request, bodies that say what was decided; under
  concurrent callers every token in use was granted, and its expiry is the right one while at most one of them waits.
  The broker under concurrent requests: in no interleaving is a request for a certificate sent that the policy did not
  allow, or more of them than the limiter and the retries permit (\<open>Broker_Concurrent\<close>). The process: how it ends and why, that no goroutine blocks on
  the error channel, that shutdown ends, that authorization is only switched off explicitly. The provisioner: what it
  creates and takes down, and what it leaves behind.
  Some theorems record where the code does less than its documents say; the manifest lists them as findings.

  \<^bold>\<open>Bounds and fuel.\<close> The PEM loops take the length of the input plus one as fuel; \<open>pem_loops_complete\<close> shows that this
  is enough whenever \<open>pem.Decode\<close> consumes input. The retry loop recurses on the retries left. Sizes, limits, durations
  and the lifetime check wrap around in 64 bits where the source computes in \<open>int64\<close>. A floating-point
  operation is the exact one followed by a monotone rounding; the rate bound carries its relative error.

  \<^bold>\<open>Not modelled.\<close> Cryptography, X.509 and CMS parsing, JSON, YAML, files, environment and network are parameters. Sockets,
  the TLS handshake (the settings of the listener are modelled) and \<open>net/http\<close> below the handlers; log lines that are not
  audit records; the scrubbing of a key buffer; NaN and infinities. The verification of a certificate chain does not
  depend on the time; a panic of the backoff (38 retries or more) reaches the handlers as an error. A call of
  OpenBao with its retries is one action of the interleaved handlers, and one clock reading serves a whole client call; the token handling inside such calls is interleaved in
  \<open>Bao_Concurrent\<close>. Tests, deployment files and documents are outside the development.
\<close>

end
